(* ===== verification/Go_Prelude.thy ===== *)
theory Go_Prelude
  imports Complex_Main "HOL-Library.Char_ord" "HOL-Library.List_Lexorder" "HOL-Library.AList"
begin

text \<open>
  Shared vocabulary of the development: Go's 64-bit integers, times and durations, the
  string functions of package strings that the sources call, Go maps as association
  lists with distinct keys, and the proof collections the component theories use.
  Integers are \<^typ>\<open>int\<close> values in the range of int64; every addition the sources
  perform on them is written with \<open>wrap64\<close>, which is where overflow shows.
\<close>

named_theorems go_guards \<open>definitions of guards and validation predicates\<close>
named_theorems go_ops \<open>definitions of operations, unfolded to analyse one step\<close>

lemmas go_splits = if_splits option.splits sum.splits prod.splits

text \<open>A chain of checks, each returning the first error it meets, passes when all do.\<close>

lemma check_chain_None [simp]:
  "(case a of None \<Rightarrow> b | Some e \<Rightarrow> Some (f e)) = None \<longleftrightarrow> a = None \<and> b = None"
  by (cases a) simp_all

lemma check_guard_None [simp]:
  "(if c then Some e else b) = None \<longleftrightarrow> \<not> c \<and> b = None"
  by simp

text \<open>Sequencing of steps that may fail.\<close>

definition sum_bind :: "'e + 'a \<Rightarrow> ('a \<Rightarrow> 'e + 'b) \<Rightarrow> 'e + 'b" where
  "sum_bind x f = (case x of Inl e \<Rightarrow> Inl e | Inr v \<Rightarrow> f v)"

lemma sum_bind_simps [simp]: "sum_bind (Inl e) f = Inl e" "sum_bind (Inr v) f = f v"
  by (simp_all add: sum_bind_def)

lemma sum_bind_Inr: "sum_bind x f = Inr v \<longleftrightarrow> (\<exists>u. x = Inr u \<and> f u = Inr v)"
  by (cases x) simp_all

lemma set_map_filter: "y \<in> set (List.map_filter f xs) \<longleftrightarrow> (\<exists>x\<in>set xs. f x = Some y)"
  by (force simp: List.map_filter_def)

lemma map_filter_sorted:
  "sorted (map f xs) \<Longrightarrow> (\<And>x y. x \<in> set xs \<Longrightarrow> g x = Some y \<Longrightarrow> h y = f x) \<Longrightarrow>
   sorted (map h (List.map_filter g xs))"
proof (induction xs)
  case (Cons x xs)
  then have "\<forall>y\<in>set (List.map_filter g xs). h y \<ge> f x" by (fastforce simp: set_map_filter)
  moreover have "h y = f x" if "g x = Some y" for y using Cons.prems(2) that by simp
  moreover have "sorted (map h (List.map_filter g xs))" using Cons by simp
  ultimately show ?case by (cases "g x") (simp_all add: List.map_filter_simps)
qed (simp add: List.map_filter_simps)

section \<open>64-bit integers\<close>

definition wrap64 :: "int \<Rightarrow> int" where
  "wrap64 x = (x + 2 ^ 63) mod 2 ^ 64 - 2 ^ 63"

definition i64_ok :: "int \<Rightarrow> bool" where
  "i64_ok x \<longleftrightarrow> - (2 ^ 63) \<le> x \<and> x < 2 ^ 63"

lemma wrap64_id: "i64_ok x \<Longrightarrow> wrap64 x = x"
  by (simp add: wrap64_def i64_ok_def)

lemma wrap64_ok: "i64_ok (wrap64 x)"
proof -
  have "0 \<le> (x + 2 ^ 63) mod 2 ^ 64" and "(x + 2 ^ 63) mod 2 ^ 64 < (2::int) ^ 64"
    by simp_all
  then show ?thesis by (simp add: wrap64_def i64_ok_def)
qed

lemma wrap64_wrap64 [simp]: "wrap64 (wrap64 x) = wrap64 x"
  by (rule wrap64_id [OF wrap64_ok])

lemma wrap64_cong_iff: "wrap64 x = wrap64 y \<longleftrightarrow> x mod 2 ^ 64 = y mod 2 ^ 64"
proof -
  have "wrap64 x = wrap64 y \<longleftrightarrow> (x + 2 ^ 63) mod 2 ^ 64 = (y + 2 ^ 63) mod 2 ^ 64"
    by (simp add: wrap64_def)
  also have "\<dots> \<longleftrightarrow> 2 ^ 64 dvd (x + 2 ^ 63) - (y + 2 ^ 63)"
    by (rule mod_eq_dvd_iff)
  also have "\<dots> \<longleftrightarrow> 2 ^ 64 dvd x - y" by simp
  also have "\<dots> \<longleftrightarrow> x mod 2 ^ 64 = y mod 2 ^ 64"
    by (rule mod_eq_dvd_iff [symmetric])
  finally show ?thesis .
qed

lemma wrap64_mod: "wrap64 x mod 2 ^ 64 = x mod 2 ^ 64"
  using wrap64_cong_iff [of "wrap64 x" x] by simp

lemma wrap64_add_left [simp]: "wrap64 (wrap64 x + y) = wrap64 (x + y)"
  by (metis wrap64_cong_iff wrap64_mod mod_add_left_eq)

lemma wrap64_add_right [simp]: "wrap64 (x + wrap64 y) = wrap64 (x + y)"
  by (metis add.commute wrap64_add_left)

lemma wrap64_diff_left [simp]: "wrap64 (wrap64 x - y) = wrap64 (x - y)"
  by (metis wrap64_cong_iff wrap64_mod mod_diff_left_eq)

lemma i64_ok_0 [simp]: "i64_ok 0"
  by (simp add: i64_ok_def)

section \<open>Times and durations\<close>

text \<open>
  A \<open>time.Time\<close> is the number of nanoseconds since Go's zero time, a \<open>time.Duration\<close> a
  number of nanoseconds in the range of int64. \<open>Time.Sub\<close> saturates at that range.
\<close>

type_synonym gotime = int
type_synonym duration = int

definition time_IsZero :: "gotime \<Rightarrow> bool" where
  "time_IsZero t \<longleftrightarrow> t = 0"

definition time_Before :: "gotime \<Rightarrow> gotime \<Rightarrow> bool" where
  "time_Before t u \<longleftrightarrow> t < u"

definition time_After :: "gotime \<Rightarrow> gotime \<Rightarrow> bool" where
  "time_After t u \<longleftrightarrow> t > u"

definition time_Add :: "gotime \<Rightarrow> duration \<Rightarrow> gotime" where
  "time_Add t d = t + d"

definition time_Sub :: "gotime \<Rightarrow> gotime \<Rightarrow> duration" where
  "time_Sub t u = max (- (2 ^ 63)) (min (2 ^ 63 - 1) (t - u))"

definition Second :: duration where
  "Second = 1000000000"

definition Minute :: duration where
  "Minute = 60000000000"

lemmas time_defs = time_IsZero_def time_Before_def time_After_def time_Add_def time_Sub_def

section \<open>Strings\<close>

text \<open>
  Go strings are byte strings. \<open>TrimSpace\<close> removes the white space of Unicode at both
  ends: the six ASCII characters and the UTF-8 encodings of the other space runes. A
  rune's encoding begins with its own start byte, so matching the encodings at the end
  of a byte string finds exactly what decoding the last rune finds.
\<close>

definition space_runes :: "string list" where
  "space_runes =
     [[CHR 0x09], [CHR 0x0A], [CHR 0x0B], [CHR 0x0C], [CHR 0x0D], [CHR 0x20],
      [CHR 0xC2, CHR 0x85], [CHR 0xC2, CHR 0xA0], [CHR 0xE1, CHR 0x9A, CHR 0x80],
      [CHR 0xE2, CHR 0x80, CHR 0x80], [CHR 0xE2, CHR 0x80, CHR 0x81],
      [CHR 0xE2, CHR 0x80, CHR 0x82], [CHR 0xE2, CHR 0x80, CHR 0x83],
      [CHR 0xE2, CHR 0x80, CHR 0x84], [CHR 0xE2, CHR 0x80, CHR 0x85],
      [CHR 0xE2, CHR 0x80, CHR 0x86], [CHR 0xE2, CHR 0x80, CHR 0x87],
      [CHR 0xE2, CHR 0x80, CHR 0x88], [CHR 0xE2, CHR 0x80, CHR 0x89],
      [CHR 0xE2, CHR 0x80, CHR 0x8A], [CHR 0xE2, CHR 0x80, CHR 0xA8],
      [CHR 0xE2, CHR 0x80, CHR 0xA9], [CHR 0xE2, CHR 0x80, CHR 0xAF],
      [CHR 0xE2, CHR 0x81, CHR 0x9F], [CHR 0xE3, CHR 0x80, CHR 0x80]]"

definition starts_with :: "'a list \<Rightarrow> 'a list \<Rightarrow> bool" where
  "starts_with p s \<longleftrightarrow> take (length p) s = p"

fun drop_runes :: "string list \<Rightarrow> nat \<Rightarrow> string \<Rightarrow> string" where
  "drop_runes ps 0 s = s"
| "drop_runes ps (Suc n) s =
     (case find (\<lambda>p. starts_with p s) ps of
        None \<Rightarrow> s
      | Some p \<Rightarrow> drop_runes ps n (drop (length p) s))"

definition TrimLeftSpace :: "string \<Rightarrow> string" where
  "TrimLeftSpace s = drop_runes space_runes (length s) s"

definition TrimRightSpace :: "string \<Rightarrow> string" where
  "TrimRightSpace s = rev (drop_runes (map rev space_runes) (length s) (rev s))"

definition TrimSpace :: "string \<Rightarrow> string" where
  "TrimSpace s = TrimRightSpace (TrimLeftSpace s)"

lemma drop_runes_Nil [simp]: "drop_runes ps n [] = []"
  by (induction n) (auto split: option.splits)

lemma drop_runes_suffix: "\<exists>p. s = p @ drop_runes ps n s"
proof (induction n arbitrary: s)
  case (Suc n)
  show ?case
  proof (cases "find (\<lambda>p. starts_with p s) ps")
    case (Some p)
    obtain q where "drop (length p) s = q @ drop_runes ps n (drop (length p) s)"
      using Suc.IH by blast
    then have "s = (take (length p) s @ q) @ drop_runes ps n (drop (length p) s)"
      by (metis append.assoc append_take_drop_id)
    with Some show ?thesis by (metis drop_runes.simps(2) option.simps(5))
  qed simp
qed simp

lemma TrimSpace_Nil [simp]: "TrimSpace [] = []"
  by (simp add: TrimSpace_def TrimLeftSpace_def TrimRightSpace_def)

lemma TrimSpace_infix: "\<exists>p q. s = p @ TrimSpace s @ q"
proof -
  obtain p where p: "s = p @ TrimLeftSpace s"
    using drop_runes_suffix unfolding TrimLeftSpace_def by blast
  obtain q where "rev (TrimLeftSpace s) = q @ rev (TrimSpace s)"
    using drop_runes_suffix unfolding TrimSpace_def TrimRightSpace_def rev_rev_ident by blast
  then have "TrimLeftSpace s = TrimSpace s @ rev q"
    by (metis rev_append rev_rev_ident)
  with p show ?thesis by metis
qed

lemma drop_runes_stop:
  "\<forall>p\<in>set ps. p \<noteq> [] \<Longrightarrow> length s \<le> n \<Longrightarrow>
   find (\<lambda>p. starts_with p (drop_runes ps n s)) ps = None"
proof (induction n arbitrary: s)
  case 0
  then show ?case by (auto simp: find_None_iff starts_with_def)
next
  case (Suc n)
  show ?case
  proof (cases "find (\<lambda>p. starts_with p s) ps")
    case (Some p)
    then have "p \<in> set ps" by (auto simp: find_Some_iff)
    then have "p \<noteq> []" using Suc.prems(1) by blast
    then have "length (drop (length p) s) \<le> n" using Suc.prems(2) by (cases p) auto
    from Suc.IH [OF Suc.prems(1) this] Some show ?thesis by simp
  qed simp
qed

lemma drop_runes_fix: "find (\<lambda>p. starts_with p s) ps = None \<Longrightarrow> drop_runes ps n s = s"
  by (cases n) simp_all

lemma starts_with_append: "starts_with p s \<Longrightarrow> starts_with p (s @ t)"
  unfolding starts_with_def by (metis append_eq_conv_conj append_take_drop_id append.assoc)

lemma space_runes_nonempty: "\<forall>p\<in>set space_runes. p \<noteq> []" "\<forall>p\<in>set (map rev space_runes). p \<noteq> []"
  by (simp_all add: space_runes_def)

lemma TrimSpace_idem [simp]: "TrimSpace (TrimSpace s) = TrimSpace s"
proof -
  let ?u = "TrimLeftSpace s"
  have u: "find (\<lambda>p. starts_with p ?u) space_runes = None"
    unfolding TrimLeftSpace_def by (rule drop_runes_stop [OF space_runes_nonempty(1)]) simp
  obtain q where "rev ?u = q @ rev (TrimSpace s)"
    using drop_runes_suffix unfolding TrimSpace_def TrimRightSpace_def rev_rev_ident by blast
  then have "?u = TrimSpace s @ rev q" by (metis rev_append rev_rev_ident)
  then have "find (\<lambda>p. starts_with p (TrimSpace s)) space_runes = None"
    using u starts_with_append [of _ "TrimSpace s" "rev q"] by (auto simp: find_None_iff)
  then have left: "TrimLeftSpace (TrimSpace s) = TrimSpace s"
    unfolding TrimLeftSpace_def by (rule drop_runes_fix)
  have "find (\<lambda>p. starts_with p (rev (TrimSpace s))) (map rev space_runes) = None"
    unfolding TrimSpace_def TrimRightSpace_def rev_rev_ident
    by (rule drop_runes_stop [OF space_runes_nonempty(2)]) simp
  then have "TrimRightSpace (TrimSpace s) = TrimSpace s"
    unfolding TrimRightSpace_def by (simp add: drop_runes_fix)
  with left show ?thesis by (metis TrimSpace_def)
qed

lemma drop_runes_keeps:
  "c \<in> set s \<Longrightarrow> \<forall>p\<in>set ps. c \<notin> set p \<Longrightarrow> c \<in> set (drop_runes ps n s)"
proof (induction n arbitrary: s)
  case (Suc n)
  show ?case
  proof (cases "find (\<lambda>p. starts_with p s) ps")
    case (Some p)
    then have p: "p \<in> set ps" "take (length p) s = p" by (auto simp: find_Some_iff starts_with_def)
    then have "c \<notin> set (take (length p) s)" using Suc.prems(2) by auto
    then have "c \<in> set (drop (length p) s)"
      using Suc.prems(1) by (metis Un_iff append_take_drop_id set_append)
    with Suc.IH Suc.prems(2) Some show ?thesis by simp
  qed (use Suc.prems in simp)
qed simp

lemma TrimSpace_keeps: "c \<in> set s \<Longrightarrow> \<forall>p\<in>set space_runes. c \<notin> set p \<Longrightarrow> c \<in> set (TrimSpace s)"
proof -
  assume "c \<in> set s" and p: "\<forall>p\<in>set space_runes. c \<notin> set p"
  then have "c \<in> set (rev (TrimLeftSpace s))" using drop_runes_keeps by (simp add: TrimLeftSpace_def)
  moreover have "\<forall>p\<in>set (map rev space_runes). c \<notin> set p" using p by simp
  ultimately have "c \<in> set (drop_runes (map rev space_runes) (length (TrimLeftSpace s)) (rev (TrimLeftSpace s)))"
    by (rule drop_runes_keeps)
  then show ?thesis by (simp add: TrimSpace_def TrimRightSpace_def)
qed

lemma TrimSpace_nonempty: "TrimSpace s \<noteq> [] \<Longrightarrow> s \<noteq> []"
  by auto

text \<open>A string in quotes, as \<open>%q\<close> prints one without characters to escape.\<close>

definition quoted :: "string \<Rightarrow> string" where
  "quoted s = CHR 0x22 # s @ [CHR 0x22]"

text \<open>Decimal numerals, as \<open>%d\<close> and \<open>strconv.Itoa\<close> print them.\<close>

fun nat_str :: "nat \<Rightarrow> string" where
  "nat_str n =
     (if n < 10 then [char_of (48 + n)] else nat_str (n div 10) @ [char_of (48 + n mod 10)])"

declare nat_str.simps [simp del]

definition int_str :: "int \<Rightarrow> string" where
  "int_str k = (if k < 0 then CHR ''-'' # nat_str (nat (- k)) else nat_str (nat k))"

text \<open>The same on integers, which evaluate in binary.\<close>

function pos_str :: "int \<Rightarrow> string" where
  "pos_str k = (if k < 10 then [char_of (48 + k)] else pos_str (k div 10) @ [char_of (48 + k mod 10)])"
  by pat_completeness auto
termination pos_str
  by (relation "measure nat") auto

declare pos_str.simps [simp del]

lemma nat_str_pos: "nat_str n = pos_str (int n)"
proof (induction n rule: nat_str.induct)
  case (1 n)
  have c: "char_of (48 + int m) = char_of (48 + m)" for m
    using char_of_nat [of "48 + m"] by simp
  show ?case
    using 1 c [of n] c [of "n mod 10"]
    by (subst nat_str.simps, subst pos_str.simps) (simp add: zdiv_int zmod_int)
qed

lemma int_str_code [code]: "int_str k = (if k < 0 then CHR ''-'' # pos_str (- k) else pos_str k)"
  by (simp add: int_str_def nat_str_pos)

lemma int_str_small [simp]: "int_str 1 = ''1''" "int_str 2 = ''2''"
  by code_simp+

section \<open>Maps\<close>

text \<open>
  A Go map is an association list with distinct keys. The order of the list is the
  order in which \<open>range\<close> happens to visit the entries, which Go leaves open; results that
  must not depend on it are proved not to.
\<close>

type_synonym ('k, 'v) gomap = "('k \<times> 'v) list"

abbreviation gomap_ok :: "('k, 'v) gomap \<Rightarrow> bool" where
  "gomap_ok m \<equiv> distinct (map fst m)"

definition gomap_get :: "('k, 'v) gomap \<Rightarrow> 'k \<Rightarrow> 'v option" where
  "gomap_get m k = map_of m k"

definition gomap_put :: "'k \<Rightarrow> 'v \<Rightarrow> ('k, 'v) gomap \<Rightarrow> ('k, 'v) gomap" where
  "gomap_put k v m = AList.update k v m"

definition gomap_or :: "'v \<Rightarrow> ('k, 'v) gomap \<Rightarrow> 'k \<Rightarrow> 'v" where
  "gomap_or z m k = (case gomap_get m k of None \<Rightarrow> z | Some v \<Rightarrow> v)"

locale kv_store =
  fixes empty :: "'m"
    and get :: "'m \<Rightarrow> 'k \<Rightarrow> 'v option"
    and put :: "'k \<Rightarrow> 'v \<Rightarrow> 'm \<Rightarrow> 'm"
    and ok :: "'m \<Rightarrow> bool"
  assumes get_empty: "get empty k = None"
    and get_put: "get (put k v m) k' = (if k' = k then Some v else get m k')"
    and ok_empty: "ok empty"
    and ok_put: "ok m \<Longrightarrow> ok (put k v m)"
begin

lemma get_put_same [simp]: "get (put k v m) k = Some v"
  by (simp add: get_put)

lemma get_put_other: "k' \<noteq> k \<Longrightarrow> get (put k v m) k' = get m k'"
  by (simp add: get_put)

lemma get_put_put: "get (put k v (put k w m)) = get (put k v m)"
  by (rule ext) (simp add: get_put)

end

interpretation gm: kv_store "[]" gomap_get gomap_put "\<lambda>m. gomap_ok m"
  by unfold_locales (simp_all add: gomap_get_def gomap_put_def update_conv' distinct_update)

lemma gomap_put_keys: "set (map fst (gomap_put k v m)) = insert k (set (map fst m))"
  by (simp add: gomap_put_def dom_update dom_map_of_conv_image_fst [symmetric] update_conv')

lemma gomap_get_in_set: "gomap_get m k = Some v \<Longrightarrow> (k, v) \<in> set m"
  by (simp add: gomap_get_def map_of_SomeD)

lemma gomap_get_iff: "gomap_ok m \<Longrightarrow> gomap_get m k = Some v \<longleftrightarrow> (k, v) \<in> set m"
  by (simp add: gomap_get_def map_of_eq_Some_iff)

lemma gomap_get_None_iff: "gomap_get m k = None \<longleftrightarrow> k \<notin> fst ` set m"
  by (simp add: gomap_get_def map_of_eq_None_iff)

end
