(* ===== verification/Go_Float.thy ===== *)
theory Go_Float
  imports Go_Prelude
begin

text \<open>
  Go's float64: IEEE 754 binary64 with rounding to nearest, ties to even. A finite value
  is the rational number it denotes, so the two zeros are one value (no source modelled
  here divides by a computed zero or prints the sign of one). Every operation rounds the
  exact result once, overflows to an infinity and propagates NaN; comparisons with NaN
  are false, as in Go.
\<close>

section \<open>Rounding\<close>

datatype f64 = Fin rat | PInf | NInf | NaN

fun bits :: "nat \<Rightarrow> nat" where
  "bits n = (if n = 0 then 0 else Suc (bits (n div 2)))"

declare bits.simps [simp del]

definition ilog2 :: "rat \<Rightarrow> int" where
  "ilog2 x =
     (case quotient_of x of (n, d) \<Rightarrow>
        let k = int (bits (nat n)) - int (bits (nat d))
        in if 2 powi k \<le> x then k else k - 1)"

definition f64_exp :: "rat \<Rightarrow> int" where
  "f64_exp x = max (- 1074) (ilog2 \<bar>x\<bar> - 52)"

definition rne :: "rat \<Rightarrow> int" where
  "rne x =
     (let f = \<lfloor>x\<rfloor>; d = x - of_int f
      in if d < 1 / 2 then f else if d > 1 / 2 then f + 1 else if even f then f else f + 1)"

definition f64_overflow :: rat where
  "f64_overflow = 2 ^ 1024"

definition f64_round :: "rat \<Rightarrow> f64" where
  "f64_round x =
     (if x = 0 then Fin 0
      else let y = of_int (rne (x / 2 powi f64_exp x)) * 2 powi f64_exp x
           in if \<bar>y\<bar> < f64_overflow then Fin y else if x > 0 then PInf else NInf)"

section \<open>Operations\<close>

fun f64_add :: "f64 \<Rightarrow> f64 \<Rightarrow> f64" where
  "f64_add (Fin a) (Fin b) = f64_round (a + b)"
| "f64_add NaN _ = NaN"
| "f64_add _ NaN = NaN"
| "f64_add PInf NInf = NaN"
| "f64_add NInf PInf = NaN"
| "f64_add PInf _ = PInf"
| "f64_add _ PInf = PInf"
| "f64_add NInf _ = NInf"
| "f64_add _ NInf = NInf"

fun f64_neg :: "f64 \<Rightarrow> f64" where
  "f64_neg (Fin a) = Fin (- a)"
| "f64_neg PInf = NInf"
| "f64_neg NInf = PInf"
| "f64_neg NaN = NaN"

definition f64_sub :: "f64 \<Rightarrow> f64 \<Rightarrow> f64" where
  "f64_sub a b = f64_add a (f64_neg b)"

fun f64_inf_mul :: "f64 \<Rightarrow> rat \<Rightarrow> f64" where
  "f64_inf_mul i b = (if b = 0 then NaN else if b > 0 then i else f64_neg i)"

fun f64_mul :: "f64 \<Rightarrow> f64 \<Rightarrow> f64" where
  "f64_mul (Fin a) (Fin b) = f64_round (a * b)"
| "f64_mul NaN _ = NaN"
| "f64_mul _ NaN = NaN"
| "f64_mul (Fin a) i = f64_inf_mul i a"
| "f64_mul i (Fin b) = f64_inf_mul i b"
| "f64_mul a b = (if a = b then PInf else NInf)"

fun f64_div :: "f64 \<Rightarrow> f64 \<Rightarrow> f64" where
  "f64_div (Fin a) (Fin b) =
     (if b \<noteq> 0 then f64_round (a / b) else if a = 0 then NaN else if a > 0 then PInf else NInf)"
| "f64_div NaN _ = NaN"
| "f64_div _ NaN = NaN"
| "f64_div (Fin a) _ = Fin 0"
| "f64_div i (Fin b) = (if b \<ge> 0 then i else f64_neg i)"
| "f64_div _ _ = NaN"

fun f64_lt :: "f64 \<Rightarrow> f64 \<Rightarrow> bool" where
  "f64_lt (Fin a) (Fin b) = (a < b)"
| "f64_lt NaN _ = False"
| "f64_lt _ NaN = False"
| "f64_lt _ NInf = False"
| "f64_lt PInf _ = False"
| "f64_lt _ _ = True"

fun f64_eq :: "f64 \<Rightarrow> f64 \<Rightarrow> bool" where
  "f64_eq NaN _ = False"
| "f64_eq _ NaN = False"
| "f64_eq a b = (a = b)"

definition f64_le :: "f64 \<Rightarrow> f64 \<Rightarrow> bool" where
  "f64_le a b \<longleftrightarrow> f64_lt a b \<or> f64_eq a b"

definition f64_of_int :: "int \<Rightarrow> f64" where
  "f64_of_int n = f64_round (of_int n)"

text \<open>A value is well formed when it is one a float64 can hold.\<close>

fun f64_ok :: "f64 \<Rightarrow> bool" where
  "f64_ok (Fin x) = (f64_round x = Fin x)"
| "f64_ok _ = True"

section \<open>The exponent of a rational\<close>

lemma bits_bounds: "0 < n \<Longrightarrow> 2 ^ (bits n - 1) \<le> n \<and> n < 2 ^ bits n"
proof (induction n rule: bits.induct)
  case (1 n)
  show ?case
  proof (cases "n div 2 = 0")
    case True
    with "1.prems" have "n = 1" by simp
    then show ?thesis by (simp add: bits.simps)
  next
    case False
    let ?k = "bits (n div 2)"
    have IH: "2 ^ (?k - 1) \<le> n div 2" "n div 2 < 2 ^ ?k"
      using "1.IH" "1.prems" False by simp_all
    have b: "bits n = Suc ?k" using "1.prems" by (subst bits.simps) simp
    have "0 < ?k" using False by (subst bits.simps) simp
    then have "2 ^ ?k = 2 * (2::nat) ^ (?k - 1)" by (simp add: power_eq_if)
    with IH b show ?thesis by simp linarith
  qed
qed

lemma powi_step: "(2::rat) powi (k + 1) = 2 * 2 powi k"
  by (simp add: power_int_add)

lemma powi_mono: "j \<le> k \<Longrightarrow> (2::rat) powi j \<le> 2 powi k"
  by (rule power_int_increasing) simp_all

lemma powi_less_iff: "(2::rat) powi j < 2 powi k \<longleftrightarrow> j < k"
  by (metis linorder_not_less nle_le powi_mono power_int_strict_increasing one_less_numeral_iff
      semiring_norm(76) order_less_imp_not_less order_le_less)

lemma bits_of_int:
  assumes "0 < n"
  shows "(2::rat) ^ (bits (nat n) - 1) \<le> of_int n" and "of_int n < (2::rat) ^ bits (nat n)"
proof -
  have b: "2 ^ (bits (nat n) - 1) \<le> nat n" "nat n < 2 ^ bits (nat n)"
    using bits_bounds [of "nat n"] assms by linarith+
  have "(2::rat) ^ (bits (nat n) - 1) = of_nat (2 ^ (bits (nat n) - 1))" by simp
  also have "\<dots> \<le> of_nat (nat n)" using b(1) by (simp only: of_nat_le_iff)
  finally show "(2::rat) ^ (bits (nat n) - 1) \<le> of_int n" using assms by simp
  have "of_nat (nat n) < (of_nat (2 ^ bits (nat n)) :: rat)"
    using b(2) by (simp only: of_nat_less_iff)
  then show "of_int n < (2::rat) ^ bits (nat n)" using assms by simp
qed

lemma ilog2_bounds:
  assumes "0 < x"
  shows "2 powi ilog2 x \<le> x \<and> x < 2 powi (ilog2 x + 1)"
proof -
  obtain n d where q: "quotient_of x = (n, d)" by fastforce
  have d: "0 < d" using q by (rule quotient_of_denom_pos)
  have x: "x = of_int n / of_int d" using q by (rule quotient_of_div)
  have n: "0 < n" using assms d by (simp add: x zero_less_divide_iff)
  let ?a = "bits (nat n)" and ?b = "bits (nat d)"
  let ?k = "int ?a - int ?b"
  have ab: "0 < ?a" "0 < ?b" using n d by (simp_all add: bits.simps)
  have "(2::rat) powi (?k - 1) = 2 ^ (?a - 1) / 2 ^ ?b"
    using ab by (simp add: power_int_diff power_int_add of_nat_diff power_diff)
  also have "\<dots> \<le> of_int n / of_int d"
    using bits_of_int [OF n] bits_of_int [OF d] d n
    by (intro frac_le) (simp_all add: order_less_imp_le)
  finally have lo: "2 powi (?k - 1) \<le> x" by (simp add: x)
  have "of_int n / of_int d < (2::rat) ^ ?a / 2 ^ (?b - 1)"
    using bits_of_int [OF n] bits_of_int [OF d] n by (intro frac_less) simp_all
  also have "\<dots> = 2 powi (?k + 1)"
    using ab by (simp add: power_int_diff power_int_add power_diff)
  finally have hi: "x < 2 powi (?k + 1)" by (simp add: x)
  show ?thesis using lo hi by (auto simp: ilog2_def q Let_def)
qed

section \<open>Rounding is exact on what a float64 can hold\<close>

lemma rne_of_int [simp]: "rne (of_int n) = n"
  by (simp add: rne_def)

lemma rne_le: "x \<le> of_int n \<Longrightarrow> rne x \<le> n"
proof -
  assume x: "x \<le> of_int n"
  then have f: "\<lfloor>x\<rfloor> \<le> n" by linarith
  show "rne x \<le> n"
  proof (cases "\<lfloor>x\<rfloor> = n")
    case True
    with x have "x = of_int n" by linarith
    then show ?thesis by simp
  next
    case False
    with f show ?thesis by (auto simp: rne_def Let_def)
  qed
qed

lemma rne_ge: "of_int n \<le> x \<Longrightarrow> n \<le> rne x"
  by (auto simp: rne_def Let_def le_floor_iff) linarith+

lemma rne_abs_le: "\<bar>x\<bar> \<le> of_int n \<Longrightarrow> \<bar>rne x\<bar> \<le> n"
  using rne_le [of x n] rne_ge [of "- n" x] by (simp add: abs_le_iff)

lemma f64_exp_grid:
  assumes "x \<noteq> 0"
  shows "\<bar>x\<bar> < 2 ^ 53 * 2 powi f64_exp x"
proof -
  have "\<bar>x\<bar> < 2 powi (ilog2 \<bar>x\<bar> + 1)" using assms ilog2_bounds [of "\<bar>x\<bar>"] by simp
  also have "\<dots> \<le> 2 powi (53 + f64_exp x)"
    by (rule powi_mono) (simp add: f64_exp_def)
  also have "\<dots> = 2 ^ 53 * 2 powi f64_exp x" by (simp add: power_int_add)
  finally show ?thesis .
qed

lemma f64_exp_scaled:
  assumes x: "x = of_int m * 2 powi e" and m: "\<bar>m\<bar> \<le> 2 ^ 53" and e: "- 1074 \<le> e" and "x \<noteq> 0"
  shows "\<exists>n. x / 2 powi f64_exp x = of_int n"
proof -
  define E where "E = f64_exp x"
  show ?thesis
  proof (cases "E \<le> e")
    case True
    have "(2::rat) powi (int (nat (e - E)) + E) = 2 ^ nat (e - E) * 2 powi E"
      by (subst power_int_add) (simp_all only: power_int_of_nat, simp)
    with True have "(2::rat) powi e = 2 ^ nat (e - E) * 2 powi E" by simp
    then have "x / 2 powi E = of_int (m * 2 ^ nat (e - E))" by (simp add: x)
    then show ?thesis unfolding E_def by blast
  next
    case False
    then have E: "E = ilog2 \<bar>x\<bar> - 52" using e by (simp add: E_def f64_exp_def)
    have lo: "2 powi (E + 52) \<le> \<bar>x\<bar>"
      using ilog2_bounds [of "\<bar>x\<bar>"] \<open>x \<noteq> 0\<close> by (simp add: E)
    have "of_int \<bar>m\<bar> \<le> (of_int (2 ^ 53) :: rat)" using m by (simp only: of_int_le_iff)
    then have "\<bar>x\<bar> \<le> 2 ^ 53 * 2 powi e"
      unfolding x abs_mult by (intro mult_mono) simp_all
    also have "\<dots> = 2 powi (53 + e)" by (simp add: power_int_add)
    finally have hi: "\<bar>x\<bar> \<le> 2 powi (53 + e)" .
    from lo hi have "\<not> 53 + e < E + 52"
      using powi_less_iff [of "53 + e" "E + 52"] by linarith
    with False have E1: "E = e + 1" by linarith
    with lo hi have "\<bar>x\<bar> = 2 powi (53 + e)" by (simp add: add.commute)
    also have "\<dots> = of_int (2 ^ 52) * 2 powi E" by (simp add: E1 power_int_add)
    finally have "x = of_int (2 ^ 52) * 2 powi E \<or> x = of_int (- (2 ^ 52)) * 2 powi E"
      by (cases "0 \<le> x") simp_all
    then have "x / 2 powi E = of_int (2 ^ 52) \<or> x / 2 powi E = of_int (- (2 ^ 52))"
      by auto
    then show ?thesis unfolding E_def by blast
  qed
qed

lemma f64_round_exact:
  assumes "x = of_int m * 2 powi e" and "\<bar>m\<bar> \<le> 2 ^ 53" and "- 1074 \<le> e" and "\<bar>x\<bar> < f64_overflow"
  shows "f64_round x = Fin x"
proof (cases "x = 0")
  case False
  obtain n where "x / 2 powi f64_exp x = of_int n"
    using f64_exp_scaled [OF assms(1-3) False] by blast
  moreover from this have "of_int n * 2 powi f64_exp x = x" by (metis nonzero_eq_divide_eq power_int_not_zero zero_neq_numeral)
  ultimately show ?thesis using assms(4) False by (simp add: f64_round_def Let_def)
qed (simp add: f64_round_def)

lemma f64_round_ok: "f64_ok (f64_round x)"
proof (cases "x = 0")
  case False
  let ?y = "x / 2 powi f64_exp x" and ?e = "f64_exp x"
  have "\<bar>?y\<bar> \<le> of_int (2 ^ 53)"
    using f64_exp_grid [OF False] by (simp add: abs_divide pos_divide_le_eq)
  then have "\<bar>rne ?y\<bar> \<le> 2 ^ 53" by (rule rne_abs_le)
  moreover have "- 1074 \<le> ?e" by (simp add: f64_exp_def)
  ultimately show ?thesis
    using False f64_round_exact [OF refl] by (simp add: f64_round_def Let_def)
qed (simp add: f64_round_def)

lemma f64_small: "\<bar>x\<bar> \<le> 2 ^ 53 \<Longrightarrow> \<bar>x\<bar> < f64_overflow"
proof -
  assume "\<bar>x\<bar> \<le> 2 ^ 53"
  also have "(2::rat) ^ 53 < 2 ^ 1024" by (rule power_strict_increasing) simp_all
  finally show ?thesis by (simp only: f64_overflow_def)
qed

lemma f64_of_int_exact:
  assumes "\<bar>n\<bar> \<le> 2 ^ 53"
  shows "f64_of_int n = Fin (of_int n)"
proof -
  have "of_int \<bar>n\<bar> \<le> (of_int (2 ^ 53) :: rat)" using assms by (simp only: of_int_le_iff)
  then have "\<bar>of_int n :: rat\<bar> < f64_overflow" by (intro f64_small) simp
  moreover have "of_int n = of_int n * (2::rat) powi 0" by simp
  ultimately show ?thesis
    unfolding f64_of_int_def using assms by (intro f64_round_exact [of _ n 0]) simp_all
qed

text \<open>Small integers are exact, which makes them fast to evaluate.\<close>

lemma f64_round_code [code]:
  "f64_round x =
     (if x = of_int \<lfloor>x\<rfloor> \<and> \<bar>\<lfloor>x\<rfloor>\<bar> \<le> 9007199254740992 then Fin x
      else if x = 0 then Fin 0
      else let y = of_int (rne (x / 2 powi f64_exp x)) * 2 powi f64_exp x
           in if \<bar>y\<bar> < f64_overflow then Fin y else if x > 0 then PInf else NInf)"
proof (cases "x = of_int \<lfloor>x\<rfloor> \<and> \<bar>\<lfloor>x\<rfloor>\<bar> \<le> 9007199254740992")
  case True
  then have "f64_of_int \<lfloor>x\<rfloor> = Fin (of_int \<lfloor>x\<rfloor>)" by (intro f64_of_int_exact) simp
  then show ?thesis using True by (simp add: f64_of_int_def)
qed (auto simp: f64_round_def)

lemma f64_round_nonneg: "0 \<le> x \<Longrightarrow> f64_round x = PInf \<or> (\<exists>y\<ge>0. f64_round x = Fin y)"
proof -
  assume x: "0 \<le> x"
  then have "0 \<le> rne (x / 2 powi f64_exp x)" by (intro rne_ge) simp
  with x show ?thesis by (auto simp: f64_round_def Let_def)
qed

lemma f64_round_0 [simp]: "f64_round 0 = Fin 0"
  by (simp add: f64_round_def)

section \<open>Laws of the operations\<close>

fun f64_nonneg :: "f64 \<Rightarrow> bool" where
  "f64_nonneg (Fin x) = (0 \<le> x)"
| "f64_nonneg PInf = True"
| "f64_nonneg _ = False"

lemma f64_add_commute: "f64_add a b = f64_add b a"
  by (cases a; cases b) (simp_all add: add.commute)

lemma f64_add_0 [simp]: "f64_ok a \<Longrightarrow> f64_add (Fin 0) a = a" "f64_ok a \<Longrightarrow> f64_add a (Fin 0) = a"
  by (cases a; simp)+

lemma f64_add_NaN [simp]: "f64_add NaN a = NaN" "f64_add a NaN = NaN"
  by (cases a; simp)+

lemma f64_mul_NaN [simp]: "f64_mul NaN a = NaN" "f64_mul a NaN = NaN"
  by (cases a; simp)+

lemma f64_lt_NaN [simp]: "\<not> f64_lt NaN a" "\<not> f64_lt a NaN"
  by (cases a; simp)+

lemma f64_round_nonneg' [simp]: "0 \<le> x \<Longrightarrow> f64_nonneg (f64_round x)"
  using f64_round_nonneg by fastforce

lemma f64_nonneg_add: "f64_nonneg a \<Longrightarrow> f64_nonneg b \<Longrightarrow> f64_nonneg (f64_add a b)"
  by (cases a; cases b) simp_all

lemma f64_nonneg_mul: "f64_nonneg a \<Longrightarrow> f64_nonneg b \<Longrightarrow> f64_nonneg (f64_mul a b) \<or> f64_mul a b = NaN"
  by (cases a; cases b) auto

lemma f64_add_ok: "f64_ok a \<Longrightarrow> f64_ok b \<Longrightarrow> f64_ok (f64_add a b)"
  by (cases a; cases b) (simp_all only: f64_add.simps f64_ok.simps f64_round_ok)

lemma f64_lt_0_nonneg: "f64_nonneg a \<Longrightarrow> \<not> f64_lt a (Fin 0)"
  by (cases a) simp_all

lemma f64_nonneg_iff: "f64_nonneg a \<longleftrightarrow> \<not> f64_lt a (Fin 0) \<and> a \<noteq> NaN"
  by (cases a) auto

end
