(* ===== verification/Go_Errors.thy ===== *)
theory Go_Errors
  imports Go_Prelude
begin

text \<open>
  Go error values. A package-level sentinel or an \<open>errors.New\<close> value is its text; a
  \<open>fmt.Errorf\<close> value is its text (with the string arguments filled in and the numeric
  verbs left as written) and the errors its \<open>%w\<close> verbs wrap; \<open>errors.Join\<close> keeps the
  non-nil errors. \<open>execution.InvocationError\<close> (runner.go) is the one error struct the
  sources inspect with \<open>errors.As\<close>. A function that returns only an error returns a
  \<^typ>\<open>'a option\<close>, with \<^term>\<open>None\<close> for nil; one that returns a value and an error
  returns a sum with the error on the left.
\<close>

datatype ErrorClass =
    ErrorTransient | ErrorTargetUnavailable | ErrorTimeout | ErrorPolicyDenied
  | ErrorBudgetExceeded | ErrorInvalidOutput | ErrorVerificationFailed | ErrorPermanent
  | ErrorUnknown | ErrorClassOther string

datatype goerr =
    ErrNew string
  | Errorf string "goerr list"
  | ErrJoin "goerr list"
  | InvocationError ErrorClass "goerr option"
  | CtxDeadlineExceeded
  | CtxCanceled

fun unwraps :: "goerr \<Rightarrow> goerr list" where
  "unwraps (Errorf _ es) = es"
| "unwraps (ErrJoin es) = es"
| "unwraps (InvocationError _ (Some e)) = [e]"
| "unwraps _ = []"

fun errors_Is :: "goerr \<Rightarrow> goerr \<Rightarrow> bool" where
  "errors_Is (Errorf s es) t = (Errorf s es = t \<or> list_ex (\<lambda>e. errors_Is e t) es)"
| "errors_Is (ErrJoin es) t = (ErrJoin es = t \<or> list_ex (\<lambda>e. errors_Is e t) es)"
| "errors_Is (InvocationError c (Some e)) t = (InvocationError c (Some e) = t \<or> errors_Is e t)"
| "errors_Is e t = (e = t)"

text \<open>\<open>errors.As\<close> for a target of type \<open>*InvocationError\<close>: the first one in pre-order.\<close>

fun as_InvocationError :: "goerr \<Rightarrow> ErrorClass option" and
    as_InvocationErrors :: "goerr list \<Rightarrow> ErrorClass option" where
  "as_InvocationError (InvocationError c _) = Some c"
| "as_InvocationError (Errorf _ es) = as_InvocationErrors es"
| "as_InvocationError (ErrJoin es) = as_InvocationErrors es"
| "as_InvocationError _ = None"
| "as_InvocationErrors [] = None"
| "as_InvocationErrors (e # es) =
     (case as_InvocationError e of Some c \<Rightarrow> Some c | None \<Rightarrow> as_InvocationErrors es)"

definition errors_Join :: "goerr option list \<Rightarrow> goerr option" where
  "errors_Join es =
     (let ns = List.map_filter id es in if ns = [] then None else Some (ErrJoin ns))"

text \<open>The text of an error, \<open>err.Error()\<close>: each \<open>%w\<close> is replaced by the text of the
  error it wraps. The other verbs stay as written.\<close>

fun ErrorClass_str :: "ErrorClass \<Rightarrow> string" where
  "ErrorClass_str ErrorTransient = ''TRANSIENT''"
| "ErrorClass_str ErrorTargetUnavailable = ''TARGET_UNAVAILABLE''"
| "ErrorClass_str ErrorTimeout = ''TIMEOUT''"
| "ErrorClass_str ErrorPolicyDenied = ''POLICY_DENIED''"
| "ErrorClass_str ErrorBudgetExceeded = ''BUDGET_EXCEEDED''"
| "ErrorClass_str ErrorInvalidOutput = ''INVALID_OUTPUT''"
| "ErrorClass_str ErrorVerificationFailed = ''VERIFICATION_FAILED''"
| "ErrorClass_str ErrorPermanent = ''PERMANENT''"
| "ErrorClass_str ErrorUnknown = ''UNKNOWN''"
| "ErrorClass_str (ErrorClassOther s) = s"

fun fill_w :: "string \<Rightarrow> string list \<Rightarrow> string" where
  "fill_w [] ts = []"
| "fill_w (c # s) ts =
     (if ts \<noteq> [] \<and> c = CHR ''%'' \<and> s \<noteq> [] \<and> hd s = CHR ''w''
      then hd ts @ fill_w (tl s) (tl ts)
      else c # fill_w s ts)"

definition join_lines :: "string list \<Rightarrow> string" where
  "join_lines ts = concat (case ts of [] \<Rightarrow> [] | t # us \<Rightarrow> t # map (\<lambda>u. CHR 0x0A # u) us)"

fun err_text :: "goerr \<Rightarrow> string" where
  "err_text (ErrNew s) = s"
| "err_text (Errorf s es) = fill_w s (map err_text es)"
| "err_text (ErrJoin es) = join_lines (map err_text es)"
| "err_text (InvocationError c None) = ErrorClass_str c"
| "err_text (InvocationError c (Some e)) = ErrorClass_str c @ '': '' @ err_text e"
| "err_text CtxDeadlineExceeded = ''context deadline exceeded''"
| "err_text CtxCanceled = ''context canceled''"

lemma errors_Is_refl [simp]: "errors_Is e e"
  by (cases "(e, e)" rule: errors_Is.cases) auto

lemma errors_Join_None_iff: "errors_Join es = None \<longleftrightarrow> (\<forall>e\<in>set es. e = None)"
  by (induction es) (auto simp: errors_Join_def Let_def List.map_filter_simps split: option.splits if_splits)

lemma errors_Join_Some_first [simp]:
  "errors_Join (Some e # es) = Some (ErrJoin (e # List.map_filter id es))"
  by (simp add: errors_Join_def List.map_filter_simps)

lemma errors_Is_Join:
  "errors_Join es = Some j \<Longrightarrow> e \<in> set es \<Longrightarrow> e = Some e' \<Longrightarrow> errors_Is e' t \<Longrightarrow> errors_Is j t"
  by (force simp: errors_Join_def Let_def list_ex_iff List.map_filter_def split: if_splits)

end
