(* ===== verification/Exec_Types.thy ===== *)
theory Exec_Types
  imports Go_Float Go_Errors
begin

text \<open>
  The data of package execution (src/execution/types.go, lease.go and
  attempt\_persistence.go). Identifiers stay strings. A Go string enumeration is a
  datatype with the source's constants as constructors and one constructor for every
  other string (the zero value "" among them), so that the default branches of the
  code's switches are branches of the model. Pointers to times are options.
\<close>

type_synonym GoalID = string
type_synonym ExecutionID = string
type_synonym PlanID = string
type_synonym NodeID = string
type_synonym TargetID = string
type_synonym AttemptID = string
type_synonym PolicyDecisionID = string
type_synonym ArtifactID = string

section \<open>Enumerations\<close>

datatype ExecutionPhase =
    ExecutionCreated | ExecutionPlanning | ExecutionReady | ExecutionRunning
  | ExecutionVerifying | ExecutionReplanning | ExecutionSucceeded | ExecutionFailed
  | ExecutionCancelled | ExecutionPhaseOther string

datatype ConditionType =
    ConditionApprovalRequired | ConditionPartiallyBlocked | ConditionRetrying
  | ConditionBudgetPressure | ConditionTargetDegraded | ConditionWaitingExternalInput
  | ConditionCancellationRequested | ConditionTypeOther string

datatype NodeType =
    NodeModel | NodeTool | NodeCode | NodeAgent | NodeBrowser | NodeRetrieval
  | NodeData | NodeWorkflow | NodeHuman | NodeVerifier | NodeTypeOther string

datatype NodeState =
    NodePending | NodeReady | NodeRunning | NodeWaitingApproval | NodeSucceeded
  | NodeFailed | NodeSkipped | NodeBlocked | NodeCancelled | NodeStateOther string

datatype EffectClass =
    EffectPure | EffectReadOnly | EffectIdempotentMutation | EffectNonIdempotentMutation
  | EffectClassOther string

datatype TargetType =
    TargetModel | TargetTool | TargetCode | TargetAgent | TargetBrowser
  | TargetRetrieval | TargetData | TargetWorkflow | TargetHuman | TargetTypeOther string

datatype AttemptStatus =
    AttemptPending | AttemptRunning | AttemptSucceeded | AttemptFailed
  | AttemptCancelled | AttemptAbandoned | AttemptStatusOther string

datatype PolicyDecision =
    PolicyAllow | PolicyDeny | PolicyRequireApproval | PolicyDecisionOther string

section \<open>Executions\<close>

record AccountingCounters =
  ac_Cost :: f64
  ac_NodeAttempts :: int
  ac_FrontierCalls :: int
  ac_ToolCalls :: int

record BudgetLimit =
  bl_MaxCost :: f64
  bl_MaxDuration :: duration
  bl_MaxNodeAttempts :: int
  bl_MaxFrontierCalls :: int
  bl_MaxToolCalls :: int

record BudgetState =
  bs_Limit :: BudgetLimit
  bs_Reserved :: AccountingCounters
  bs_Consumed :: AccountingCounters

record Accounting =
  acc_ConsumedCost :: f64
  acc_ReservedCost :: f64
  acc_Elapsed :: duration

record Identity =
  id_Principal :: string
  id_Tenant :: string

record PolicyContext =
  pc_Environment :: string
  pc_DataSensitivity :: string

record ExecutionCondition =
  cond_Type :: ConditionType
  cond_Status :: bool
  cond_NodeRef :: NodeID
  cond_Reason :: string
  cond_UpdatedAt :: gotime

record ExecutionStatus =
  es_Phase :: ExecutionPhase
  es_Conditions :: "ExecutionCondition list"

record PlanRevisionRef =
  pr_PlanID :: PlanID
  pr_Revision :: int

record Execution =
  ex_ID :: ExecutionID
  ex_TaskRef :: string
  ex_GoalRef :: GoalID
  ex_PlanRef :: PlanRevisionRef
  ex_Identity :: Identity
  ex_PolicyContext :: PolicyContext
  ex_Budget :: BudgetState
  ex_Status :: ExecutionStatus
  ex_Accounting :: Accounting
  ex_CreatedAt :: gotime
  ex_UpdatedAt :: gotime

section \<open>Plans and nodes\<close>

record CapabilityRequirement =
  cr_Modality :: "string list"
  cr_Reasoning :: string
  cr_Coding :: string
  cr_Context :: string
  cr_ToolCalling :: string
  cr_PrivateData :: bool
  cr_LatencyClass :: string
  cr_ReliabilityClass :: string

record RetryPolicy =
  rp_MaxAttempts :: int
  rp_RetryOn :: "ErrorClass list"

record EffectSpec =
  ef_Class :: EffectClass
  ef_IdempotencyKey :: string
  ef_RetrySafe :: bool

record ExecutionNode =
  nd_ID :: NodeID
  nd_Type :: NodeType
  nd_DependsOn :: "NodeID list"
  nd_CapabilityRequirement :: CapabilityRequirement
  nd_Timeout :: duration
  nd_RetryPolicy :: RetryPolicy
  nd_Effect :: EffectSpec
  nd_VerificationRequired :: bool

record ExecutionPlan =
  pl_ID :: PlanID
  pl_GoalRef :: GoalID
  pl_Revision :: int
  pl_ParentRevision :: int
  pl_Nodes :: "ExecutionNode list"
  pl_CreatedAt :: gotime

section \<open>Targets, usage, attempts and policy decisions\<close>

record TargetPolicy =
  tp_DataLocality :: string
  tp_AllowedSensitivity :: "string list"

record TargetHealth =
  th_State :: string
  th_ObservedAt :: gotime

record TargetSnapshot =
  ts_Digest :: string
  ts_EndpointClass :: string
  ts_ModelVersion :: string
  ts_RuntimeVersion :: string
  ts_DeploymentRef :: string
  ts_CapabilityHash :: string

record ExecutionTarget =
  tg_ID :: TargetID
  tg_Revision :: int
  tg_Type :: TargetType
  tg_Capabilities :: "(string, string) gomap"
  tg_Policy :: TargetPolicy
  tg_Health :: TargetHealth
  tg_Snapshot :: TargetSnapshot

record Usage =
  us_InputTokens :: int
  us_OutputTokens :: int
  us_Cost :: f64
  us_Duration :: duration

record ExecutionAttempt =
  at_ID :: AttemptID
  at_ExecutionRef :: ExecutionID
  at_NodeRef :: NodeID
  at_TargetRef :: TargetID
  at_TargetRevision :: int
  at_TargetSnapshot :: string
  at_AttemptNumber :: int
  at_Status :: AttemptStatus
  at_ErrorClass :: ErrorClass
  at_Usage :: Usage
  at_IdempotencyKey :: string
  at_EffectStartedAt :: "gotime option"
  at_EffectCommittedAt :: "gotime option"
  at_StartedAt :: gotime
  at_FinishedAt :: "gotime option"

record PolicyDecisionRecord =
  pd_ID :: PolicyDecisionID
  pd_PolicySetRef :: string
  pd_PolicyVersion :: string
  pd_ExecutionRef :: ExecutionID
  pd_PlanRevision :: int
  pd_NodeRef :: NodeID
  pd_Principal :: string
  pd_Action :: string
  pd_Resource :: string
  pd_RequestedScope :: string
  pd_Decision :: PolicyDecision
  pd_ReasonCodes :: "string list"
  pd_ExpiresAt :: "gotime option"

section \<open>Leases and durable attempts\<close>

record NodeLease =
  nl_ExecutionRef :: ExecutionID
  nl_PlanRevision :: int
  nl_NodeRef :: NodeID
  nl_AttemptRef :: AttemptID
  nl_OwnerWorkerID :: string
  nl_Token :: string
  nl_Fence :: int
  nl_AttemptNumber :: int
  nl_ClaimedAt :: gotime
  nl_HeartbeatAt :: gotime
  nl_ExpiresAt :: gotime

record NodeRuntimeRecord =
  nr_ExecutionRef :: ExecutionID
  nr_PlanRevision :: int
  nr_NodeRef :: NodeID
  nr_State :: NodeState
  nr_EffectClass :: EffectClass
  nr_RetrySafe :: bool
  nr_IdempotencyKey :: string
  nr_AttemptNumber :: int
  nr_LeaseFence :: int
  nr_EffectStartedAt :: "gotime option"
  nr_EffectCommittedAt :: "gotime option"
  nr_UpdatedAt :: gotime

record AttemptBinding =
  ab_TargetRef :: TargetID
  ab_TargetRevision :: int
  ab_TargetSnapshot :: string
  ab_PolicyDecisionRef :: PolicyDecisionID
  ab_BudgetReservationRef :: string

record AttemptCompletion =
  cp_Status :: AttemptStatus
  cp_ErrorClass :: ErrorClass
  cp_Usage :: Usage

record AttemptRecord =
  ar_Attempt :: ExecutionAttempt
  ar_PlanRevision :: int
  ar_LeaseFence :: int
  ar_LeaseOwner :: string
  ar_PolicyDecisionRef :: PolicyDecisionID
  ar_BudgetReservationRef :: string
  ar_ClaimedAt :: gotime
  ar_CreatedAt :: gotime
  ar_UpdatedAt :: gotime

definition lease_ActiveAt :: "NodeLease \<Rightarrow> gotime \<Rightarrow> bool" where
  "lease_ActiveAt l now \<longleftrightarrow>
     nl_Token l \<noteq> [] \<and> nl_Fence l > 0 \<and> \<not> time_Before now (nl_ClaimedAt l) \<and>
     time_Before now (nl_ExpiresAt l)"

fun record_Terminal :: "NodeState \<Rightarrow> bool" where
  "record_Terminal NodeSucceeded = True"
| "record_Terminal NodeFailed = True"
| "record_Terminal NodeSkipped = True"
| "record_Terminal NodeCancelled = True"
| "record_Terminal _ = False"

definition NodeRuntimeRecord_Terminal :: "NodeRuntimeRecord \<Rightarrow> bool" where
  "NodeRuntimeRecord_Terminal r = record_Terminal (nr_State r)"

fun status_Terminal :: "AttemptStatus \<Rightarrow> bool" where
  "status_Terminal AttemptSucceeded = True"
| "status_Terminal AttemptFailed = True"
| "status_Terminal AttemptCancelled = True"
| "status_Terminal AttemptAbandoned = True"
| "status_Terminal _ = False"

definition AttemptCompletion_Terminal :: "AttemptCompletion \<Rightarrow> bool" where
  "AttemptCompletion_Terminal c = status_Terminal (cp_Status c)"

section \<open>Zero values\<close>

definition Usage_zero :: Usage where
  "Usage_zero = \<lparr>us_InputTokens = 0, us_OutputTokens = 0, us_Cost = Fin 0, us_Duration = 0\<rparr>"

definition Counters_zero :: AccountingCounters where
  "Counters_zero =
     \<lparr>ac_Cost = Fin 0, ac_NodeAttempts = 0, ac_FrontierCalls = 0, ac_ToolCalls = 0\<rparr>"

end
