(* ===== verification/Exec_State.thy ===== *)
theory Exec_State
  imports Exec_Types "HOL-Library.Sublist"
begin

text \<open>
  The state machines of src/execution/state.go: the transition tables of execution phases
  and node states, the checks over them and the terminal states. The locale \<open>lifecycle\<close>
  is the contract every lifecycle table of the program is meant to keep (a terminal state
  has no way out); it is interpreted here for phases and node states, and in the theory
  of tasks and deployments for theirs.
\<close>

section \<open>The tables\<close>

definition executionTransitions :: "(ExecutionPhase, ExecutionPhase list) gomap" where
  "executionTransitions =
     [(ExecutionCreated, [ExecutionPlanning, ExecutionCancelled]),
      (ExecutionPlanning, [ExecutionReady, ExecutionFailed, ExecutionCancelled]),
      (ExecutionReady, [ExecutionRunning, ExecutionFailed, ExecutionCancelled]),
      (ExecutionRunning,
         [ExecutionVerifying, ExecutionReplanning, ExecutionFailed, ExecutionCancelled]),
      (ExecutionVerifying,
         [ExecutionSucceeded, ExecutionReplanning, ExecutionFailed, ExecutionCancelled]),
      (ExecutionReplanning, [ExecutionReady, ExecutionFailed, ExecutionCancelled])]"

definition CanTransitionExecution :: "ExecutionPhase \<Rightarrow> ExecutionPhase \<Rightarrow> bool" where
  "CanTransitionExecution from to =
     (if from = to then True
      else case gomap_get executionTransitions from of
             None \<Rightarrow> False
           | Some next \<Rightarrow> to \<in> set next)"

definition ValidateExecutionTransition :: "ExecutionPhase \<Rightarrow> ExecutionPhase \<Rightarrow> goerr option" where
  "ValidateExecutionTransition from to =
     (if CanTransitionExecution from to then None
      else Some (Errorf ''invalid execution transition: %s -> %s'' []))"

fun IsTerminalExecutionPhase :: "ExecutionPhase \<Rightarrow> bool" where
  "IsTerminalExecutionPhase ExecutionSucceeded = True"
| "IsTerminalExecutionPhase ExecutionFailed = True"
| "IsTerminalExecutionPhase ExecutionCancelled = True"
| "IsTerminalExecutionPhase _ = False"

definition nodeTransitions :: "(NodeState, NodeState list) gomap" where
  "nodeTransitions =
     [(NodePending, [NodeReady, NodeSkipped, NodeBlocked, NodeCancelled]),
      (NodeReady, [NodeRunning, NodeWaitingApproval, NodeBlocked, NodeCancelled]),
      (NodeWaitingApproval, [NodeReady, NodeBlocked, NodeCancelled]),
      (NodeRunning, [NodeSucceeded, NodeFailed, NodeCancelled]),
      (NodeFailed, [NodeReady, NodeBlocked, NodeCancelled]),
      (NodeBlocked, [NodeReady, NodeCancelled])]"

definition CanTransitionNode :: "NodeState \<Rightarrow> NodeState \<Rightarrow> bool" where
  "CanTransitionNode from to =
     (if from = to then True
      else case gomap_get nodeTransitions from of
             None \<Rightarrow> False
           | Some next \<Rightarrow> to \<in> set next)"

definition ValidateNodeTransition :: "NodeState \<Rightarrow> NodeState \<Rightarrow> goerr option" where
  "ValidateNodeTransition from to =
     (if CanTransitionNode from to then None
      else Some (Errorf ''invalid node transition: %s -> %s'' []))"

fun IsTerminalNodeState :: "NodeState \<Rightarrow> bool" where
  "IsTerminalNodeState NodeSucceeded = True"
| "IsTerminalNodeState NodeSkipped = True"
| "IsTerminalNodeState NodeCancelled = True"
| "IsTerminalNodeState _ = False"

lemmas transition_tables = CanTransitionExecution_def executionTransitions_def
  CanTransitionNode_def nodeTransitions_def gomap_get_def

section \<open>What a lifecycle table promises\<close>

locale lifecycle =
  fixes can :: "'s \<Rightarrow> 's \<Rightarrow> bool"
    and terminal :: "'s \<Rightarrow> bool"
  assumes terminal_stuck: "terminal s \<Longrightarrow> can s t \<Longrightarrow> t = s"
begin

lemma terminal_forever: "can\<^sup>*\<^sup>* s t \<Longrightarrow> terminal s \<Longrightarrow> t = s"
  by (induction rule: rtranclp_induct) (auto dest: terminal_stuck)

lemma terminal_run:
  "successively can (s # ss) \<Longrightarrow> terminal s \<Longrightarrow> t \<in> set ss \<Longrightarrow> t = s"
proof (induction ss arbitrary: s)
  case (Cons u ss)
  then have "u = s" by (auto dest: terminal_stuck)
  with Cons show ?case by auto
qed simp

end

interpretation phase_lc: lifecycle CanTransitionExecution IsTerminalExecutionPhase
proof
  fix s t assume "IsTerminalExecutionPhase s" "CanTransitionExecution s t"
  then show "t = s"
    by (cases s) (auto simp: transition_tables split: if_splits)
qed

interpretation node_lc: lifecycle CanTransitionNode IsTerminalNodeState
proof
  fix s t assume "IsTerminalNodeState s" "CanTransitionNode s t"
  then show "t = s"
    by (cases s) (auto simp: transition_tables split: if_splits)
qed

section \<open>Runs of an execution\<close>

text \<open>The phases a run still has to visit, after the given one, before it succeeds.\<close>

fun phases_to_success :: "ExecutionPhase \<Rightarrow> ExecutionPhase list" where
  "phases_to_success ExecutionCreated =
     [ExecutionPlanning, ExecutionReady, ExecutionRunning, ExecutionVerifying, ExecutionSucceeded]"
| "phases_to_success ExecutionPlanning =
     [ExecutionReady, ExecutionRunning, ExecutionVerifying, ExecutionSucceeded]"
| "phases_to_success ExecutionReplanning =
     [ExecutionReady, ExecutionRunning, ExecutionVerifying, ExecutionSucceeded]"
| "phases_to_success ExecutionReady = [ExecutionRunning, ExecutionVerifying, ExecutionSucceeded]"
| "phases_to_success ExecutionRunning = [ExecutionVerifying, ExecutionSucceeded]"
| "phases_to_success ExecutionVerifying = [ExecutionSucceeded]"
| "phases_to_success _ = []"

lemma phases_to_success_step:
  assumes "CanTransitionExecution s t" and "s \<noteq> t" and "t \<notin> {ExecutionFailed, ExecutionCancelled}"
  shows "subseq (phases_to_success s) (t # phases_to_success t)"
  using assms by (cases s; cases t) (auto simp: transition_tables)

lemma succeeding_run_visits:
  "successively CanTransitionExecution (s # ps) \<Longrightarrow> ExecutionSucceeded \<in> set (s # ps) \<Longrightarrow>
   subseq (phases_to_success s) ps"
proof (induction ps arbitrary: s)
  case Nil
  then show ?case by simp
next
  case (Cons t ps)
  have run: "successively CanTransitionExecution (t # ps)" and st: "CanTransitionExecution s t"
    using Cons.prems(1) by auto
  have succ: "ExecutionSucceeded \<in> set (t # ps)"
    using Cons.prems(2) st phase_lc.terminal_stuck [of s t] by auto
  have IH: "subseq (phases_to_success t) ps" using Cons.IH run succ by blast
  show ?case
  proof (cases "s = t")
    case True
    with IH show ?thesis by (auto intro: list_emb_Cons)
  next
    case False
    have "t \<notin> {ExecutionFailed, ExecutionCancelled}"
      using phase_lc.terminal_run [OF run, of ExecutionSucceeded] succ by auto
    then have "subseq (phases_to_success s) (t # phases_to_success t)"
      using phases_to_success_step st False by blast
    also have "subseq (t # phases_to_success t) (t # ps)" using IH by simp
    finally show ?thesis .
  qed
qed

text \<open>C16: an execution that starts in CREATED and reaches SUCCEEDED has passed, in this
  order, through PLANNING, READY, RUNNING and VERIFYING: no sequence of transitions that
  \<open>CanTransitionExecution\<close> allows reaches success without verification.\<close>

theorem execution_success_is_verified:
  assumes "successively CanTransitionExecution (ExecutionCreated # ps)"
    and "ExecutionSucceeded \<in> set ps"
  shows "subseq [ExecutionPlanning, ExecutionReady, ExecutionRunning, ExecutionVerifying,
           ExecutionSucceeded] ps"
  using succeeding_run_visits [OF assms(1)] assms(2) by simp

theorem execution_success_is_verified_witness:
  "subseq [ExecutionPlanning, ExecutionReady, ExecutionRunning, ExecutionVerifying,
           ExecutionSucceeded]
     [ExecutionPlanning, ExecutionReady, ExecutionRunning, ExecutionReplanning, ExecutionReady,
      ExecutionRunning, ExecutionVerifying, ExecutionSucceeded]"
  by (rule execution_success_is_verified) (simp_all add: transition_tables)

end
