(* ===== verification/Exec_Budget.thy ===== *)
theory Exec_Budget
  imports Exec_Types
begin

text \<open>
  The budget ledger (src/execution/budget.go): reservations against the limits of an
  execution, settlement with the actual usage, release, and the coordinator that adapts
  the ledger for workers. Every operation of the source holds the ledger's mutex from its
  first line to its last, so concurrent use is an interleaving of these operations.
\<close>

section \<open>Operations\<close>

record BudgetEstimate =
  be_Cost :: f64
  be_NodeAttempts :: int
  be_FrontierCalls :: int
  be_ToolCalls :: int

record BudgetReservation =
  br_ID :: string
  br_ExecutionRef :: ExecutionID
  br_NodeRef :: NodeID
  br_Estimate :: BudgetEstimate
  br_Closed :: bool

record BudgetLedger =
  lg_state :: BudgetState
  lg_reservations :: "(string, BudgetReservation) gomap"

definition ErrBudgetExceeded :: goerr where
  "ErrBudgetExceeded = ErrNew ''budget exceeded''"

definition ErrReservationMissing :: goerr where
  "ErrReservationMissing = ErrNew ''budget reservation not found''"

definition ErrReservationClosed :: goerr where
  "ErrReservationClosed = ErrNew ''budget reservation already settled or released''"

definition NewBudgetLedger :: "BudgetState \<Rightarrow> BudgetLedger" where
  "NewBudgetLedger s = \<lparr>lg_state = s, lg_reservations = []\<rparr>"

definition Snapshot :: "BudgetLedger \<Rightarrow> BudgetState" where
  "Snapshot l = lg_state l"

definition validateCountersAgainstLimit :: "AccountingCounters \<Rightarrow> BudgetLimit \<Rightarrow> goerr option" where
  "validateCountersAgainstLimit c limit =
     (if f64_lt (Fin 0) (bl_MaxCost limit) \<and> f64_lt (bl_MaxCost limit) (ac_Cost c)
        then Some (Errorf ''%w: cost %.4f > %.4f'' [ErrBudgetExceeded])
      else if bl_MaxNodeAttempts limit > 0 \<and> ac_NodeAttempts c > bl_MaxNodeAttempts limit
        then Some (Errorf ''%w: node attempts %d > %d'' [ErrBudgetExceeded])
      else if bl_MaxFrontierCalls limit > 0 \<and> ac_FrontierCalls c > bl_MaxFrontierCalls limit
        then Some (Errorf ''%w: frontier calls %d > %d'' [ErrBudgetExceeded])
      else if bl_MaxToolCalls limit > 0 \<and> ac_ToolCalls c > bl_MaxToolCalls limit
        then Some (Errorf ''%w: tool calls %d > %d'' [ErrBudgetExceeded])
      else None)"

definition applyEstimate :: "AccountingCounters \<Rightarrow> BudgetEstimate \<Rightarrow> int \<Rightarrow> AccountingCounters" where
  "applyEstimate dst v sign =
     \<lparr>ac_Cost = f64_add (ac_Cost dst) (f64_mul (f64_of_int sign) (be_Cost v)),
      ac_NodeAttempts = wrap64 (ac_NodeAttempts dst + wrap64 (sign * be_NodeAttempts v)),
      ac_FrontierCalls = wrap64 (ac_FrontierCalls dst + wrap64 (sign * be_FrontierCalls v)),
      ac_ToolCalls = wrap64 (ac_ToolCalls dst + wrap64 (sign * be_ToolCalls v))\<rparr>"

definition negative_estimate :: "BudgetEstimate \<Rightarrow> bool" where
  "negative_estimate e \<longleftrightarrow>
     f64_lt (be_Cost e) (Fin 0) \<or> be_NodeAttempts e < 0 \<or> be_FrontierCalls e < 0 \<or> be_ToolCalls e < 0"

definition combined :: "BudgetState \<Rightarrow> AccountingCounters" where
  "combined s =
     \<lparr>ac_Cost = f64_add (ac_Cost (bs_Reserved s)) (ac_Cost (bs_Consumed s)),
      ac_NodeAttempts = wrap64 (ac_NodeAttempts (bs_Reserved s) + ac_NodeAttempts (bs_Consumed s)),
      ac_FrontierCalls = wrap64 (ac_FrontierCalls (bs_Reserved s) + ac_FrontierCalls (bs_Consumed s)),
      ac_ToolCalls = wrap64 (ac_ToolCalls (bs_Reserved s) + ac_ToolCalls (bs_Consumed s))\<rparr>"

definition next_counters :: "BudgetState \<Rightarrow> BudgetEstimate \<Rightarrow> AccountingCounters" where
  "next_counters s e =
     \<lparr>ac_Cost = f64_add (ac_Cost (combined s)) (be_Cost e),
      ac_NodeAttempts = wrap64 (ac_NodeAttempts (combined s) + be_NodeAttempts e),
      ac_FrontierCalls = wrap64 (ac_FrontierCalls (combined s) + be_FrontierCalls e),
      ac_ToolCalls = wrap64 (ac_ToolCalls (combined s) + be_ToolCalls e)\<rparr>"

definition Reserve ::
  "string \<Rightarrow> ExecutionID \<Rightarrow> NodeID \<Rightarrow> BudgetEstimate \<Rightarrow> BudgetLedger
     \<Rightarrow> (goerr + BudgetReservation) \<times> BudgetLedger" where
  "Reserve i ex nd est l =
     (if i = [] then (Inl (ErrNew ''reservation id is required''), l)
      else if gomap_get (lg_reservations l) i \<noteq> None
        then (Inl (Errorf (''reservation '' @ quoted i @ '' already exists'') []), l)
      else if negative_estimate est
        then (Inl (ErrNew ''budget estimate cannot contain negative values''), l)
      else case validateCountersAgainstLimit (next_counters (lg_state l) est) (bs_Limit (lg_state l)) of
             Some e \<Rightarrow> (Inl e, l)
           | None \<Rightarrow>
               let r = \<lparr>br_ID = i, br_ExecutionRef = ex, br_NodeRef = nd, br_Estimate = est,
                        br_Closed = False\<rparr>
               in (Inr r,
                   l\<lparr>lg_reservations := gomap_put i r (lg_reservations l),
                     lg_state := (lg_state l)\<lparr>bs_Reserved :=
                       applyEstimate (bs_Reserved (lg_state l)) est 1\<rparr>\<rparr>))"

definition Settle :: "string \<Rightarrow> BudgetEstimate \<Rightarrow> BudgetLedger \<Rightarrow> goerr option \<times> BudgetLedger" where
  "Settle i actual l =
     (case gomap_get (lg_reservations l) i of
        None \<Rightarrow> (Some ErrReservationMissing, l)
      | Some r \<Rightarrow>
          if br_Closed r then (Some ErrReservationClosed, l)
          else if negative_estimate actual
            then (Some (ErrNew ''actual usage cannot contain negative values''), l)
          else (None,
            l\<lparr>lg_state := (lg_state l)
                \<lparr>bs_Reserved := applyEstimate (bs_Reserved (lg_state l)) (br_Estimate r) (- 1),
                 bs_Consumed := applyEstimate (bs_Consumed (lg_state l)) actual 1\<rparr>,
              lg_reservations := gomap_put i (r\<lparr>br_Closed := True\<rparr>) (lg_reservations l)\<rparr>))"

definition Release :: "string \<Rightarrow> BudgetLedger \<Rightarrow> goerr option \<times> BudgetLedger" where
  "Release i l =
     (case gomap_get (lg_reservations l) i of
        None \<Rightarrow> (Some ErrReservationMissing, l)
      | Some r \<Rightarrow>
          if br_Closed r then (Some ErrReservationClosed, l)
          else (None,
            l\<lparr>lg_state := (lg_state l)
                \<lparr>bs_Reserved := applyEstimate (bs_Reserved (lg_state l)) (br_Estimate r) (- 1)\<rparr>,
              lg_reservations := gomap_put i (r\<lparr>br_Closed := True\<rparr>) (lg_reservations l)\<rparr>))"

definition Exhausted :: "BudgetLedger \<Rightarrow> bool" where
  "Exhausted l \<longleftrightarrow>
     validateCountersAgainstLimit (combined (lg_state l)) (bs_Limit (lg_state l)) \<noteq> None"

text \<open>The coordinator: a nil coordinator or a nil ledger is \<^term>\<open>None\<close>.\<close>

definition ErrLedgerRequired :: goerr where
  "ErrLedgerRequired = ErrNew ''budget ledger is required''"

definition coord_Reserve ::
  "string \<Rightarrow> ExecutionID \<Rightarrow> NodeID \<Rightarrow> BudgetEstimate \<Rightarrow> BudgetLedger option
     \<Rightarrow> (goerr + BudgetReservation) \<times> BudgetLedger option" where
  "coord_Reserve i ex nd est c =
     (case c of None \<Rightarrow> (Inl ErrLedgerRequired, None)
      | Some l \<Rightarrow> (case Reserve i ex nd est l of (r, l') \<Rightarrow> (r, Some l')))"

definition coord_Settle ::
  "string \<Rightarrow> BudgetEstimate \<Rightarrow> BudgetLedger option \<Rightarrow> goerr option \<times> BudgetLedger option" where
  "coord_Settle i actual c =
     (case c of None \<Rightarrow> (Some ErrLedgerRequired, None)
      | Some l \<Rightarrow> (case Settle i actual l of (r, l') \<Rightarrow> (r, Some l')))"

definition coord_Release :: "string \<Rightarrow> BudgetLedger option \<Rightarrow> goerr option \<times> BudgetLedger option" where
  "coord_Release i c =
     (case c of None \<Rightarrow> (Some ErrLedgerRequired, None)
      | Some l \<Rightarrow> (case Release i l of (r, l') \<Rightarrow> (r, Some l')))"

lemmas [go_ops] = Reserve_def Settle_def Release_def coord_Reserve_def coord_Settle_def
  coord_Release_def

section \<open>The contract of a budget coordinator\<close>

text \<open>
  The interface \<open>BudgetCoordinator\<close> (persistent\_worker.go) over an abstract state: a
  reservation is open from the reserve that creates it to the settle or release that
  closes it, a failing operation changes nothing, and no operation touches another
  reservation. The estimate and the two references of a reservation play no part.
\<close>

locale budget_coordinator =
  fixes reserve :: "string \<Rightarrow> ExecutionID \<Rightarrow> NodeID \<Rightarrow> BudgetEstimate \<Rightarrow> 's
      \<Rightarrow> (goerr + BudgetReservation) \<times> 's"
    and settle :: "string \<Rightarrow> BudgetEstimate \<Rightarrow> 's \<Rightarrow> goerr option \<times> 's"
    and release :: "string \<Rightarrow> 's \<Rightarrow> goerr option \<times> 's"
    and is_open :: "'s \<Rightarrow> string \<Rightarrow> bool"
  assumes reserve_ok: "reserve i ex nd e s = (Inr r, s') \<Longrightarrow>
      br_ID r = i \<and> is_open s' = (is_open s)(i := True) \<and> \<not> is_open s i"
    and reserve_err: "reserve i ex nd e s = (Inl x, s') \<Longrightarrow> s' = s"
    and settle_ok: "settle i a s = (None, s') \<Longrightarrow> is_open s' = (is_open s)(i := False) \<and> is_open s i"
    and settle_err: "settle i a s = (Some x, s') \<Longrightarrow> s' = s"
    and release_ok: "release i s = (None, s') \<Longrightarrow> is_open s' = (is_open s)(i := False) \<and> is_open s i"
    and release_err: "release i s = (Some x, s') \<Longrightarrow> s' = s"
begin

lemma settle_once: "settle i a s = (None, s') \<Longrightarrow> fst (settle i b s') \<noteq> None \<and> fst (release i s') \<noteq> None"
  by (metis fun_upd_same prod.collapse release_ok settle_ok)

lemma release_once: "release i s = (None, s') \<Longrightarrow> fst (settle i b s') \<noteq> None \<and> fst (release i s') \<noteq> None"
  by (metis fun_upd_same prod.collapse release_ok settle_ok)

lemma reserve_then_close:
  "reserve i ex nd e s = (Inr r, s1) \<Longrightarrow> settle i a s1 = (None, s2) \<or> release i s1 = (None, s2) \<Longrightarrow>
   is_open s2 = is_open s"
  by (auto dest!: reserve_ok settle_ok release_ok simp: fun_upd_idem_iff)

end

definition ledger_open :: "BudgetLedger \<Rightarrow> string \<Rightarrow> bool" where
  "ledger_open l i \<longleftrightarrow> (case gomap_get (lg_reservations l) i of None \<Rightarrow> False | Some r \<Rightarrow> \<not> br_Closed r)"

interpretation ledger: budget_coordinator Reserve Settle Release ledger_open
  by unfold_locales
    (auto simp: go_ops ledger_open_def gm.get_put fun_eq_iff Let_def split: if_splits option.splits)

interpretation coord: budget_coordinator coord_Reserve coord_Settle coord_Release
    "\<lambda>c i. case c of None \<Rightarrow> False | Some l \<Rightarrow> ledger_open l i"
proof (unfold_locales, goal_cases)
  case (1 i ex nd e s r s')
  then show ?case
    using ledger.reserve_ok by (fastforce simp: coord_Reserve_def split: option.splits prod.splits)
next
  case (3 i a s s')
  then show ?case
    using ledger.settle_ok by (fastforce simp: coord_Settle_def split: option.splits prod.splits)
next
  case (5 i s s')
  then show ?case
    using ledger.release_ok by (fastforce simp: coord_Release_def split: option.splits prod.splits)
qed (auto simp: coord_Reserve_def coord_Settle_def coord_Release_def
    split: option.splits prod.splits
    dest: ledger.reserve_err ledger.settle_err ledger.release_err)


section \<open>Runs of the ledger\<close>

datatype ledger_op =
    OpReserve string ExecutionID NodeID BudgetEstimate
  | OpSettle string BudgetEstimate
  | OpRelease string

fun ledger_step :: "ledger_op \<Rightarrow> BudgetLedger \<Rightarrow> BudgetLedger" where
  "ledger_step (OpReserve i ex nd e) l = snd (Reserve i ex nd e l)"
| "ledger_step (OpSettle i a) l = snd (Settle i a l)"
| "ledger_step (OpRelease i) l = snd (Release i l)"

fun ledger_run :: "BudgetLedger \<Rightarrow> ledger_op list \<Rightarrow> BudgetLedger" where
  "ledger_run l [] = l"
| "ledger_run l (x # xs) = ledger_run (ledger_step x l) xs"

text \<open>The three integer counters: how to read one in the counters, in an estimate and in
  the limits. The fourth counter, the cost, is a float64.\<close>

definition int_counters ::
  "((AccountingCounters \<Rightarrow> int) \<times> (BudgetEstimate \<Rightarrow> int) \<times> (BudgetLimit \<Rightarrow> int)) list" where
  "int_counters =
     [(ac_NodeAttempts, be_NodeAttempts, bl_MaxNodeAttempts),
      (ac_FrontierCalls, be_FrontierCalls, bl_MaxFrontierCalls),
      (ac_ToolCalls, be_ToolCalls, bl_MaxToolCalls)]"

definition open_sum :: "(BudgetEstimate \<Rightarrow> int) \<Rightarrow> BudgetLedger \<Rightarrow> int" where
  "open_sum b l =
     sum_list (map (\<lambda>(i, r). if br_Closed r then 0 else b (br_Estimate r)) (lg_reservations l))"

fun settled_by :: "(BudgetEstimate \<Rightarrow> int) \<Rightarrow> ledger_op \<Rightarrow> BudgetLedger \<Rightarrow> int" where
  "settled_by b (OpSettle i a) l = (if fst (Settle i a l) = None then b a else 0)"
| "settled_by b _ l = 0"

fun settled_sum :: "(BudgetEstimate \<Rightarrow> int) \<Rightarrow> BudgetLedger \<Rightarrow> ledger_op list \<Rightarrow> int" where
  "settled_sum b l [] = 0"
| "settled_sum b l (x # xs) = settled_by b x l + settled_sum b (ledger_step x l) xs"

lemma sum_gomap_put_new:
  "gomap_get m k = None \<Longrightarrow> sum_list (map g (gomap_put k v m)) = sum_list (map g m) + g (k, v)"
  for g :: "_ \<Rightarrow> int"
  by (induction m) (auto simp: gomap_get_def gomap_put_def split: if_splits)

lemma sum_gomap_put_old:
  "gomap_get m k = Some w \<Longrightarrow> sum_list (map g (gomap_put k v m)) = sum_list (map g m) - g (k, w) + g (k, v)"
  for g :: "_ \<Rightarrow> int"
  by (induction m) (auto simp: gomap_get_def gomap_put_def split: if_splits)

lemma sum_gomap_member_le:
  assumes "gomap_get m k = Some w" and "\<forall>x\<in>set m. (0::int) \<le> g x"
  shows "g (k, w) \<le> sum_list (map g m)"
proof -
  have "(k, w) \<in> set m" using assms(1) by (rule gomap_get_in_set)
  then show ?thesis using assms(2) by (intro member_le_sum_list) auto
qed

lemma int_counter_simps:
  assumes "(a, b, m) \<in> set int_counters"
  shows "a (applyEstimate d v sg) = wrap64 (a d + sg * b v)"
    and "a (combined st) = wrap64 (a (bs_Reserved st) + a (bs_Consumed st))"
    and "a (next_counters st e) = wrap64 (a (bs_Reserved st) + a (bs_Consumed st) + b e)"
    and "\<not> negative_estimate e \<Longrightarrow> 0 \<le> b e"
    and "validateCountersAgainstLimit c lm = None \<Longrightarrow> 0 < m lm \<Longrightarrow> a c \<le> m lm"
  using assms
  by (auto simp: int_counters_def applyEstimate_def combined_def next_counters_def
      negative_estimate_def validateCountersAgainstLimit_def split: if_splits)

text \<open>The effect of one operation on the counters and the reservations, on success.\<close>

lemma Reserve_cases:
  "Reserve i ex nd e l = (r, l') \<Longrightarrow>
   (\<exists>x. r = Inl x) \<and> l' = l \<or>
   (\<exists>v. r = Inr v \<and> br_Estimate v = e \<and> \<not> br_Closed v \<and>
      gomap_get (lg_reservations l) i = None \<and> \<not> negative_estimate e \<and>
      validateCountersAgainstLimit (next_counters (lg_state l) e) (bs_Limit (lg_state l)) = None \<and>
      lg_reservations l' = gomap_put i v (lg_reservations l) \<and>
      lg_state l' = (lg_state l)\<lparr>bs_Reserved := applyEstimate (bs_Reserved (lg_state l)) e 1\<rparr>)"
  by (auto simp: Reserve_def Let_def split: if_splits option.splits)

lemma Settle_cases:
  "Settle i a l = (x, l') \<Longrightarrow>
   (\<exists>y. x = Some y) \<and> l' = l \<or>
   (\<exists>v. x = None \<and> gomap_get (lg_reservations l) i = Some v \<and> \<not> br_Closed v \<and>
      \<not> negative_estimate a \<and>
      lg_reservations l' = gomap_put i (v\<lparr>br_Closed := True\<rparr>) (lg_reservations l) \<and>
      lg_state l' = (lg_state l)
         \<lparr>bs_Reserved := applyEstimate (bs_Reserved (lg_state l)) (br_Estimate v) (- 1),
          bs_Consumed := applyEstimate (bs_Consumed (lg_state l)) a 1\<rparr>)"
  by (auto simp: Settle_def split: if_splits option.splits)

lemma Release_cases:
  "Release i l = (x, l') \<Longrightarrow>
   (\<exists>y. x = Some y) \<and> l' = l \<or>
   (\<exists>v. x = None \<and> gomap_get (lg_reservations l) i = Some v \<and> \<not> br_Closed v \<and>
      lg_reservations l' = gomap_put i (v\<lparr>br_Closed := True\<rparr>) (lg_reservations l) \<and>
      lg_state l' = (lg_state l)
         \<lparr>bs_Reserved := applyEstimate (bs_Reserved (lg_state l)) (br_Estimate v) (- 1)\<rparr>)"
  by (auto simp: Release_def split: if_splits option.splits)

lemma open_sum_put_new:
  "gomap_get (lg_reservations l) i = None \<Longrightarrow> lg_reservations l' = gomap_put i v (lg_reservations l) \<Longrightarrow>
   \<not> br_Closed v \<Longrightarrow> open_sum b l' = open_sum b l + b (br_Estimate v)"
  by (simp add: open_sum_def sum_gomap_put_new)

lemma open_sum_close:
  "gomap_get (lg_reservations l) i = Some v \<Longrightarrow> \<not> br_Closed v \<Longrightarrow>
   lg_reservations l' = gomap_put i (v\<lparr>br_Closed := True\<rparr>) (lg_reservations l) \<Longrightarrow>
   open_sum b l' = open_sum b l - b (br_Estimate v)"
  by (simp add: open_sum_def sum_gomap_put_old)

section \<open>Conservation\<close>

lemma wrap64_step: "x = wrap64 (y + z) \<Longrightarrow> wrap64 (x + d) = wrap64 (y + (z + d))"
  by (simp add: add.assoc)

lemma ledger_step_conserves:
  assumes c: "(a, b, m) \<in> set int_counters"
    and R: "a (bs_Reserved (lg_state l)) = wrap64 (r0 + open_sum b l)"
    and C: "a (bs_Consumed (lg_state l)) = wrap64 (c0 + s)"
  shows "a (bs_Reserved (lg_state (ledger_step x l))) = wrap64 (r0 + open_sum b (ledger_step x l)) \<and>
    a (bs_Consumed (lg_state (ledger_step x l))) = wrap64 (c0 + (s + settled_by b x l))"
proof (cases x)
  case (OpReserve i ex nd e)
  obtain r l' where st: "Reserve i ex nd e l = (r, l')" by fastforce
  from Reserve_cases [OF st] show ?thesis
    by (elim disjE exE conjE)
      (simp_all add: OpReserve st R C int_counter_simps(1) [OF c] open_sum_put_new algebra_simps)
next
  case (OpSettle i e)
  obtain r l' where st: "Settle i e l = (r, l')" by fastforce
  from Settle_cases [OF st] show ?thesis
    by (elim disjE exE conjE)
      (simp_all add: OpSettle st R C int_counter_simps(1) [OF c] open_sum_close algebra_simps)
next
  case (OpRelease i)
  obtain r l' where st: "Release i l = (r, l')" by fastforce
  from Release_cases [OF st] show ?thesis
    by (elim disjE exE conjE)
      (simp_all add: OpRelease st R C int_counter_simps(1) [OF c] open_sum_close algebra_simps)
qed

lemma ledger_run_conserves:
  assumes c: "(a, b, m) \<in> set int_counters"
    and "a (bs_Reserved (lg_state l)) = wrap64 (r0 + open_sum b l)"
    and "a (bs_Consumed (lg_state l)) = wrap64 (c0 + s)"
  shows "a (bs_Reserved (lg_state (ledger_run l xs))) = wrap64 (r0 + open_sum b (ledger_run l xs)) \<and>
    a (bs_Consumed (lg_state (ledger_run l xs))) = wrap64 (c0 + (s + settled_sum b l xs))"
  using assms(2,3)
proof (induction xs arbitrary: l s)
  case (Cons x xs)
  note st = ledger_step_conserves [OF c Cons.prems, of x]
  show ?case using Cons.IH [OF conjunct1 [OF st] conjunct2 [OF st]] by (simp add: add.assoc)
qed simp

text \<open>C12: for each of the three integer counters (the float64 cost counter is not covered: its
  additions and subtractions round) and any sequence of reserve, settle and release calls, failed
  ones included, the reserved counter is its initial value plus the estimates of the
  reservations still open, and the consumed counter is its initial value plus the actual usage
  of the settlements that succeeded, both in 64-bit arithmetic.\<close>

theorem ledger_conservation:
  assumes "(a, b, m) \<in> set int_counters"
    and "i64_ok (a (bs_Reserved s0))" and "i64_ok (a (bs_Consumed s0))"
  shows "a (bs_Reserved (lg_state (ledger_run (NewBudgetLedger s0) xs))) =
      wrap64 (a (bs_Reserved s0) + open_sum b (ledger_run (NewBudgetLedger s0) xs)) \<and>
    a (bs_Consumed (lg_state (ledger_run (NewBudgetLedger s0) xs))) =
      wrap64 (a (bs_Consumed s0) + settled_sum b (NewBudgetLedger s0) xs)"
  using ledger_run_conserves [OF assms(1), of "NewBudgetLedger s0" "a (bs_Reserved s0)"
      "a (bs_Consumed s0)" 0 xs] assms(2,3)
  by (simp add: NewBudgetLedger_def open_sum_def wrap64_id)

definition demo_limit :: BudgetLimit where
  "demo_limit = \<lparr>bl_MaxCost = Fin 0, bl_MaxDuration = 0, bl_MaxNodeAttempts = 3,
     bl_MaxFrontierCalls = 0, bl_MaxToolCalls = 0\<rparr>"

definition demo_estimate :: "f64 \<Rightarrow> int \<Rightarrow> BudgetEstimate" where
  "demo_estimate c n = \<lparr>be_Cost = c, be_NodeAttempts = n, be_FrontierCalls = 0, be_ToolCalls = 0\<rparr>"

definition demo_budget :: BudgetState where
  "demo_budget = \<lparr>bs_Limit = demo_limit, bs_Reserved = Counters_zero, bs_Consumed = Counters_zero\<rparr>"

definition demo_ops :: "ledger_op list" where
  "demo_ops = [OpReserve ''r1'' ''x'' ''n1'' (demo_estimate (Fin 0) 2),
     OpReserve ''r2'' ''x'' ''n2'' (demo_estimate (Fin 0) 1),
     OpSettle ''r1'' (demo_estimate (Fin 0) 1), OpSettle ''r1'' (demo_estimate (Fin 0) 1)]"

lemmas demo_ledger = demo_ops_def demo_budget_def demo_limit_def demo_estimate_def Counters_zero_def
  NewBudgetLedger_def Reserve_def Settle_def Release_def Let_def gomap_get_def gomap_put_def
  negative_estimate_def validateCountersAgainstLimit_def next_counters_def combined_def
  applyEstimate_def wrap64_id i64_ok_def

lemma ledger_conservation_witness:
  "ac_NodeAttempts (bs_Reserved (lg_state (ledger_run (NewBudgetLedger demo_budget) demo_ops))) = 1 \<and>
   ac_NodeAttempts (bs_Consumed (lg_state (ledger_run (NewBudgetLedger demo_budget) demo_ops))) = 1"
proof -
  have "(ac_NodeAttempts, be_NodeAttempts, bl_MaxNodeAttempts) \<in> set int_counters"
    and "i64_ok (ac_NodeAttempts (bs_Reserved demo_budget))"
    and "i64_ok (ac_NodeAttempts (bs_Consumed demo_budget))"
    by (simp_all add: int_counters_def demo_budget_def Counters_zero_def)
  note c = ledger_conservation [OF this, of demo_ops]
  have "open_sum be_NodeAttempts (ledger_run (NewBudgetLedger demo_budget) demo_ops) = 1"
    and "settled_sum be_NodeAttempts (NewBudgetLedger demo_budget) demo_ops = 1"
    by (simp_all add: demo_ledger open_sum_def)
  with c show ?thesis by (simp add: demo_budget_def Counters_zero_def wrap64_id i64_ok_def)
qed

section \<open>Limits\<close>

text \<open>A run is disciplined when no settlement reports more than was reserved and no
  estimate reaches half of the integer range.\<close>

fun op_disciplined :: "(BudgetEstimate \<Rightarrow> int) \<Rightarrow> ledger_op \<Rightarrow> BudgetLedger \<Rightarrow> bool" where
  "op_disciplined b (OpReserve i ex nd e) l = (b e < 2 ^ 62)"
| "op_disciplined b (OpSettle i e) l =
     (case gomap_get (lg_reservations l) i of None \<Rightarrow> True | Some r \<Rightarrow> b e \<le> b (br_Estimate r))"
| "op_disciplined b (OpRelease i) l = True"

fun disciplined :: "(BudgetEstimate \<Rightarrow> int) \<Rightarrow> BudgetLedger \<Rightarrow> ledger_op list \<Rightarrow> bool" where
  "disciplined b l [] = True"
| "disciplined b l (x # xs) = (op_disciplined b x l \<and> disciplined b (ledger_step x l) xs)"

definition within_limit ::
  "(AccountingCounters \<Rightarrow> int) \<Rightarrow> (BudgetEstimate \<Rightarrow> int) \<Rightarrow> BudgetLimit \<Rightarrow> int \<Rightarrow> int \<Rightarrow> BudgetLedger \<Rightarrow> bool" where
  "within_limit a b lm M r0 l \<longleftrightarrow>
     a (bs_Reserved (lg_state l)) = r0 + open_sum b l \<and> 0 \<le> a (bs_Consumed (lg_state l)) \<and>
     a (bs_Reserved (lg_state l)) + a (bs_Consumed (lg_state l)) \<le> M \<and>
     bs_Limit (lg_state l) = lm \<and> (\<forall>(i, r)\<in>set (lg_reservations l). 0 \<le> b (br_Estimate r))"

lemma gomap_put_ball: "\<forall>x\<in>set m. P x \<Longrightarrow> P (k, v) \<Longrightarrow> \<forall>x\<in>set (gomap_put k v m). P x"
  by (induction m) (auto simp: gomap_put_def)

lemma open_sum_ge:
  assumes "\<forall>(i, r)\<in>set (lg_reservations l). 0 \<le> b (br_Estimate r)"
  shows "0 \<le> open_sum b l"
    and "gomap_get (lg_reservations l) i = Some v \<Longrightarrow> \<not> br_Closed v \<Longrightarrow> b (br_Estimate v) \<le> open_sum b l"
    and "gomap_get (lg_reservations l) i = Some v \<Longrightarrow> 0 \<le> b (br_Estimate v)"
proof -
  show "0 \<le> open_sum b l"
    unfolding open_sum_def using assms by (intro sum_list_nonneg) auto
  show "gomap_get (lg_reservations l) i = Some v \<Longrightarrow> \<not> br_Closed v \<Longrightarrow> b (br_Estimate v) \<le> open_sum b l"
    unfolding open_sum_def
    using sum_gomap_member_le [where g = "\<lambda>(i, r). if br_Closed r then 0 else b (br_Estimate r)"] assms
    by fastforce
  show "gomap_get (lg_reservations l) i = Some v \<Longrightarrow> 0 \<le> b (br_Estimate v)"
    using assms by (auto dest: gomap_get_in_set)
qed

lemma within_limitD:
  assumes "within_limit a b lm M r0 l"
  shows "a (bs_Reserved (lg_state l)) = r0 + open_sum b l" and "0 \<le> a (bs_Consumed (lg_state l))"
    and "a (bs_Reserved (lg_state l)) + a (bs_Consumed (lg_state l)) \<le> M"
    and "bs_Limit (lg_state l) = lm" and "0 \<le> open_sum b l"
    and "\<And>i v. gomap_get (lg_reservations l) i = Some v \<Longrightarrow> \<not> br_Closed v \<Longrightarrow> b (br_Estimate v) \<le> open_sum b l"
    and "\<And>i v. gomap_get (lg_reservations l) i = Some v \<Longrightarrow> 0 \<le> b (br_Estimate v)"
  using assms open_sum_ge [of l b] unfolding within_limit_def by blast+

lemma within_limit_put:
  "within_limit a b lm M r0 l \<Longrightarrow> 0 \<le> b (br_Estimate v) \<Longrightarrow>
   lg_reservations l' = gomap_put i v (lg_reservations l) \<Longrightarrow> bs_Limit (lg_state l') = lm \<Longrightarrow>
   a (bs_Reserved (lg_state l')) = r0 + open_sum b l' \<Longrightarrow> 0 \<le> a (bs_Consumed (lg_state l')) \<Longrightarrow>
   a (bs_Reserved (lg_state l')) + a (bs_Consumed (lg_state l')) \<le> M \<Longrightarrow> within_limit a b lm M r0 l'"
  unfolding within_limit_def using gomap_put_ball [of "lg_reservations l" "\<lambda>(i, r). 0 \<le> b (br_Estimate r)"] by simp

lemma within_limit_Reserve:
  assumes c: "(a, b, m) \<in> set int_counters" and M: "0 < m lm" "m lm < 2 ^ 62" and r0: "0 \<le> r0"
    and w: "within_limit a b lm (m lm) r0 l" and d: "b e < 2 ^ 62"
  shows "within_limit a b lm (m lm) r0 (snd (Reserve i ex nd e l))"
proof -
  note W = within_limitD [OF w] and S = int_counter_simps [OF c]
  obtain r l' where st: "Reserve i ex nd e l = (r, l')" by fastforce
  have ok: "wrap64 (r0 + open_sum b l + z) = r0 + open_sum b l + z"
    "wrap64 (r0 + open_sum b l + a (bs_Consumed (lg_state l)) + z) =
     r0 + open_sum b l + a (bs_Consumed (lg_state l)) + z" if "0 \<le> z" "z < 2 ^ 62" for z
    using W M r0 that by (simp_all add: wrap64_id i64_ok_def)
  from Reserve_cases [OF st] show ?thesis
  proof (elim disjE exE conjE)
    fix v assume v: "br_Estimate v = e" "\<not> br_Closed v"
      "gomap_get (lg_reservations l) i = None" "\<not> negative_estimate e"
      "validateCountersAgainstLimit (next_counters (lg_state l) e) (bs_Limit (lg_state l)) = None"
      "lg_reservations l' = gomap_put i v (lg_reservations l)"
      "lg_state l' = (lg_state l)\<lparr>bs_Reserved := applyEstimate (bs_Reserved (lg_state l)) e 1\<rparr>"
    have e: "0 \<le> b e" using S(4) v(4) .
    have "a (next_counters (lg_state l) e) \<le> m lm" using S(5) v(5) W(4) M(1) by simp
    then have le: "r0 + open_sum b l + a (bs_Consumed (lg_state l)) + b e \<le> m lm"
      by (simp add: S(3) W(1) ok [OF e d])
    have o: "open_sum b l' = open_sum b l + b e" using open_sum_put_new [OF v(3,6,2)] v(1) by simp
    show ?thesis unfolding st snd_conv
      by (rule within_limit_put [OF w _ v(6)])
        (use W(2,4) v(1,7) e le in \<open>simp_all add: o S(1) W(1) ok [OF e d]\<close>)
  qed (simp add: st w)
qed

lemma within_limit_close:
  assumes c: "(a, b, m) \<in> set int_counters" and M: "m lm < 2 ^ 62" and r0: "0 \<le> r0"
    and w: "within_limit a b lm (m lm) r0 l"
    and v: "gomap_get (lg_reservations l) i = Some v" "\<not> br_Closed v"
    and l': "lg_reservations l' = gomap_put i (v\<lparr>br_Closed := True\<rparr>) (lg_reservations l)"
      "bs_Limit (lg_state l') = bs_Limit (lg_state l)"
      "bs_Reserved (lg_state l') = applyEstimate (bs_Reserved (lg_state l)) (br_Estimate v) (- 1)"
    and u: "a (bs_Consumed (lg_state l')) = wrap64 (a (bs_Consumed (lg_state l)) + u)"
      "0 \<le> u" "u \<le> b (br_Estimate v)"
  shows "within_limit a b lm (m lm) r0 l'"
proof -
  note W = within_limitD [OF w]
  have o: "open_sum b l' = open_sum b l - b (br_Estimate v)" using open_sum_close [OF v l'(1)] .
  have "a (bs_Reserved (lg_state l')) = wrap64 (r0 + (open_sum b l - b (br_Estimate v)))"
    by (simp add: l'(3) int_counter_simps(1) [OF c] W(1) algebra_simps)
  also have "\<dots> = r0 + open_sum b l'"
    using W(2,3,5) W(1) W(6,7) [OF v(1)] v(2) M r0 o by (simp add: wrap64_id i64_ok_def)
  finally have R: "a (bs_Reserved (lg_state l')) = r0 + open_sum b l'" .
  have C: "a (bs_Consumed (lg_state l')) = a (bs_Consumed (lg_state l)) + u"
    using W(1,2,3,5) W(6) [OF v] u M r0 by (simp add: wrap64_id i64_ok_def)
  show ?thesis
    by (rule within_limit_put [OF w _ l'(1)]) (use R C W u(2,3) l'(2) v o in simp_all)
qed

lemma within_limit_Settle:
  assumes "(a, b, m) \<in> set int_counters" and "m lm < 2 ^ 62" and "0 \<le> r0"
    and w: "within_limit a b lm (m lm) r0 l" and d: "op_disciplined b (OpSettle i e) l"
  shows "within_limit a b lm (m lm) r0 (snd (Settle i e l))"
proof -
  obtain r l' where st: "Settle i e l = (r, l')" by fastforce
  note S = int_counter_simps [OF assms(1)]
  from Settle_cases [OF st] show ?thesis
    using within_limit_close [OF assms(1-4), of i _ l' "b e"] w d
    by (elim disjE exE conjE) (simp_all add: st S(1,4))
qed

lemma within_limit_Release:
  assumes "(a, b, m) \<in> set int_counters" and "m lm < 2 ^ 62" and "0 \<le> r0"
    and w: "within_limit a b lm (m lm) r0 l"
  shows "within_limit a b lm (m lm) r0 (snd (Release i l))"
proof -
  obtain r l' where st: "Release i l = (r, l')" by fastforce
  have i: "wrap64 (a (bs_Consumed (lg_state l))) = a (bs_Consumed (lg_state l))"
    using within_limitD(1-3,5) [OF w] assms(2,3) by (simp add: wrap64_id i64_ok_def)
  from Release_cases [OF st] show ?thesis
    using within_limit_close [OF assms(1-4), of i _ l' 0] w within_limitD(7) [OF w]
    by (elim disjE exE conjE) (simp_all add: st i)
qed

lemma ledger_run_within:
  assumes "(a, b, m) \<in> set int_counters" and "0 < m lm" "m lm < 2 ^ 62" and "0 \<le> r0"
  shows "within_limit a b lm (m lm) r0 l \<Longrightarrow> disciplined b l xs \<Longrightarrow> within_limit a b lm (m lm) r0 (ledger_run l xs)"
proof (induction xs arbitrary: l)
  case (Cons x xs)
  then show ?case
    using within_limit_Reserve [OF assms] within_limit_Settle [OF assms(1,3,4)]
      within_limit_Release [OF assms(1,3,4)]
    by (cases x) (simp_all del: op_disciplined.simps(2))
qed simp

text \<open>C11: an integer limit that is set is never overdrawn. For each of the three integer
  counters (MaxCost, a float64, is not covered) with a positive limit below two to the 62,
  starting with counters that are not negative and within the limit, as long as no settlement
  exceeds its reservation and every estimate is below two to the 62, reserved plus consumed
  usage stays within the limit after any sequence of operations, and neither counter becomes
  negative.\<close>

theorem ledger_within_limits:
  assumes "(a, b, m) \<in> set int_counters"
    and "0 < m (bs_Limit s0)" and "m (bs_Limit s0) < 2 ^ 62"
    and "0 \<le> a (bs_Reserved s0)" and "0 \<le> a (bs_Consumed s0)"
    and "a (bs_Reserved s0) + a (bs_Consumed s0) \<le> m (bs_Limit s0)"
    and "disciplined b (NewBudgetLedger s0) xs"
  shows "let s = Snapshot (ledger_run (NewBudgetLedger s0) xs)
    in 0 \<le> a (bs_Reserved s) \<and> 0 \<le> a (bs_Consumed s) \<and>
       a (bs_Reserved s) + a (bs_Consumed s) \<le> m (bs_Limit s0)"
proof -
  have "within_limit a b (bs_Limit s0) (m (bs_Limit s0)) (a (bs_Reserved s0)) (NewBudgetLedger s0)"
    using assms by (simp add: within_limit_def NewBudgetLedger_def open_sum_def)
  from within_limitD [OF ledger_run_within [OF assms(1-4) this assms(7)]] assms(4)
  show ?thesis by (simp add: Snapshot_def)
qed

lemma ledger_within_limits_witness:
  "let s = Snapshot (ledger_run (NewBudgetLedger demo_budget) demo_ops)
   in 0 \<le> ac_NodeAttempts (bs_Reserved s) \<and> 0 \<le> ac_NodeAttempts (bs_Consumed s) \<and>
      ac_NodeAttempts (bs_Reserved s) + ac_NodeAttempts (bs_Consumed s) \<le> 3"
proof -
  have d: "disciplined be_NodeAttempts (NewBudgetLedger demo_budget) demo_ops"
    by (simp add: demo_ledger)
  have "bl_MaxNodeAttempts (bs_Limit demo_budget) = 3"
    "ac_NodeAttempts (bs_Reserved demo_budget) = 0" "ac_NodeAttempts (bs_Consumed demo_budget) = 0"
    by (simp_all add: demo_budget_def demo_limit_def Counters_zero_def)
  then show ?thesis
    using ledger_within_limits [of ac_NodeAttempts be_NodeAttempts bl_MaxNodeAttempts demo_budget demo_ops] d
    by (simp add: int_counters_def)
qed

section \<open>Costs that are not numbers\<close>

lemma ledger_step_NaN:
  "ac_Cost (bs_Reserved (lg_state l)) = NaN \<Longrightarrow> ac_Cost (bs_Reserved (lg_state (ledger_step x l))) = NaN"
  by (cases x)
    (simp_all add: Reserve_def Settle_def Release_def Let_def applyEstimate_def f64_add_NaN
      split: option.splits)

lemma ledger_run_NaN:
  "ac_Cost (bs_Reserved (lg_state l)) = NaN \<Longrightarrow> ac_Cost (bs_Reserved (lg_state (ledger_run l xs))) = NaN"
  by (induction xs arbitrary: l) (simp_all add: ledger_step_NaN)

text \<open>What an estimate asks of the three integer counters fits under the limits that are set.\<close>

definition int_room :: "BudgetLedger \<Rightarrow> BudgetEstimate \<Rightarrow> bool" where
  "int_room l e \<longleftrightarrow>
     (\<forall>(a, b, m)\<in>set int_counters. 0 \<le> b e \<and>
        (0 < m (bs_Limit (lg_state l)) \<longrightarrow>
           wrap64 (a (bs_Reserved (lg_state l)) + a (bs_Consumed (lg_state l)) + b e) \<le> m (bs_Limit (lg_state l))))"

lemma Reserve_accepts_NaN:
  assumes "ac_Cost (next_counters (lg_state l) e) = NaN"
  shows "(\<exists>r. fst (Reserve i ex nd e l) = Inr r) \<longleftrightarrow>
    i \<noteq> [] \<and> gomap_get (lg_reservations l) i = None \<and> \<not> f64_lt (be_Cost e) (Fin 0) \<and> int_room l e"
proof -
  have v: "validateCountersAgainstLimit (next_counters (lg_state l) e) lm = None \<longleftrightarrow>
      (\<forall>(a, b, m)\<in>set int_counters. 0 < m lm \<longrightarrow>
         wrap64 (a (bs_Reserved (lg_state l)) + a (bs_Consumed (lg_state l)) + b e) \<le> m lm)" for lm
    using assms
    by (auto simp: validateCountersAgainstLimit_def f64_lt_NaN int_counters_def next_counters_def combined_def not_less)
  have n: "\<not> negative_estimate e \<longleftrightarrow> \<not> f64_lt (be_Cost e) (Fin 0) \<and> (\<forall>(a, b, m)\<in>set int_counters. 0 \<le> b e)"
    by (auto simp: negative_estimate_def int_counters_def)
  have "int_room l e \<longleftrightarrow> (\<forall>(a, b, m)\<in>set int_counters. 0 \<le> b e) \<and>
      validateCountersAgainstLimit (next_counters (lg_state l) e) (bs_Limit (lg_state l)) = None"
    unfolding v int_room_def by auto
  with n show ?thesis by (auto simp: Reserve_def Let_def split: option.splits)
qed

lemma next_counters_NaN:
  "be_Cost e = NaN \<or> ac_Cost (bs_Reserved s) = NaN \<Longrightarrow> ac_Cost (next_counters s e) = NaN"
  by (auto simp: next_counters_def combined_def f64_add_NaN)

text \<open>C18: an estimate whose cost is not a number disables the cost limit. Whatever cost limit
  is set, a reservation with such an estimate under a fresh, non-empty identifier is accepted
  when its integer amounts are not negative and fit under the integer limits. After it and any
  further operations, a reservation is accepted exactly when its identifier is fresh and not
  empty, its cost is not negative and its integer amounts are not negative and fit: no cost,
  however large, is refused any more.\<close>

theorem NaN_estimate_disables_cost_limit:
  assumes "be_Cost e = NaN" and "i \<noteq> []" and "gomap_get (lg_reservations l) i = None" and "int_room l e"
  shows "\<exists>r l'. Reserve i ex nd e l = (Inr r, l') \<and>
    (\<forall>xs j ex2 nd2 est. let l2 = ledger_run l' xs in
       (\<exists>r2. fst (Reserve j ex2 nd2 est l2) = Inr r2) \<longleftrightarrow>
         j \<noteq> [] \<and> gomap_get (lg_reservations l2) j = None \<and> \<not> f64_lt (be_Cost est) (Fin 0) \<and> int_room l2 est)"
proof -
  have "\<exists>r. fst (Reserve i ex nd e l) = Inr r"
    using assms by (simp add: Reserve_accepts_NaN next_counters_NaN f64_lt_NaN)
  then obtain r l' where r: "Reserve i ex nd e l = (Inr r, l')" by (metis prod.collapse)
  then have "ac_Cost (bs_Reserved (lg_state l')) = NaN"
    using Reserve_cases [OF r] assms(1) by (auto simp: applyEstimate_def f64_add_NaN)
  from ledger_run_NaN [OF this] have "ac_Cost (next_counters (lg_state (ledger_run l' xs)) est) = NaN" for xs est
    by (simp add: next_counters_NaN)
  note accepts = Reserve_accepts_NaN [OF this]
  show ?thesis unfolding Let_def by (intro exI conjI allI) (rule r, rule accepts)
qed

text \<open>A cost limit of ten: a reservation of cost eleven is refused before, and accepted after
  a reservation whose cost is not a number.\<close>

definition demo_cost_budget :: BudgetState where
  "demo_cost_budget = demo_budget\<lparr>bs_Limit := demo_limit\<lparr>bl_MaxCost := Fin 10\<rparr>\<rparr>"

lemma NaN_estimate_disables_cost_limit_witness:
  "fst (Reserve ''r2'' ''x'' ''n2'' (demo_estimate (Fin 11) 1) (NewBudgetLedger demo_cost_budget)) =
     Inl (Errorf ''%w: cost %.4f > %.4f'' [ErrBudgetExceeded]) \<and>
   (\<exists>r l' r2. Reserve ''r1'' ''x'' ''n1'' (demo_estimate NaN 1) (NewBudgetLedger demo_cost_budget) = (Inr r, l') \<and>
     fst (Reserve ''r2'' ''x'' ''n2'' (demo_estimate (Fin 11) 1) l') = Inr r2)"
proof
  show "fst (Reserve ''r2'' ''x'' ''n2'' (demo_estimate (Fin 11) 1) (NewBudgetLedger demo_cost_budget)) =
     Inl (Errorf ''%w: cost %.4f > %.4f'' [ErrBudgetExceeded])"
    by code_simp
  let ?l = "NewBudgetLedger demo_cost_budget" and ?e = "demo_estimate NaN 1"
  have "be_Cost ?e = NaN" "gomap_get (lg_reservations ?l) ''r1'' = None" "int_room ?l ?e"
    by (simp_all add: int_room_def int_counters_def demo_cost_budget_def demo_ledger)
  from NaN_estimate_disables_cost_limit [OF this(1) _ this(2,3), of "''x''" "''n1''"]
  obtain r l' where l': "Reserve ''r1'' ''x'' ''n1'' ?e ?l = (Inr r, l')"
    and acc: "\<And>xs j ex2 nd2 est. (\<exists>r2. fst (Reserve j ex2 nd2 est (ledger_run l' xs)) = Inr r2) \<longleftrightarrow>
         j \<noteq> [] \<and> gomap_get (lg_reservations (ledger_run l' xs)) j = None \<and> \<not> f64_lt (be_Cost est) (Fin 0) \<and>
         int_room (ledger_run l' xs) est"
    by (auto simp: Let_def)
  have "l' = snd (Reserve ''r1'' ''x'' ''n1'' ?e ?l)" using l' by simp
  then have "gomap_get (lg_reservations l') ''r2'' = None \<and> int_room l' (demo_estimate (Fin 11) 1)"
    by (simp add: int_room_def int_counters_def demo_cost_budget_def demo_ledger f64_lt_NaN f64_add_NaN)
  then have "\<exists>r2. fst (Reserve ''r2'' ''x'' ''n2'' (demo_estimate (Fin 11) 1) l') = Inr r2"
    using acc [of "''r2''" "''x''" "''n2''" "demo_estimate (Fin 11) 1" "[]"]
    by (simp add: demo_estimate_def)
  with l' show "\<exists>r l' r2. Reserve ''r1'' ''x'' ''n1'' ?e ?l = (Inr r, l') \<and>
     fst (Reserve ''r2'' ''x'' ''n2'' (demo_estimate (Fin 11) 1) l') = Inr r2" by blast
qed

end
