(* ===== verification/Exec_Plan.thy ===== *)
theory Exec_Plan
  imports Exec_Types
begin

text \<open>
  Plan validation (src/execution/plan.go): the bounded-DAG checks of \<open>ValidatePlan\<close>, the
  effect contract of a node, and the depth-first cycle search \<open>hasCycle\<close> with its
  three-valued marks. The search is proved to decide whether the dependency relation has
  a cycle, whatever order Go's map iteration visits the nodes in, and \<open>ValidatePlan\<close> to
  accept exactly the plans that satisfy a declarative specification.
\<close>

section \<open>Effects\<close>

fun ValidateEffectClass :: "EffectClass \<Rightarrow> string \<Rightarrow> bool \<Rightarrow> goerr option" where
  "ValidateEffectClass EffectPure key safe = None"
| "ValidateEffectClass EffectReadOnly key safe = None"
| "ValidateEffectClass EffectIdempotentMutation key safe =
     (if key = [] then Some (Errorf ''idempotent mutation requires idempotency key'' [])
      else if \<not> safe then Some (Errorf ''idempotent mutation must declare retrySafe=true'' [])
      else None)"
| "ValidateEffectClass EffectNonIdempotentMutation key safe =
     (if safe then Some (Errorf ''non-idempotent mutation cannot declare retrySafe=true'' [])
      else None)"
| "ValidateEffectClass (EffectClassOther c) key safe = Some (Errorf (''unknown effect class '' @ quoted c) [])"

definition ValidateEffectSpec :: "EffectSpec \<Rightarrow> goerr option" where
  "ValidateEffectSpec e = ValidateEffectClass (ef_Class e) (ef_IdempotencyKey e) (ef_RetrySafe e)"

section \<open>Cycle search\<close>

type_synonym deps = "(NodeID, NodeID list) gomap"

datatype mark = Unseen | Visiting | Done

definition dep_map :: "ExecutionNode list \<Rightarrow> deps" where
  "dep_map nodes = fold (\<lambda>n m. gomap_put (nd_ID n) (nd_DependsOn n) m) nodes []"

function visit :: "deps \<Rightarrow> NodeID \<Rightarrow> (NodeID \<Rightarrow> mark) \<Rightarrow> bool \<times> (NodeID \<Rightarrow> mark)" and
    visit_all :: "deps \<Rightarrow> NodeID list \<Rightarrow> (NodeID \<Rightarrow> mark) \<Rightarrow> bool \<times> (NodeID \<Rightarrow> mark)" where
  "visit deps nid st =
     (case st nid of
        Visiting \<Rightarrow> (True, st)
      | Done \<Rightarrow> (False, st)
      | Unseen \<Rightarrow>
          let r = visit_all deps (gomap_or [] deps nid) (st(nid := Visiting))
          in if fst r then (True, snd r) else (False, (snd r)(nid := Done)))"
| "visit_all deps [] st = (False, st)"
| "visit_all deps (d # ds) st =
     (let r = visit deps d st in if fst r then (True, snd r) else visit_all deps ds (snd r))"
  by pat_completeness auto

definition unseen_keys :: "deps \<Rightarrow> (NodeID \<Rightarrow> mark) \<Rightarrow> NodeID set" where
  "unseen_keys deps st = {k \<in> fst ` set deps. st k = Unseen}"

lemma finite_unseen_keys [simp]: "finite (unseen_keys deps st)"
  by (simp add: unseen_keys_def)

lemma visit_marks_grow:
  "visit_visit_all_dom (Inl (deps, nid, st)) \<Longrightarrow>
     snd (visit deps nid st) v = Unseen \<longrightarrow> st v = Unseen"
  "visit_visit_all_dom (Inr (deps, ds, st)) \<Longrightarrow>
     snd (visit_all deps ds st) v = Unseen \<longrightarrow> st v = Unseen"
proof (induction deps nid st and deps ds st rule: visit_visit_all.pinduct)
  case (1 deps nid st)
  show ?case
  proof (cases "st nid")
    case Unseen
    then show ?thesis
      using "1.IH" [OF Unseen]
      by (auto simp: visit.psimps [OF "1.hyps"] Let_def fun_upd_def split: if_splits)
  qed (simp_all add: visit.psimps [OF "1.hyps"])
next
  case (2 deps st)
  then show ?case by (simp add: visit_all.psimps)
next
  case (3 deps d ds st)
  show ?case
    using "3.IH"(1) "3.IH"(2) [OF refl]
    by (cases "fst (visit deps d st)") (auto simp: visit_all.psimps(2) [OF "3.hyps"] Let_def)
qed

termination visit
proof (relation "inv_image (less_than <*lex*> less_than)
    (\<lambda>x. case x of
       Inl (deps, nid, st) \<Rightarrow> (card (unseen_keys deps st), 1::nat)
     | Inr (deps, ds, st) \<Rightarrow> (card (unseen_keys deps st), 2 * length ds))", goal_cases)
  case 1
  show ?case by auto
next
  case (2 deps nid st)
  show ?case
  proof (cases "nid \<in> fst ` set deps")
    case True
    then have "unseen_keys deps (st(nid := Visiting)) \<subset> unseen_keys deps st"
      using 2 by (auto simp: unseen_keys_def)
    then show ?thesis by (simp add: psubset_card_mono)
  next
    case False
    then have "gomap_or [] deps nid = []" and "unseen_keys deps (st(nid := Visiting)) = unseen_keys deps st"
      using gomap_get_None_iff [of deps nid]
      by (auto simp: gomap_or_def unseen_keys_def)
    then show ?thesis by simp
  qed
next
  case (3 deps d ds st)
  show ?case by simp
next
  case (4 deps d ds st)
  then have "unseen_keys deps (snd (visit deps d st)) \<subseteq> unseen_keys deps st"
    using visit_marks_grow(1) by (fastforce simp: unseen_keys_def)
  then have "card (unseen_keys deps (snd (visit deps d st))) \<le> card (unseen_keys deps st)"
    by (simp add: card_mono)
  with 4 show ?case by auto
qed

declare visit.simps [simp del]

fun cycle_loop :: "deps \<Rightarrow> NodeID list \<Rightarrow> (NodeID \<Rightarrow> mark) \<Rightarrow> bool" where
  "cycle_loop deps [] st = False"
| "cycle_loop deps (nid # ids) st =
     (if st nid = Unseen
      then let r = visit deps nid st in if fst r then True else cycle_loop deps ids (snd r)
      else cycle_loop deps ids st)"

text \<open>The order of \<open>range deps\<close> is the order of the association list here; the lemma
  \<open>cycle_loop_start\<close> below shows that every other order gives the same answer.\<close>

definition hasCycle :: "ExecutionNode list \<Rightarrow> bool" where
  "hasCycle nodes =
     (let deps = dep_map nodes in cycle_loop deps (map fst deps) (\<lambda>_. Unseen))"


section \<open>The search decides cyclicity\<close>

definition dep_rel :: "deps \<Rightarrow> (NodeID \<times> NodeID) set" where
  "dep_rel deps = {(a, b). b \<in> set (gomap_or [] deps a)}"

text \<open>A search that reports no cycle leaves the nodes on the stack as they were and every
  node it was asked about done.\<close>

lemma visit_frame:
  "\<not> fst (visit deps nid st) \<Longrightarrow>
     (\<forall>v. snd (visit deps nid st) v = Visiting \<longleftrightarrow> st v = Visiting) \<and>
     (\<forall>v. st v = Done \<longrightarrow> snd (visit deps nid st) v = Done) \<and>
     snd (visit deps nid st) nid = Done"
  "\<not> fst (visit_all deps ds st) \<Longrightarrow>
     (\<forall>v. snd (visit_all deps ds st) v = Visiting \<longleftrightarrow> st v = Visiting) \<and>
     (\<forall>v. st v = Done \<longrightarrow> snd (visit_all deps ds st) v = Done) \<and>
     (\<forall>d\<in>set ds. snd (visit_all deps ds st) d = Done)"
proof (induction deps nid st and deps ds st rule: visit_visit_all.induct)
  case (1 deps nid st)
  show ?case
  proof (cases "st nid")
    case Unseen
    note u = visit.simps [of deps nid st, unfolded Unseen mark.case Let_def]
    from "1.prems" have "\<not> fst (visit_all deps (gomap_or [] deps nid) (st(nid := Visiting)))"
      by (auto simp: u split: if_splits)
    with "1.IH" [OF Unseen] show ?thesis by (auto simp: u Unseen fun_upd_def)
  qed (use "1.prems" in \<open>simp_all add: visit.simps [of deps nid st]\<close>)
next
  case (3 deps d ds st)
  from "3.prems" have v: "\<not> fst (visit deps d st)" and a: "\<not> fst (visit_all deps ds (snd (visit deps d st)))"
    by (auto simp: Let_def split: if_splits)
  show ?case using "3.IH"(1) [OF v] "3.IH"(2) [OF refl v a] v by (auto simp: Let_def)
qed simp

text \<open>Soundness: if the nodes on the stack all lead to the node being visited, a reported
  cycle is a cycle.\<close>

lemma visit_sound:
  "fst (visit deps nid st) \<Longrightarrow> \<forall>v. st v = Visiting \<longrightarrow> (v, nid) \<in> (dep_rel deps)\<^sup>+ \<Longrightarrow>
     \<exists>x. (x, x) \<in> (dep_rel deps)\<^sup>+"
  "fst (visit_all deps ds st) \<Longrightarrow>
     \<forall>v. st v = Visiting \<longrightarrow> (\<forall>d\<in>set ds. (v, d) \<in> (dep_rel deps)\<^sup>+) \<Longrightarrow>
     \<exists>x. (x, x) \<in> (dep_rel deps)\<^sup>+"
proof (induction deps nid st and deps ds st rule: visit_visit_all.induct)
  case (1 deps nid st)
  show ?case
  proof (cases "st nid")
    case Unseen
    note u = visit.simps [of deps nid st, unfolded Unseen mark.case Let_def]
    let ?st = "st(nid := Visiting)"
    have b: "fst (visit_all deps (gomap_or [] deps nid) ?st)"
      using "1.prems"(1) by (auto simp: u split: if_splits)
    have "(v, d) \<in> (dep_rel deps)\<^sup>+" if v: "?st v = Visiting" and d: "d \<in> set (gomap_or [] deps nid)" for v d
    proof -
      have nd: "(nid, d) \<in> dep_rel deps" using d by (simp add: dep_rel_def)
      show ?thesis
      proof (cases "v = nid")
        case True
        with nd show ?thesis by auto
      next
        case False
        with v "1.prems"(2) have "(v, nid) \<in> (dep_rel deps)\<^sup>+" by simp
        then show ?thesis using nd by (rule trancl_into_trancl)
      qed
    qed
    with "1.IH" [OF Unseen] b show ?thesis by (auto simp: fun_upd_def)
  next
    case Visiting
    with "1.prems"(2) show ?thesis by blast
  qed (use "1.prems" in \<open>simp add: visit.simps [of deps nid st]\<close>)
next
  case (3 deps d ds st)
  show ?case
  proof (cases "fst (visit deps d st)")
    case True
    with "3.IH"(1) "3.prems"(2) show ?thesis by simp
  next
    case False
    with "3.prems"(1) have "fst (visit_all deps ds (snd (visit deps d st)))"
      by (simp add: Let_def)
    with "3.IH"(2) [OF refl False] "3.prems"(2) visit_frame(1) [OF False] show ?thesis by simp
  qed
qed simp

text \<open>Completeness: the done nodes are closed under dependencies and on no cycle.\<close>

definition done_ok :: "deps \<Rightarrow> (NodeID \<Rightarrow> mark) \<Rightarrow> bool" where
  "done_ok deps st \<longleftrightarrow>
     (\<forall>x. st x = Done \<longrightarrow> (\<forall>y. (x, y) \<in> dep_rel deps \<longrightarrow> st y = Done) \<and> (x, x) \<notin> (dep_rel deps)\<^sup>+)"

lemma done_ok_reaches:
  assumes "done_ok deps st" and "(x, y) \<in> (dep_rel deps)\<^sup>+" and "st x = Done"
  shows "st y = Done"
  using assms(2,3) by (induction rule: trancl_induct) (use assms(1) in \<open>auto simp: done_ok_def\<close>)

lemma done_ok_finish:
  assumes "done_ok deps st" and "st nid \<noteq> Done" and "\<forall>d\<in>set (gomap_or [] deps nid). st d = Done"
  shows "done_ok deps (st(nid := Done))"
proof -
  have "(nid, nid) \<notin> (dep_rel deps)\<^sup>+"
  proof
    assume "(nid, nid) \<in> (dep_rel deps)\<^sup>+"
    then obtain y where y: "(nid, y) \<in> dep_rel deps" "(y, nid) \<in> (dep_rel deps)\<^sup>*"
      by (metis tranclD)
    then have "st y = Done" using assms(3) by (simp add: dep_rel_def)
    with y(2) have "st nid = Done"
      using done_ok_reaches [OF assms(1)] by (auto simp: rtrancl_eq_or_trancl)
    with assms(2) show False by simp
  qed
  with assms show ?thesis by (auto simp: done_ok_def dep_rel_def)
qed

lemma visit_complete:
  "\<not> fst (visit deps nid st) \<Longrightarrow> done_ok deps st \<Longrightarrow> done_ok deps (snd (visit deps nid st))"
  "\<not> fst (visit_all deps ds st) \<Longrightarrow> done_ok deps st \<Longrightarrow> done_ok deps (snd (visit_all deps ds st))"
proof (induction deps nid st and deps ds st rule: visit_visit_all.induct)
  case (1 deps nid st)
  show ?case
  proof (cases "st nid")
    case Unseen
    note u = visit.simps [of deps nid st, unfolded Unseen mark.case Let_def]
    let ?r = "visit_all deps (gomap_or [] deps nid) (st(nid := Visiting))"
    have b: "\<not> fst ?r" using "1.prems"(1) by (auto simp: u split: if_splits)
    have "done_ok deps (st(nid := Visiting))"
      using "1.prems"(2) Unseen by (force simp: done_ok_def)
    with "1.IH" [OF Unseen] b have "done_ok deps (snd ?r)" by (simp add: fun_upd_def)
    moreover have "snd ?r nid \<noteq> Done" "\<forall>d\<in>set (gomap_or [] deps nid). snd ?r d = Done"
      using visit_frame(2) [OF b] by (metis fun_upd_same mark.distinct(5), blast)
    ultimately have "done_ok deps ((snd ?r)(nid := Done))" by (rule done_ok_finish)
    with b show ?thesis by (simp only: u if_False snd_conv)
  qed (use "1.prems" in \<open>simp_all add: visit.simps [of deps nid st]\<close>)
next
  case (3 deps d ds st)
  then show ?case by (auto simp: Let_def split: if_splits)
qed simp

lemma cycle_loop_iff:
  assumes "done_ok deps st" and "\<forall>v. st v \<noteq> Visiting"
    and "\<forall>k\<in>fst ` set deps. st k = Done \<or> k \<in> set ids"
  shows "cycle_loop deps ids st \<longleftrightarrow> (\<exists>x. (x, x) \<in> (dep_rel deps)\<^sup>+)"
  using assms
proof (induction ids arbitrary: st)
  case Nil
  have "(x, x) \<notin> (dep_rel deps)\<^sup>+" for x
  proof
    assume x: "(x, x) \<in> (dep_rel deps)\<^sup>+"
    then obtain y where "(x, y) \<in> dep_rel deps" by (metis tranclD)
    then have "x \<in> fst ` set deps"
      using gomap_get_None_iff [of deps x] by (auto simp: dep_rel_def gomap_or_def split: option.splits)
    with Nil x show False by (auto simp: done_ok_def)
  qed
  then show ?case by simp
next
  case (Cons k ids)
  show ?case
  proof (cases "st k = Unseen")
    case True
    show ?thesis
    proof (cases "fst (visit deps k st)")
      case True
      moreover from this Cons.prems(2) have "\<exists>x. (x, x) \<in> (dep_rel deps)\<^sup>+"
        by (intro visit_sound(1)) auto
      ultimately show ?thesis using \<open>st k = Unseen\<close> by (simp add: Let_def)
    next
      case False
      have "cycle_loop deps ids (snd (visit deps k st)) \<longleftrightarrow> (\<exists>x. (x, x) \<in> (dep_rel deps)\<^sup>+)"
        using Cons.prems visit_frame(1) [OF False] visit_complete(1) [OF False]
        by (intro Cons.IH) auto
      then show ?thesis using False \<open>st k = Unseen\<close> by (simp add: Let_def)
    qed
  next
    case False
    with Cons.prems(2) have "st k = Done" by (cases "st k") auto
    with Cons show ?thesis by auto
  qed
qed

lemma cycle_loop_start:
  "set ids = fst ` set deps \<Longrightarrow>
   cycle_loop deps ids (\<lambda>_. Unseen) \<longleftrightarrow> (\<exists>x. (x, x) \<in> (dep_rel deps)\<^sup>+)"
  by (rule cycle_loop_iff) (auto simp: done_ok_def)


section \<open>Validation\<close>

fun check_nodes :: "NodeID list \<Rightarrow> ExecutionNode list \<Rightarrow> goerr option" where
  "check_nodes seen [] = None"
| "check_nodes seen (n # ns) =
     (if nd_ID n = [] then Some (Errorf ''node id is required'' [])
      else if nd_ID n \<in> set seen then Some (Errorf (''duplicate node id: '' @ nd_ID n) [])
      else case ValidateEffectSpec (nd_Effect n) of
             Some e \<Rightarrow> Some (Errorf (''node '' @ nd_ID n @ '': %w'') [e])
           | None \<Rightarrow> check_nodes (nd_ID n # seen) ns)"

fun check_deps :: "NodeID list \<Rightarrow> NodeID \<Rightarrow> NodeID list \<Rightarrow> NodeID list \<Rightarrow> goerr option" where
  "check_deps known n seen [] = None"
| "check_deps known n seen (d # ds) =
     (if d = n then Some (Errorf (''node '' @ n @ '' depends on itself'') [])
      else if d \<notin> set known
           then Some (Errorf (''node '' @ n @ '' references unknown dependency '' @ d) [])
      else if d \<in> set seen
           then Some (Errorf (''node '' @ n @ '' contains duplicate dependency '' @ d) [])
      else check_deps known n (d # seen) ds)"

fun check_all_deps :: "NodeID list \<Rightarrow> ExecutionNode list \<Rightarrow> goerr option" where
  "check_all_deps known [] = None"
| "check_all_deps known (n # ns) =
     (case check_deps known (nd_ID n) [] (nd_DependsOn n) of
        Some e \<Rightarrow> Some e
      | None \<Rightarrow> check_all_deps known ns)"

definition ValidatePlan :: "ExecutionPlan \<Rightarrow> goerr option" where
  "ValidatePlan plan =
     (if pl_ID plan = [] then Some (Errorf ''plan id is required'' [])
      else if pl_GoalRef plan = [] then Some (Errorf ''goal ref is required'' [])
      else if pl_Revision plan \<le> 0 then Some (Errorf ''plan revision must be positive'' [])
      else if pl_Nodes plan = [] then Some (Errorf ''plan must contain at least one node'' [])
      else case check_nodes [] (pl_Nodes plan) of
             Some e \<Rightarrow> Some e
           | None \<Rightarrow>
               (case check_all_deps (map nd_ID (pl_Nodes plan)) (pl_Nodes plan) of
                  Some e \<Rightarrow> Some e
                | None \<Rightarrow>
                    if hasCycle (pl_Nodes plan)
                    then Some (Errorf ''execution plan contains a cycle'' []) else None))"

text \<open>The dependency relation of a list of nodes, and what a valid plan is.\<close>

definition depends_on :: "ExecutionNode list \<Rightarrow> (NodeID \<times> NodeID) set" where
  "depends_on nodes = {(nd_ID n, d) | n d. n \<in> set nodes \<and> d \<in> set (nd_DependsOn n)}"

definition plan_ok :: "ExecutionPlan \<Rightarrow> bool" where
  "plan_ok p \<longleftrightarrow>
     pl_ID p \<noteq> [] \<and> pl_GoalRef p \<noteq> [] \<and> 0 < pl_Revision p \<and> pl_Nodes p \<noteq> [] \<and>
     distinct (map nd_ID (pl_Nodes p)) \<and>
     (\<forall>n\<in>set (pl_Nodes p).
        nd_ID n \<noteq> [] \<and> ValidateEffectSpec (nd_Effect n) = None \<and>
        distinct (nd_DependsOn n) \<and> set (nd_DependsOn n) \<subseteq> nd_ID ` set (pl_Nodes p)) \<and>
     acyclic (depends_on (pl_Nodes p))"

lemma check_nodes_iff:
  "check_nodes seen ns = None \<longleftrightarrow>
     distinct (map nd_ID ns) \<and> set (map nd_ID ns) \<inter> set seen = {} \<and>
     (\<forall>n\<in>set ns. nd_ID n \<noteq> [] \<and> ValidateEffectSpec (nd_Effect n) = None)"
  by (induction seen ns rule: check_nodes.induct) auto

lemma check_deps_iff:
  "check_deps known n seen ds = None \<longleftrightarrow>
     n \<notin> set ds \<and> set ds \<subseteq> set known \<and> distinct ds \<and> set ds \<inter> set seen = {}"
  by (induction known n seen ds rule: check_deps.induct) auto

lemma check_all_deps_iff:
  "check_all_deps known ns = None \<longleftrightarrow>
     (\<forall>n\<in>set ns. nd_ID n \<notin> set (nd_DependsOn n) \<and> set (nd_DependsOn n) \<subseteq> set known \<and>
        distinct (nd_DependsOn n))"
  by (induction known ns rule: check_all_deps.induct) (auto simp: check_deps_iff)

lemma fold_dep_map:
  "distinct (map nd_ID ns) \<Longrightarrow>
   gomap_get (fold (\<lambda>n m. gomap_put (nd_ID n) (nd_DependsOn n) m) ns m) k =
     (case find (\<lambda>n. nd_ID n = k) ns of Some n \<Rightarrow> Some (nd_DependsOn n) | None \<Rightarrow> gomap_get m k)"
proof (induction ns arbitrary: m)
  case (Cons n ns)
  have "find (\<lambda>n'. nd_ID n' = nd_ID n) ns = None"
    using Cons.prems by (auto simp: find_None_iff image_iff)
  with Cons show ?case by (auto simp: gm.get_put split: option.splits)
qed simp

lemma dep_rel_dep_map: "distinct (map nd_ID ns) \<Longrightarrow> dep_rel (dep_map ns) = depends_on ns"
proof -
  assume d: "distinct (map nd_ID ns)"
  have "b \<in> set (gomap_or [] (dep_map ns) a) \<longleftrightarrow> (a, b) \<in> depends_on ns" for a b
  proof (cases "find (\<lambda>n. nd_ID n = a) ns")
    case None
    then show ?thesis
      using d by (simp add: dep_map_def gomap_or_def fold_dep_map gm.get_empty)
        (auto simp: depends_on_def find_None_iff)
  next
    case (Some n)
    then have n: "n \<in> set ns" "nd_ID n = a" by (auto simp: find_Some_iff)
    have uniq: "n' = n" if "n' \<in> set ns" "nd_ID n' = a" for n'
      using d n that by (metis distinct_map inj_onD)
    have "(a, b) \<in> depends_on ns \<longleftrightarrow> b \<in> set (nd_DependsOn n)"
      unfolding depends_on_def using n uniq by blast
    moreover have "gomap_or [] (dep_map ns) a = nd_DependsOn n"
      using Some d by (simp add: dep_map_def gomap_or_def fold_dep_map)
    ultimately show ?thesis by simp
  qed
  then show ?thesis by (auto simp: dep_rel_def)
qed

lemma hasCycle_iff: "distinct (map nd_ID ns) \<Longrightarrow> hasCycle ns \<longleftrightarrow> \<not> acyclic (depends_on ns)"
  by (simp add: hasCycle_def Let_def cycle_loop_start acyclic_def flip: dep_rel_dep_map)

text \<open>A node with the given identifier and dependencies and no side effect, for examples.\<close>

definition pure_node :: "NodeID \<Rightarrow> NodeID list \<Rightarrow> ExecutionNode" where
  "pure_node i ds =
     \<lparr>nd_ID = i, nd_Type = NodeModel, nd_DependsOn = ds,
      nd_CapabilityRequirement =
        \<lparr>cr_Modality = [], cr_Reasoning = [], cr_Coding = [], cr_Context = [], cr_ToolCalling = [],
         cr_PrivateData = False, cr_LatencyClass = [], cr_ReliabilityClass = []\<rparr>,
      nd_Timeout = 0, nd_RetryPolicy = \<lparr>rp_MaxAttempts = 1, rp_RetryOn = []\<rparr>,
      nd_Effect = \<lparr>ef_Class = EffectPure, ef_IdempotencyKey = [], ef_RetrySafe = True\<rparr>,
      nd_VerificationRequired = False\<rparr>"

lemma pure_node_simps [simp]:
  "nd_ID (pure_node i ds) = i" "nd_DependsOn (pure_node i ds) = ds"
  "nd_Effect (pure_node i ds) = \<lparr>ef_Class = EffectPure, ef_IdempotencyKey = [], ef_RetrySafe = True\<rparr>"
  by (simp_all add: pure_node_def)

text \<open>C14: the depth-first search of \<open>hasCycle\<close> answers true exactly when the dependency
  relation of the nodes has a cycle, and the answer does not depend on the order in which
  the map of nodes is iterated.\<close>

theorem hasCycle_decides:
  assumes "distinct (map nd_ID nodes)" and "set order = fst ` set (dep_map nodes)"
  shows "(hasCycle nodes \<longleftrightarrow> (\<exists>x. (x, x) \<in> (depends_on nodes)\<^sup>+)) \<and>
    cycle_loop (dep_map nodes) order (\<lambda>_. Unseen) = hasCycle nodes"
  using hasCycle_iff [OF assms(1)] cycle_loop_start [OF assms(2)] dep_rel_dep_map [OF assms(1)]
  by (simp add: acyclic_def)

theorem hasCycle_decides_witness:
  "hasCycle [pure_node ''a'' [''b''], pure_node ''b'' [''a'']] \<and>
   cycle_loop (dep_map [pure_node ''a'' [''b''], pure_node ''b'' [''a'']]) [''b'', ''a''] (\<lambda>_. Unseen)"
proof -
  let ?ns = "[pure_node ''a'' [''b''], pure_node ''b'' [''a'']]"
  have d: "distinct (map nd_ID ?ns)" by simp
  have o: "set [''b'', ''a''] = fst ` set (dep_map ?ns)"
    by (auto simp: dep_map_def gomap_put_def)
  have "(''a'', ''b'') \<in> depends_on ?ns" "(''b'', ''a'') \<in> depends_on ?ns"
    by (force simp: depends_on_def)+
  then have "(''a'', ''a'') \<in> (depends_on ?ns)\<^sup>+" by (meson trancl.simps)
  then show ?thesis using hasCycle_decides [OF d o] by blast
qed

lemma ValidatePlan_plan_ok: "ValidatePlan plan = None \<longleftrightarrow> plan_ok plan"
proof -
  have "nd_ID n \<notin> set (nd_DependsOn n)"
    if "acyclic (depends_on ns)" "n \<in> set ns" for n ns
    using that by (auto simp: acyclic_def depends_on_def)
  then show ?thesis
    by (auto simp: ValidatePlan_def plan_ok_def check_nodes_iff check_all_deps_iff hasCycle_iff
        simp del: check_nodes.simps)
qed

text \<open>C17: \<open>ValidatePlan\<close> accepts a plan exactly when it satisfies the declarative
  specification of a bounded DAG: identifiers present and distinct, every effect
  contract kept, dependencies known and listed once, and no dependency cycle.\<close>

theorem ValidatePlan_iff: "ValidatePlan plan = None \<longleftrightarrow> plan_ok plan"
  by (rule ValidatePlan_plan_ok)

end
