(* ===== verification/Exec_Supervisor.thy ===== *)
theory Exec_Supervisor
  imports Exec_Budget Exec_Plan
begin

text \<open>
  The supervisor (src/execution/supervisor.go): which nodes of a plan may run next.
  The policy evaluator, the target resolver and the cost estimator are interfaces of the
  source with no implementation there; they are the function fields of the supervisor
  record, and what a call of them returns is all the model says about them.
  \<open>PrepareRunnable\<close> has no effect, so it is a function; \<open>SelectRunnable\<close> returns the ledger it
  leaves. Both return the three results of the source. \<open>sort.Slice\<close> on distinct
  identifiers has one result, \<^term>\<open>sort_key nd_ID\<close>.
\<close>

section \<open>Operations\<close>

record PreparedNode =
  pn_Node :: ExecutionNode
  pn_Target :: ExecutionTarget
  pn_Policy :: PolicyDecisionRecord
  pn_Estimate :: BudgetEstimate

record ReadyNode =
  rn_Node :: ExecutionNode
  rn_Target :: ExecutionTarget
  rn_Policy :: PolicyDecisionRecord
  rn_Reservation :: "BudgetReservation option"

record Supervisor =
  sv_policy :: "Execution \<Rightarrow> ExecutionNode \<Rightarrow> goerr + PolicyDecisionRecord"
  sv_resolver :: "Execution \<Rightarrow> ExecutionNode \<Rightarrow> goerr + ExecutionTarget"
  sv_estimator :: "Execution \<Rightarrow> ExecutionNode \<Rightarrow> ExecutionTarget \<Rightarrow> goerr + BudgetEstimate"

type_synonym runtimes = "(NodeID, NodeState) gomap"

definition ErrExecutionNotRunnable :: goerr where
  "ErrExecutionNotRunnable = ErrNew ''execution is not runnable''"

definition ErrPlanNotReady :: goerr where
  "ErrPlanNotReady = ErrNew ''plan has no runnable nodes''"

definition ErrPolicyApproval :: goerr where
  "ErrPolicyApproval = ErrNew ''policy requires approval''"

definition ErrPolicyRejected :: goerr where
  "ErrPolicyRejected = ErrNew ''policy denied action''"

definition runtime_state :: "runtimes \<Rightarrow> NodeID \<Rightarrow> NodeState" where
  "runtime_state rt i = gomap_or (NodeStateOther []) rt i"

definition dependenciesSucceeded :: "ExecutionNode \<Rightarrow> runtimes \<Rightarrow> bool" where
  "dependenciesSucceeded n rt \<longleftrightarrow> list_all (\<lambda>d. runtime_state rt d = NodeSucceeded) (nd_DependsOn n)"

definition hasActiveOrWaitingNodes :: "runtimes \<Rightarrow> bool" where
  "hasActiveOrWaitingNodes rt \<longleftrightarrow>
     list_ex (\<lambda>(_, s). s = NodeRunning \<or> s = NodeWaitingApproval \<or> s = NodeBlocked) rt"

definition nextAttemptNumber :: "NodeID \<Rightarrow> runtimes \<Rightarrow> int" where
  "nextAttemptNumber _ _ = 1"

definition new_condition :: "ConditionType \<Rightarrow> NodeID \<Rightarrow> string \<Rightarrow> ExecutionCondition" where
  "new_condition t n reason =
     \<lparr>cond_Type = t, cond_Status = True, cond_NodeRef = n, cond_Reason = reason, cond_UpdatedAt = 0\<rparr>"

text \<open>One round of the loop of \<open>PrepareRunnable\<close>: the node is skipped, contributes a
  condition, is prepared, or the whole call fails.\<close>

datatype node_step = Skip | Cond ExecutionCondition | Prep PreparedNode | Fail goerr

definition eligible :: "runtimes \<Rightarrow> ExecutionNode \<Rightarrow> bool" where
  "eligible rt n \<longleftrightarrow>
     (let s = runtime_state rt (nd_ID n); state = (if s = NodeStateOther [] then NodePending else s)
      in (state = NodePending \<or> state = NodeReady) \<and> dependenciesSucceeded n rt)"

definition prepare_node :: "Supervisor \<Rightarrow> Execution \<Rightarrow> runtimes \<Rightarrow> ExecutionNode \<Rightarrow> node_step" where
  "prepare_node sv ex rt n =
     (if \<not> eligible rt n then Skip
      else case sv_policy sv ex n of
        Inl e \<Rightarrow> Fail (Errorf (''policy evaluate node '' @ nd_ID n @ '': %w'') [e])
      | Inr policy \<Rightarrow>
          (case pd_Decision policy of
             PolicyDeny \<Rightarrow> Cond (new_condition ConditionPartiallyBlocked (nd_ID n) (err_text ErrPolicyRejected))
           | PolicyRequireApproval \<Rightarrow>
               Cond (new_condition ConditionApprovalRequired (nd_ID n) (err_text ErrPolicyApproval))
           | PolicyDecisionOther d \<Rightarrow>
               Fail (Errorf (''node '' @ nd_ID n @ '' returned unknown policy decision '' @ quoted d) [])
           | PolicyAllow \<Rightarrow>
               (case sv_resolver sv ex n of
                  Inl e \<Rightarrow> Cond (new_condition ConditionTargetDegraded (nd_ID n) (err_text e))
                | Inr target \<Rightarrow>
                    (case sv_estimator sv ex n target of
                       Inl e \<Rightarrow> Fail (Errorf (''estimate node '' @ nd_ID n @ '': %w'') [e])
                     | Inr est \<Rightarrow>
                         Prep \<lparr>pn_Node = n, pn_Target = target, pn_Policy = policy, pn_Estimate = est\<rparr>))))"

fun prepare_loop ::
  "Supervisor \<Rightarrow> Execution \<Rightarrow> runtimes \<Rightarrow> ExecutionNode list \<Rightarrow> PreparedNode list
     \<Rightarrow> ExecutionCondition list \<Rightarrow> PreparedNode list \<times> ExecutionCondition list \<times> goerr option" where
  "prepare_loop sv ex rt [] ps cs = (ps, cs, None)"
| "prepare_loop sv ex rt (n # ns) ps cs =
     (case prepare_node sv ex rt n of
        Skip \<Rightarrow> prepare_loop sv ex rt ns ps cs
      | Cond c \<Rightarrow> prepare_loop sv ex rt ns ps (cs @ [c])
      | Prep p \<Rightarrow> prepare_loop sv ex rt ns (ps @ [p]) cs
      | Fail e \<Rightarrow> ([], cs, Some e))"

definition PrepareRunnable ::
  "Supervisor \<Rightarrow> Execution \<Rightarrow> ExecutionPlan \<Rightarrow> runtimes
     \<Rightarrow> PreparedNode list \<times> ExecutionCondition list \<times> goerr option" where
  "PrepareRunnable sv ex plan rt =
     (if es_Phase (ex_Status ex) \<noteq> ExecutionRunning \<and> es_Phase (ex_Status ex) \<noteq> ExecutionReady
      then ([], [], Some ErrExecutionNotRunnable)
      else case prepare_loop sv ex rt (sort_key nd_ID (pl_Nodes plan)) [] [] of
        (ps, cs, Some e) \<Rightarrow> (ps, cs, Some e)
      | (ps, cs, None) \<Rightarrow>
          if ps = [] \<and> cs = []
          then (if hasActiveOrWaitingNodes rt then ([], [], None) else ([], [], Some ErrPlanNotReady))
          else (ps, cs, None))"

definition reservation_id :: "ExecutionID \<Rightarrow> NodeID \<Rightarrow> int \<Rightarrow> string" where
  "reservation_id ex n k = ex @ ''/'' @ n @ ''/'' @ int_str k"

definition ready_node :: "PreparedNode \<Rightarrow> BudgetReservation \<Rightarrow> ReadyNode" where
  "ready_node p r =
     \<lparr>rn_Node = pn_Node p, rn_Target = pn_Target p, rn_Policy = pn_Policy p, rn_Reservation = Some r\<rparr>"

fun select_loop ::
  "Execution \<Rightarrow> runtimes \<Rightarrow> PreparedNode list \<Rightarrow> ReadyNode list \<Rightarrow> ExecutionCondition list \<Rightarrow> BudgetLedger
     \<Rightarrow> (ReadyNode list \<times> ExecutionCondition list \<times> goerr option) \<times> BudgetLedger" where
  "select_loop ex rt [] rs cs l = ((rs, cs, None), l)"
| "select_loop ex rt (p # ps) rs cs l =
     (let nid = nd_ID (pn_Node p);
          i = reservation_id (ex_ID ex) nid (nextAttemptNumber nid rt)
      in case Reserve i (ex_ID ex) nid (pn_Estimate p) l of
           (Inl e, l') \<Rightarrow>
             if errors_Is e ErrBudgetExceeded
             then select_loop ex rt ps rs (cs @ [new_condition ConditionBudgetPressure nid (err_text e)]) l'
             else (([], cs, Some e), l')
         | (Inr r, l') \<Rightarrow>
             select_loop ex rt ps
               (rs @ [ready_node p r]) cs l')"

definition SelectRunnable ::
  "Supervisor \<Rightarrow> Execution \<Rightarrow> ExecutionPlan \<Rightarrow> runtimes \<Rightarrow> BudgetLedger
     \<Rightarrow> (ReadyNode list \<times> ExecutionCondition list \<times> goerr option) \<times> BudgetLedger" where
  "SelectRunnable sv ex plan rt l =
     (case PrepareRunnable sv ex plan rt of
        (_, cs, Some e) \<Rightarrow> (([], cs, Some e), l)
      | (ps, cs, None) \<Rightarrow> select_loop ex rt ps [] cs l)"

section \<open>What is prepared\<close>

fun prep_of :: "node_step \<Rightarrow> PreparedNode option" where
  "prep_of (Prep p) = Some p"
| "prep_of _ = None"

fun cond_of :: "node_step \<Rightarrow> ExecutionCondition option" where
  "cond_of (Cond c) = Some c"
| "cond_of _ = None"

lemma step_of_Some [simp]: "prep_of s = Some p \<longleftrightarrow> s = Prep p" "cond_of s = Some c \<longleftrightarrow> s = Cond c"
  by (cases s; simp)+

lemma prepare_node_Prep_iff:
  "prepare_node sv ex rt n = Prep p \<longleftrightarrow>
     n = pn_Node p \<and> eligible rt n \<and> sv_policy sv ex n = Inr (pn_Policy p) \<and>
     pd_Decision (pn_Policy p) = PolicyAllow \<and> sv_resolver sv ex n = Inr (pn_Target p) \<and>
     sv_estimator sv ex n (pn_Target p) = Inr (pn_Estimate p)"
  by (auto simp: prepare_node_def split: sum.splits PolicyDecision.splits)

lemma prepare_node_Skip_iff: "prepare_node sv ex rt n = Skip \<longleftrightarrow> \<not> eligible rt n"
  by (auto simp: prepare_node_def split: sum.splits PolicyDecision.splits)

lemma prepare_node_Cond:
  "prepare_node sv ex rt n = Cond c \<Longrightarrow> cond_NodeRef c = nd_ID n \<and> eligible rt n"
  by (auto simp: prepare_node_def new_condition_def split: sum.splits PolicyDecision.splits if_splits)

lemma prepare_loop_None_iff:
  "prepare_loop sv ex rt ns ps cs = (ps', cs', None) \<longleftrightarrow>
     (\<forall>n\<in>set ns. \<forall>e. prepare_node sv ex rt n \<noteq> Fail e) \<and>
     ps' = ps @ List.map_filter (\<lambda>n. prep_of (prepare_node sv ex rt n)) ns \<and>
     cs' = cs @ List.map_filter (\<lambda>n. cond_of (prepare_node sv ex rt n)) ns"
  by (induction ns arbitrary: ps cs) (auto simp: List.map_filter_simps split: node_step.splits)

lemma prepare_loop_Some:
  "prepare_loop sv ex rt ns ps cs = (ps', cs', Some e) \<Longrightarrow>
     ps' = [] \<and> (\<exists>n\<in>set ns. prepare_node sv ex rt n = Fail e)"
  by (induction ns arbitrary: ps cs) (auto split: node_step.splits)

lemma PrepareRunnable_None_cases:
  assumes "PrepareRunnable sv ex plan rt = (ps, cs, None)"
  shows "\<forall>n\<in>set (pl_Nodes plan). \<forall>e. prepare_node sv ex rt n \<noteq> Fail e"
    and "ps = List.map_filter (\<lambda>n. prep_of (prepare_node sv ex rt n)) (sort_key nd_ID (pl_Nodes plan))"
    and "cs = List.map_filter (\<lambda>n. cond_of (prepare_node sv ex rt n)) (sort_key nd_ID (pl_Nodes plan))"
proof -
  obtain ps' cs' r where l: "prepare_loop sv ex rt (sort_key nd_ID (pl_Nodes plan)) [] [] = (ps', cs', r)"
    by (metis prod_cases3)
  have r: "r = None" "ps = ps'" "cs = cs'"
    using assms l by (auto simp: PrepareRunnable_def split: if_splits option.splits)
  have "prepare_loop sv ex rt (sort_key nd_ID (pl_Nodes plan)) [] [] = (ps, cs, None)"
    using l r by simp
  then show "\<forall>n\<in>set (pl_Nodes plan). \<forall>e. prepare_node sv ex rt n \<noteq> Fail e"
    and "ps = List.map_filter (\<lambda>n. prep_of (prepare_node sv ex rt n)) (sort_key nd_ID (pl_Nodes plan))"
    and "cs = List.map_filter (\<lambda>n. cond_of (prepare_node sv ex rt n)) (sort_key nd_ID (pl_Nodes plan))"
    by (auto simp: prepare_loop_None_iff)
qed

lemma prepared_iff:
  assumes "PrepareRunnable sv ex plan rt = (ps, cs, None)"
  shows "p \<in> set ps \<longleftrightarrow> (\<exists>n\<in>set (pl_Nodes plan). prepare_node sv ex rt n = Prep p)"
    and "c \<in> set cs \<longleftrightarrow> (\<exists>n\<in>set (pl_Nodes plan). prepare_node sv ex rt n = Cond c)"
  unfolding PrepareRunnable_None_cases(2,3) [OF assms]
  by (simp_all add: set_map_filter)

text \<open>A node that may run now, read off the recorded states: nothing, the empty state, pending
  or ready is recorded for it, and succeeded is recorded for each of its dependencies.\<close>

definition may_run :: "runtimes \<Rightarrow> ExecutionNode \<Rightarrow> bool" where
  "may_run rt n \<longleftrightarrow>
     gomap_get rt (nd_ID n) \<in> {None, Some (NodeStateOther []), Some NodePending, Some NodeReady} \<and>
     (\<forall>d\<in>set (nd_DependsOn n). gomap_get rt d = Some NodeSucceeded)"

lemma eligible_may_run: "eligible rt n \<longleftrightarrow> may_run rt n"
proof -
  have "dependenciesSucceeded n rt \<longleftrightarrow> (\<forall>d\<in>set (nd_DependsOn n). gomap_get rt d = Some NodeSucceeded)"
    by (auto simp: dependenciesSucceeded_def list_all_iff runtime_state_def gomap_or_def split: option.splits)
  moreover have "(let s = runtime_state rt (nd_ID n); state = (if s = NodeStateOther [] then NodePending else s)
      in state = NodePending \<or> state = NodeReady) \<longleftrightarrow>
      gomap_get rt (nd_ID n) \<in> {None, Some (NodeStateOther []), Some NodePending, Some NodeReady}"
    by (auto simp: Let_def runtime_state_def gomap_or_def split: option.splits)
  ultimately show ?thesis by (auto simp: eligible_def may_run_def Let_def)
qed

text \<open>C19: when \<open>PrepareRunnable\<close> reports no error, the prepared nodes are exactly the nodes of
  the plan that are unrecorded, pending or ready, whose dependencies are all recorded as
  succeeded, that policy allows, and for which a target and an estimate were found, each with
  those values, in ascending order of identifier; every other node that is unrecorded, pending
  or ready with succeeded dependencies is reported by a condition that names it, and every
  condition names such a node.\<close>

theorem PrepareRunnable_exact:
  assumes "PrepareRunnable sv ex plan rt = (ps, cs, None)"
  shows "sorted (map (\<lambda>p. nd_ID (pn_Node p)) ps) \<and>
    (\<forall>p. p \<in> set ps \<longleftrightarrow>
       pn_Node p \<in> set (pl_Nodes plan) \<and>
       gomap_get rt (nd_ID (pn_Node p)) \<in> {None, Some (NodeStateOther []), Some NodePending, Some NodeReady} \<and>
       (\<forall>d\<in>set (nd_DependsOn (pn_Node p)). gomap_get rt d = Some NodeSucceeded) \<and>
       sv_policy sv ex (pn_Node p) = Inr (pn_Policy p) \<and> pd_Decision (pn_Policy p) = PolicyAllow \<and>
       sv_resolver sv ex (pn_Node p) = Inr (pn_Target p) \<and>
       sv_estimator sv ex (pn_Node p) (pn_Target p) = Inr (pn_Estimate p)) \<and>
    (\<forall>n\<in>set (pl_Nodes plan). may_run rt n \<longrightarrow>
       (\<exists>p\<in>set ps. pn_Node p = n) \<or> (\<exists>c\<in>set cs. cond_NodeRef c = nd_ID n)) \<and>
    (\<forall>c\<in>set cs. \<exists>n\<in>set (pl_Nodes plan). may_run rt n \<and> cond_NodeRef c = nd_ID n)"
proof (intro conjI allI ballI impI)
  show "sorted (map (\<lambda>p. nd_ID (pn_Node p)) ps)"
    unfolding PrepareRunnable_None_cases(2) [OF assms]
    by (rule map_filter_sorted [OF sorted_sort_key]) (simp add: prepare_node_Prep_iff)
next
  fix c assume "c \<in> set cs"
  then show "\<exists>n\<in>set (pl_Nodes plan). may_run rt n \<and> cond_NodeRef c = nd_ID n"
    using prepare_node_Cond unfolding prepared_iff [OF assms] eligible_may_run by metis
next
  fix n assume n: "n \<in> set (pl_Nodes plan)" and "may_run rt n"
  then have "eligible rt n" by (simp add: eligible_may_run)
  then have "prepare_node sv ex rt n \<noteq> Skip" by (simp add: prepare_node_Skip_iff)
  with PrepareRunnable_None_cases(1) [OF assms] n
  consider p where "prepare_node sv ex rt n = Prep p" | c where "prepare_node sv ex rt n = Cond c"
    by (cases "prepare_node sv ex rt n") auto
  then show "(\<exists>p\<in>set ps. pn_Node p = n) \<or> (\<exists>c\<in>set cs. cond_NodeRef c = nd_ID n)"
  proof cases
    case (1 p)
    then have "p \<in> set ps" "pn_Node p = n"
      using n by (auto simp: prepared_iff [OF assms]) (simp add: prepare_node_Prep_iff)
    then show ?thesis by blast
  next
    case (2 c)
    then have "c \<in> set cs" "cond_NodeRef c = nd_ID n"
      using n prepare_node_Cond by (auto simp: prepared_iff [OF assms])
    then show ?thesis by blast
  qed
next
  fix p
  show "p \<in> set ps \<longleftrightarrow> pn_Node p \<in> set (pl_Nodes plan) \<and>
       gomap_get rt (nd_ID (pn_Node p)) \<in> {None, Some (NodeStateOther []), Some NodePending, Some NodeReady} \<and>
       (\<forall>d\<in>set (nd_DependsOn (pn_Node p)). gomap_get rt d = Some NodeSucceeded) \<and>
       sv_policy sv ex (pn_Node p) = Inr (pn_Policy p) \<and> pd_Decision (pn_Policy p) = PolicyAllow \<and>
       sv_resolver sv ex (pn_Node p) = Inr (pn_Target p) \<and>
       sv_estimator sv ex (pn_Node p) (pn_Target p) = Inr (pn_Estimate p)"
    unfolding prepared_iff [OF assms] prepare_node_Prep_iff eligible_may_run may_run_def by blast
qed

section \<open>Progress\<close>

lemma finite_depends_on: "finite (depends_on ns)"
proof -
  have "depends_on ns \<subseteq> (\<Union>n\<in>set ns. {nd_ID n} \<times> set (nd_DependsOn n))"
    by (auto simp: depends_on_def)
  then show ?thesis by (rule finite_subset) simp
qed

lemma some_eligible:
  assumes ok: "plan_ok plan" and n0: "n0 \<in> set (pl_Nodes plan)"
    "runtime_state rt (nd_ID n0) \<noteq> NodeSucceeded"
    and st: "\<forall>n\<in>set (pl_Nodes plan). runtime_state rt (nd_ID n) \<in>
      {NodeStateOther [], NodePending, NodeReady, NodeSucceeded}"
  shows "\<exists>n\<in>set (pl_Nodes plan). eligible rt n"
proof -
  let ?r = "(depends_on (pl_Nodes plan))\<inverse>"
  let ?Q = "{nd_ID n | n. n \<in> set (pl_Nodes plan) \<and> runtime_state rt (nd_ID n) \<noteq> NodeSucceeded}"
  have "wf ?r" using ok by (intro finite_acyclic_wf_converse finite_depends_on) (simp add: plan_ok_def)
  moreover have "nd_ID n0 \<in> ?Q" using n0 by blast
  ultimately obtain z where z: "z \<in> ?Q" and min: "\<And>y. (y, z) \<in> ?r \<Longrightarrow> y \<notin> ?Q"
    by (rule wfE_min) blast
  from z obtain n where n: "n \<in> set (pl_Nodes plan)" "z = nd_ID n"
    "runtime_state rt (nd_ID n) \<noteq> NodeSucceeded" by blast
  have "runtime_state rt d = NodeSucceeded" if d: "d \<in> set (nd_DependsOn n)" for d
  proof -
    have "d \<in> nd_ID ` set (pl_Nodes plan)" using ok n(1) d by (auto simp: plan_ok_def)
    moreover have "d \<notin> ?Q" using min [of d] d n by (auto simp: depends_on_def)
    ultimately show ?thesis by blast
  qed
  then have "eligible rt n"
    using st n by (auto simp: eligible_def Let_def dependenciesSucceeded_def list_all_iff)
  with n(1) show ?thesis by blast
qed

text \<open>C20: a validated plan never gets stuck by itself. As long as the execution is ready or
  running, some node has not succeeded and every node is pending, ready or succeeded
  (a node not recorded yet counts as pending; a failed, skipped or cancelled node can block the
  rest), \<open>PrepareRunnable\<close> either offers a node,
  reports a condition, or passes on an error of the policy evaluator or the estimator; it
  never answers that the plan has no runnable node.\<close>

theorem PrepareRunnable_progress:
  assumes "ValidatePlan plan = None"
    and "es_Phase (ex_Status ex) \<in> {ExecutionReady, ExecutionRunning}"
    and "\<forall>n\<in>set (pl_Nodes plan). runtime_state rt (nd_ID n) \<in>
      {NodeStateOther [], NodePending, NodeReady, NodeSucceeded}"
    and "\<exists>n\<in>set (pl_Nodes plan). runtime_state rt (nd_ID n) \<noteq> NodeSucceeded"
    and "PrepareRunnable sv ex plan rt = (ps, cs, r)"
  shows "(r = None \<and> (ps \<noteq> [] \<or> cs \<noteq> [])) \<or>
    (\<exists>n e. n \<in> set (pl_Nodes plan) \<and> r = Some e \<and> prepare_node sv ex rt n = Fail e)"
proof -
  obtain n where n: "n \<in> set (pl_Nodes plan)" "eligible rt n"
    using some_eligible assms(1,3,4) ValidatePlan_plan_ok by blast
  then have ns: "prepare_node sv ex rt n \<noteq> Skip" by (simp add: prepare_node_Skip_iff)
  obtain ps' cs' r' where l: "prepare_loop sv ex rt (sort_key nd_ID (pl_Nodes plan)) [] [] = (ps', cs', r')"
    by (metis prod_cases3)
  show ?thesis
  proof (cases r')
    case None
    then have "prepare_node sv ex rt n \<noteq> Fail e" for e
      using l n by (auto simp: prepare_loop_None_iff)
    then have "(\<exists>p. p \<in> set ps') \<or> (\<exists>c. c \<in> set cs')"
      using l None n ns by (cases "prepare_node sv ex rt n") (auto simp: prepare_loop_None_iff set_map_filter)
    then have "ps' \<noteq> [] \<or> cs' \<noteq> []" by auto
    then show ?thesis using l None assms(2,5) by (auto simp: PrepareRunnable_def split: if_splits)
  next
    case (Some e)
    have "\<exists>n\<in>set (pl_Nodes plan). prepare_node sv ex rt n = Fail e"
      using prepare_loop_Some [OF l [unfolded Some]] by simp
    moreover have "r = Some e" using assms(2,5) l Some by (auto simp: PrepareRunnable_def)
    ultimately show ?thesis by blast
  qed
qed

section \<open>Reserving for the selected nodes\<close>

text \<open>The reservations a selection makes are the openings of the ledger, so what the ledger
  keeps for every reservation id is what the selection leaves.\<close>

definition reserved_for :: "BudgetLedger \<Rightarrow> ReadyNode \<Rightarrow> bool" where
  "reserved_for l r \<longleftrightarrow>
     (\<exists>v. rn_Reservation r = Some v \<and> gomap_get (lg_reservations l) (br_ID v) = Some v \<and>
        \<not> br_Closed v \<and> br_NodeRef v = nd_ID (rn_Node r))"

definition ready_id :: "ReadyNode \<Rightarrow> string" where
  "ready_id r = (case rn_Reservation r of None \<Rightarrow> [] | Some v \<Rightarrow> br_ID v)"

definition ready_amount :: "(BudgetEstimate \<Rightarrow> int) \<Rightarrow> ReadyNode \<Rightarrow> int" where
  "ready_amount b r = (case rn_Reservation r of None \<Rightarrow> 0 | Some v \<Rightarrow> b (br_Estimate v))"

lemma Reserve_granted:
  assumes "Reserve i ex nd e l = (Inr v, l')"
  shows "v = \<lparr>br_ID = i, br_ExecutionRef = ex, br_NodeRef = nd, br_Estimate = e, br_Closed = False\<rparr>"
    and "gomap_get (lg_reservations l) i = None"
    and "lg_reservations l' = gomap_put i v (lg_reservations l)"
  using assms by (auto simp: Reserve_def Let_def split: if_splits option.splits)

lemma Reserve_refused: "Reserve i ex nd e l = (Inl x, l') \<Longrightarrow> l' = l"
  by (auto simp: Reserve_def Let_def split: if_splits option.splits)

lemma Reserve_dup:
  "gomap_get (lg_reservations l) i \<noteq> None \<Longrightarrow>
   \<exists>x. Reserve i ex nd e l = (Inl x, l) \<and> \<not> errors_Is x ErrBudgetExceeded"
  by (auto simp: Reserve_def ErrBudgetExceeded_def)

definition sel_inv :: "BudgetLedger \<Rightarrow> BudgetLedger \<Rightarrow> ReadyNode list \<Rightarrow> bool" where
  "sel_inv l0 l rs \<longleftrightarrow>
     (\<forall>r\<in>set rs. reserved_for l r \<and> gomap_get (lg_reservations l0) (ready_id r) = None) \<and>
     distinct (map ready_id rs) \<and>
     (\<forall>i. i \<notin> ready_id ` set rs \<longrightarrow> gomap_get (lg_reservations l) i = gomap_get (lg_reservations l0) i) \<and>
     (\<forall>b. open_sum b l = open_sum b l0 + sum_list (map (ready_amount b) rs))"

lemma sel_inv_step:
  assumes I: "sel_inv l0 l rs" and R: "Reserve i ex nd e l = (Inr v, l')"
    and r: "rn_Reservation r = Some v" "nd_ID (rn_Node r) = nd"
  shows "sel_inv l0 l' (rs @ [r])"
proof -
  note g = Reserve_granted [OF R]
  have v: "br_ID v = i" "\<not> br_Closed v" "br_NodeRef v = nd" using g(1) by simp_all
  have id: "ready_id r = i" using r v by (simp add: ready_id_def)
  have new: "i \<notin> ready_id ` set rs"
    using I g(2) by (auto simp: sel_inv_def reserved_for_def ready_id_def)
  then have n0: "gomap_get (lg_reservations l0) i = None" using I g(2) by (metis sel_inv_def)
  have keep: "reserved_for l' q" if "q \<in> set rs" for q
  proof -
    have "reserved_for l q" using I that by (simp add: sel_inv_def)
    moreover have "ready_id q \<noteq> i" using new that by blast
    ultimately show ?thesis by (auto simp: reserved_for_def ready_id_def g(3) gm.get_put)
  qed
  have "reserved_for l' r" using r v by (simp add: reserved_for_def g(3))
  moreover have "open_sum b l' = open_sum b l + ready_amount b r" for b
    using open_sum_put_new [OF g(2,3) v(2)] r by (simp add: ready_amount_def)
  ultimately show ?thesis
    using I keep new n0 unfolding sel_inv_def by (auto simp: id g(3) gm.get_put)
qed

lemma select_loop_Cons:
  assumes "select_loop ex rt (p # ps) rs cs l = ((rs', cs', None), l')"
  shows "\<exists>i. (\<exists>v l1. Reserve i (ex_ID ex) (nd_ID (pn_Node p)) (pn_Estimate p) l = (Inr v, l1) \<and>
      select_loop ex rt ps (rs @ [ready_node p v]) cs l1 = ((rs', cs', None), l')) \<or>
    (\<exists>t. select_loop ex rt ps rs (cs @ [new_condition ConditionBudgetPressure (nd_ID (pn_Node p)) t]) l =
      ((rs', cs', None), l'))"
proof (cases "Reserve (reservation_id (ex_ID ex) (nd_ID (pn_Node p)) (nextAttemptNumber (nd_ID (pn_Node p)) rt))
    (ex_ID ex) (nd_ID (pn_Node p)) (pn_Estimate p) l")
  case (Pair x l1)
  show ?thesis
  proof (cases x)
    case (Inl e)
    then have "l1 = l" using Pair Reserve_refused by blast
    with Inl Pair assms show ?thesis by (auto simp: Let_def split: if_splits)
  next
    case (Inr v)
    with Pair assms show ?thesis by (auto simp: Let_def)
  qed
qed

lemma select_loop_inv:
  "select_loop ex rt ps rs cs l = ((rs', cs', None), l') \<Longrightarrow> sel_inv l0 l rs \<Longrightarrow> sel_inv l0 l' rs'"
proof (induction ps arbitrary: rs cs l)
  case (Cons p ps)
  have "sel_inv l0 l1 (rs @ [ready_node p v])"
    if "Reserve i (ex_ID ex) (nd_ID (pn_Node p)) (pn_Estimate p) l = (Inr v, l1)" for i v l1
    by (rule sel_inv_step [OF Cons.prems(2) that]) (simp_all add: ready_node_def)
  with select_loop_Cons [OF Cons.prems(1)] Cons.IH Cons.prems(2) show ?case by blast
qed simp

definition covered :: "ReadyNode list \<Rightarrow> ExecutionCondition list \<Rightarrow> PreparedNode \<Rightarrow> bool" where
  "covered rs cs p \<longleftrightarrow>
     (\<exists>v. ready_node p v \<in> set rs) \<or>
     (\<exists>t. new_condition ConditionBudgetPressure (nd_ID (pn_Node p)) t \<in> set cs)"

lemma select_loop_covers:
  "select_loop ex rt ps rs cs l = ((rs', cs', None), l') \<Longrightarrow>
   set rs \<subseteq> set rs' \<and> set cs \<subseteq> set cs' \<and> (\<forall>p\<in>set ps. covered rs' cs' p)"
proof (induction ps arbitrary: rs cs l)
  case (Cons p ps)
  from select_loop_Cons [OF Cons.prems] consider
    v l1 where "select_loop ex rt ps (rs @ [ready_node p v]) cs l1 = ((rs', cs', None), l')"
  | t where "select_loop ex rt ps rs (cs @ [new_condition ConditionBudgetPressure (nd_ID (pn_Node p)) t]) l =
      ((rs', cs', None), l')" by blast
  then show ?case
  proof cases
    case 1
    from Cons.IH [OF this] show ?thesis by (auto simp: covered_def)
  next
    case 2
    from Cons.IH [OF this] show ?thesis by (auto simp: covered_def)
  qed
qed simp

lemma SelectRunnable_loop:
  assumes "SelectRunnable sv ex plan rt l = ((rs, cs, None), l')"
  obtains ps cs0 where "PrepareRunnable sv ex plan rt = (ps, cs0, None)"
    and "select_loop ex rt ps [] cs0 l = ((rs, cs, None), l')"
  using assms by (auto simp: SelectRunnable_def split: prod.splits option.splits)

lemma SelectRunnable_inv: "SelectRunnable sv ex plan rt l = ((rs, cs, None), l') \<Longrightarrow> sel_inv l l' rs"
  by (erule SelectRunnable_loop, erule select_loop_inv) (simp add: sel_inv_def)

text \<open>C21: a successful selection reserves for exactly the nodes it returns. Every returned
  node holds an open reservation of its own, under an identifier the ledger did not know
  before; every other reservation is as it was; the open amounts grow by exactly the
  estimates of the returned nodes; and every prepared node that is not returned is
  reported under budget pressure.\<close>

theorem SelectRunnable_reserves:
  assumes "SelectRunnable sv ex plan rt l = ((rs, cs, None), l')"
  shows "(\<forall>r\<in>set rs. reserved_for l' r \<and> gomap_get (lg_reservations l) (ready_id r) = None) \<and>
    distinct (map ready_id rs) \<and>
    (\<forall>i. i \<notin> ready_id ` set rs \<longrightarrow> gomap_get (lg_reservations l') i = gomap_get (lg_reservations l) i) \<and>
    (\<forall>b. open_sum b l' = open_sum b l + sum_list (map (ready_amount b) rs)) \<and>
    (\<forall>p\<in>set (fst (PrepareRunnable sv ex plan rt)). covered rs cs p)"
proof -
  obtain ps cs0 where p: "PrepareRunnable sv ex plan rt = (ps, cs0, None)"
    and s: "select_loop ex rt ps [] cs0 l = ((rs, cs, None), l')"
    using assms by (rule SelectRunnable_loop)
  from SelectRunnable_inv [OF assms] select_loop_covers [OF s] p show ?thesis by (simp add: sel_inv_def)
qed

section \<open>Selecting a node twice\<close>

abbreviation first_reservation :: "Execution \<Rightarrow> ExecutionNode \<Rightarrow> string" where
  "first_reservation ex n \<equiv> reservation_id (ex_ID ex) (nd_ID n) 1"

lemma Reserve_keeps:
  "gomap_get (lg_reservations l) i \<noteq> None \<Longrightarrow>
   gomap_get (lg_reservations (snd (Reserve j ex nd e l))) i \<noteq> None"
  by (auto simp: Reserve_def Let_def gm.get_put split: option.splits)

lemma ledger_run_keeps:
  "gomap_get (lg_reservations l) i \<noteq> None \<Longrightarrow> gomap_get (lg_reservations (ledger_run l xs)) i \<noteq> None"
proof (induction xs arbitrary: l)
  case (Cons x xs)
  have "gomap_get (lg_reservations (ledger_step x l)) i \<noteq> None"
    using Cons.prems Reserve_keeps
    by (cases x) (auto simp: Settle_def Release_def gm.get_put split: option.splits)
  with Cons.IH show ?case by simp
qed simp

lemma select_loop_dup:
  assumes "p \<in> set ps" and "gomap_get (lg_reservations l) (first_reservation ex (pn_Node p)) \<noteq> None"
  shows "\<exists>cs' e l'. select_loop ex rt ps rs cs l = (([], cs', Some e), l')"
  using assms
proof (induction ps arbitrary: rs cs l)
  case (Cons q ps)
  let ?R = "Reserve (first_reservation ex (pn_Node q)) (ex_ID ex) (nd_ID (pn_Node q)) (pn_Estimate q) l"
  obtain x l1 where R: "?R = (x, l1)" by fastforce
  have keep: "gomap_get (lg_reservations l1) (first_reservation ex (pn_Node p)) \<noteq> None"
    using Reserve_keeps [OF Cons.prems(2), of "first_reservation ex (pn_Node q)"] R by (metis snd_conv)
  show ?case
  proof (cases "p = q")
    case True
    then obtain e where "?R = (Inl e, l)" "\<not> errors_Is e ErrBudgetExceeded"
      using Cons.prems(2) Reserve_dup by blast
    then show ?thesis by (simp add: Let_def nextAttemptNumber_def)
  next
    case False
    then have "p \<in> set ps" using Cons.prems(1) by simp
    note IH = Cons.IH [OF this keep]
    from R IH show ?thesis by (cases x) (auto simp: Let_def nextAttemptNumber_def)
  qed
qed simp

lemma select_loop_first:
  "select_loop ex rt ps rs cs l = ((rs', cs', None), l') \<Longrightarrow>
   \<forall>r\<in>set rs. ready_id r = first_reservation ex (rn_Node r) \<Longrightarrow>
   \<forall>r\<in>set rs'. ready_id r = first_reservation ex (rn_Node r)"
proof (induction ps arbitrary: rs cs l)
  case (Cons p ps)
  obtain x l1 where R: "Reserve (first_reservation ex (pn_Node p)) (ex_ID ex) (nd_ID (pn_Node p)) (pn_Estimate p) l = (x, l1)"
    by fastforce
  show ?case
  proof (cases x)
    case (Inl e)
    then show ?thesis using R Cons by (auto simp: Let_def nextAttemptNumber_def split: if_splits)
  next
    case (Inr v)
    have "select_loop ex rt ps (rs @ [ready_node p v]) cs l1 = ((rs', cs', None), l')"
      using R Cons.prems Inr by (simp add: Let_def nextAttemptNumber_def)
    moreover have "\<forall>r\<in>set (rs @ [ready_node p v]). ready_id r = first_reservation ex (rn_Node r)"
      using Cons.prems(2) Reserve_granted(1) [OF R [unfolded Inr]] by (simp add: ready_id_def ready_node_def)
    ultimately show ?thesis by (rule Cons.IH)
  qed
qed simp

lemma SelectRunnable_first:
  "SelectRunnable sv ex plan rt l = ((rs, cs, None), l') \<Longrightarrow> r \<in> set rs \<Longrightarrow>
   gomap_get (lg_reservations l') (first_reservation ex (rn_Node r)) \<noteq> None"
proof -
  assume S: "SelectRunnable sv ex plan rt l = ((rs, cs, None), l')" and r: "r \<in> set rs"
  obtain ps cs0 where s: "select_loop ex rt ps [] cs0 l = ((rs, cs, None), l')"
    using S by (rule SelectRunnable_loop)
  have "reserved_for l' r" using SelectRunnable_inv [OF S] r by (simp add: sel_inv_def)
  moreover have "ready_id r = first_reservation ex (rn_Node r)" using select_loop_first [OF s] r by simp
  ultimately show ?thesis by (auto simp: reserved_for_def ready_id_def)
qed

text \<open>C22: the attempt number in a reservation's identifier is always 1, so a node can be
  selected once. When a node that was selected before is prepared again with the same
  ledger, whatever was settled or released in between, \<open>SelectRunnable\<close> fails and returns no
  node at all, also not the nodes it reserved for in the same call.\<close>

theorem SelectRunnable_only_once:
  assumes "SelectRunnable sv ex plan rt l = ((rs, cs, None), l')" and "r \<in> set rs"
    and "PrepareRunnable sv ex plan' rt' = (ps, cs', None)"
    and "p \<in> set ps" and "nd_ID (pn_Node p) = nd_ID (rn_Node r)"
  shows "\<exists>cs2 e l2. SelectRunnable sv ex plan' rt' (ledger_run l' xs) = (([], cs2, Some e), l2)"
proof -
  have "gomap_get (lg_reservations (ledger_run l' xs)) (first_reservation ex (pn_Node p)) \<noteq> None"
    using ledger_run_keeps [OF SelectRunnable_first [OF assms(1,2)]] assms(5) by simp
  from select_loop_dup [OF assms(4) this] assms(3) show ?thesis
    by (simp add: SelectRunnable_def)
qed

section \<open>Examples\<close>

definition demo_execution :: Execution where
  "demo_execution =
     \<lparr>ex_ID = ''x'', ex_TaskRef = [], ex_GoalRef = ''g'', ex_PlanRef = \<lparr>pr_PlanID = ''p'', pr_Revision = 1\<rparr>,
      ex_Identity = \<lparr>id_Principal = ''u'', id_Tenant = ''t''\<rparr>,
      ex_PolicyContext = \<lparr>pc_Environment = [], pc_DataSensitivity = []\<rparr>,
      ex_Budget = demo_budget, ex_Status = \<lparr>es_Phase = ExecutionRunning, es_Conditions = []\<rparr>,
      ex_Accounting = \<lparr>acc_ConsumedCost = Fin 0, acc_ReservedCost = Fin 0, acc_Elapsed = 0\<rparr>,
      ex_CreatedAt = 1, ex_UpdatedAt = 1\<rparr>"

definition demo_plan :: ExecutionPlan where
  "demo_plan =
     \<lparr>pl_ID = ''p'', pl_GoalRef = ''g'', pl_Revision = 1, pl_ParentRevision = 0,
      pl_Nodes = [pure_node ''b'' [''a''], pure_node ''a'' [], pure_node ''c'' []], pl_CreatedAt = 1\<rparr>"

definition demo_target :: ExecutionTarget where
  "demo_target =
     \<lparr>tg_ID = ''m'', tg_Revision = 1, tg_Type = TargetModel, tg_Capabilities = [],
      tg_Policy = \<lparr>tp_DataLocality = [], tp_AllowedSensitivity = []\<rparr>,
      tg_Health = \<lparr>th_State = [], th_ObservedAt = 0\<rparr>,
      tg_Snapshot = \<lparr>ts_Digest = ''d'', ts_EndpointClass = [], ts_ModelVersion = [],
        ts_RuntimeVersion = [], ts_DeploymentRef = [], ts_CapabilityHash = []\<rparr>\<rparr>"

definition demo_decision :: PolicyDecisionRecord where
  "demo_decision =
     \<lparr>pd_ID = ''pd'', pd_PolicySetRef = [], pd_PolicyVersion = [], pd_ExecutionRef = ''x'',
      pd_PlanRevision = 1, pd_NodeRef = [], pd_Principal = ''u'', pd_Action = [], pd_Resource = [],
      pd_RequestedScope = [], pd_Decision = PolicyAllow, pd_ReasonCodes = [], pd_ExpiresAt = None\<rparr>"

definition demo_supervisor :: Supervisor where
  "demo_supervisor =
     \<lparr>sv_policy = \<lambda>ex n. Inr demo_decision, sv_resolver = \<lambda>ex n. Inr demo_target,
      sv_estimator = \<lambda>ex n t. Inr (demo_estimate (Fin 0) 1)\<rparr>"

lemma demo_execution_simps [simp]:
  "ex_ID demo_execution = ''x''" "es_Phase (ex_Status demo_execution) = ExecutionRunning"
  by (simp_all add: demo_execution_def)

definition demo_prepared :: "ExecutionNode \<Rightarrow> PreparedNode" where
  "demo_prepared n = \<lparr>pn_Node = n, pn_Target = demo_target, pn_Policy = demo_decision,
     pn_Estimate = demo_estimate (Fin 0) 1\<rparr>"

lemma demo_PrepareRunnable:
  "PrepareRunnable demo_supervisor demo_execution demo_plan [(''a'', NodeSucceeded)] =
     ([demo_prepared (pure_node ''b'' [''a'']), demo_prepared (pure_node ''c'' [])], [], None)"
  "PrepareRunnable demo_supervisor demo_execution demo_plan [] =
     ([demo_prepared (pure_node ''a'' []), demo_prepared (pure_node ''c'' [])], [], None)"
  by (simp_all add: PrepareRunnable_def demo_plan_def demo_supervisor_def prepare_node_def eligible_def
      dependenciesSucceeded_def runtime_state_def gomap_or_def gomap_get_def demo_decision_def
      demo_prepared_def less_char_def)

lemma PrepareRunnable_exact_witness:
  "\<exists>ps. PrepareRunnable demo_supervisor demo_execution demo_plan [(''a'', NodeSucceeded)] = (ps, [], None) \<and>
     demo_prepared (pure_node ''b'' [''a'']) \<in> set ps \<and> demo_prepared (pure_node ''a'' []) \<notin> set ps"
proof -
  note iff = conjunct1 [OF conjunct2 [OF PrepareRunnable_exact [OF demo_PrepareRunnable(1)]]]
  have n: "pn_Node (demo_prepared n) = n" for n by (simp add: demo_prepared_def)
  have a: "demo_prepared (pure_node ''a'' []) \<notin> set [demo_prepared (pure_node ''b'' [''a'']), demo_prepared (pure_node ''c'' [])]"
    unfolding iff [rule_format] n by (simp add: pure_node_def gomap_get_def)
  show ?thesis using a demo_PrepareRunnable(1) by auto
qed

lemma demo_plan_valid: "ValidatePlan demo_plan = None"
  by code_simp

lemma PrepareRunnable_progress_witness:
  "\<exists>ps cs r. PrepareRunnable demo_supervisor demo_execution demo_plan [] = (ps, cs, r) \<and>
     r = None \<and> ps \<noteq> []"
proof -
  have "\<forall>n\<in>set (pl_Nodes demo_plan). runtime_state [] (nd_ID n) = NodeStateOther []"
    by (simp add: runtime_state_def gomap_or_def gomap_get_def)
  moreover have "\<exists>n. n \<in> set (pl_Nodes demo_plan)" by (simp add: demo_plan_def exI [of _ "pure_node ''a'' []"])
  ultimately show ?thesis
    using PrepareRunnable_progress [OF demo_plan_valid _ _ _ demo_PrepareRunnable(2)] demo_PrepareRunnable(2)
    by fastforce
qed

definition demo_ready :: "NodeID \<Rightarrow> string \<Rightarrow> ExecutionNode \<Rightarrow> ReadyNode" where
  "demo_ready nid i n = ready_node (demo_prepared n)
     \<lparr>br_ID = i, br_ExecutionRef = ''x'', br_NodeRef = nid, br_Estimate = demo_estimate (Fin 0) 1, br_Closed = False\<rparr>"

lemma demo_SelectRunnable:
  "\<exists>l'. SelectRunnable demo_supervisor demo_execution demo_plan [] (NewBudgetLedger demo_budget) =
     (([demo_ready ''a'' ''x/a/1'' (pure_node ''a'' []), demo_ready ''c'' ''x/c/1'' (pure_node ''c'' [])], [], None), l')"
  by (simp add: SelectRunnable_def demo_PrepareRunnable demo_prepared_def Let_def nextAttemptNumber_def
      reservation_id_def demo_ledger demo_ready_def ready_node_def)

lemma SelectRunnable_reserves_witness:
  "\<exists>l'. distinct (map ready_id [demo_ready ''a'' ''x/a/1'' (pure_node ''a'' []),
       demo_ready ''c'' ''x/c/1'' (pure_node ''c'' [])]) \<and>
     open_sum be_NodeAttempts l' = 2 \<and>
     SelectRunnable demo_supervisor demo_execution demo_plan [] (NewBudgetLedger demo_budget) =
     (([demo_ready ''a'' ''x/a/1'' (pure_node ''a'' []), demo_ready ''c'' ''x/c/1'' (pure_node ''c'' [])], [], None), l')"
proof -
  obtain l' where l': "SelectRunnable demo_supervisor demo_execution demo_plan [] (NewBudgetLedger demo_budget) =
     (([demo_ready ''a'' ''x/a/1'' (pure_node ''a'' []), demo_ready ''c'' ''x/c/1'' (pure_node ''c'' [])], [], None), l')"
    using demo_SelectRunnable by blast
  have "open_sum be_NodeAttempts l' = 2"
    using SelectRunnable_reserves [OF l']
    by (simp add: ready_amount_def demo_ready_def ready_node_def demo_estimate_def open_sum_def NewBudgetLedger_def)
  with l' SelectRunnable_reserves [OF l'] show ?thesis by blast
qed

lemma SelectRunnable_only_once_witness:
  "\<exists>l' cs2 e l2. SelectRunnable demo_supervisor demo_execution demo_plan []
       (ledger_run l' [OpRelease ''x/a/1'']) = (([], cs2, Some e), l2)"
proof -
  obtain l' where l': "SelectRunnable demo_supervisor demo_execution demo_plan [] (NewBudgetLedger demo_budget) =
     (([demo_ready ''a'' ''x/a/1'' (pure_node ''a'' []), demo_ready ''c'' ''x/c/1'' (pure_node ''c'' [])], [], None), l')"
    using demo_SelectRunnable by blast
  have r: "demo_ready ''a'' ''x/a/1'' (pure_node ''a'' []) \<in> set [demo_ready ''a'' ''x/a/1'' (pure_node ''a'' []),
      demo_ready ''c'' ''x/c/1'' (pure_node ''c'' [])]" by simp
  have p: "demo_prepared (pure_node ''a'' []) \<in>
      set [demo_prepared (pure_node ''a'' []), demo_prepared (pure_node ''c'' [])]" by simp
  have "nd_ID (pn_Node (demo_prepared (pure_node ''a'' []))) =
      nd_ID (rn_Node (demo_ready ''a'' ''x/a/1'' (pure_node ''a'' [])))"
    by (simp add: demo_ready_def ready_node_def demo_prepared_def)
  from SelectRunnable_only_once [OF l' r demo_PrepareRunnable(2) p this] show ?thesis by blast
qed

end
