(* ===== verification/Exec_Approval.thy ===== *)
theory Exec_Approval
  imports Exec_Types
begin

text \<open>
  Approvals (src/execution/approval.go): a record binds one approval to one exact scope;
  the in-memory store keeps the records by identifier. Each operation of the store runs
  under its lock, so a history of the store is a sequence of operations.
\<close>

section \<open>Operations\<close>

type_synonym ApprovalID = string

record ApprovalScope =
  sc_ExecutionRef :: ExecutionID
  sc_PlanRevision :: int
  sc_NodeRef :: NodeID
  sc_Action :: string
  sc_Resource :: string
  sc_RequestedScope :: string

record ApprovalRecord =
  ap_ID :: ApprovalID
  ap_PolicyDecisionRef :: PolicyDecisionID
  ap_Scope :: ApprovalScope
  ap_ApprovedBy :: string
  ap_ApprovedAt :: gotime
  ap_ExpiresAt :: "gotime option"
  ap_RevokedAt :: "gotime option"

type_synonym MemoryApprovalStore = "(ApprovalID, ApprovalRecord) gomap"

definition ErrApprovalNotFound :: goerr where
  "ErrApprovalNotFound = ErrNew ''approval not found''"

definition ErrApprovalExpired :: goerr where
  "ErrApprovalExpired = ErrNew ''approval expired''"

definition ErrApprovalMismatch :: goerr where
  "ErrApprovalMismatch = ErrNew ''approval scope mismatch''"

definition approval_ActiveAt :: "ApprovalRecord \<Rightarrow> gotime \<Rightarrow> bool" where
  "approval_ActiveAt a now =
     (if ap_RevokedAt a \<noteq> None then False
      else case ap_ExpiresAt a of
             Some e \<Rightarrow> if \<not> time_Before now e then False else True
           | None \<Rightarrow> True)"

definition Authorizes :: "ApprovalRecord \<Rightarrow> ApprovalScope \<Rightarrow> gotime \<Rightarrow> goerr option" where
  "Authorizes a scope now =
     (if \<not> approval_ActiveAt a now then Some ErrApprovalExpired
      else if ap_Scope a \<noteq> scope
        then Some (Errorf ''%w: approved=%+v requested=%+v'' [ErrApprovalMismatch])
      else None)"

definition NewMemoryApprovalStore :: MemoryApprovalStore where
  "NewMemoryApprovalStore = []"

definition approval_Put :: "ApprovalRecord \<Rightarrow> MemoryApprovalStore \<Rightarrow> goerr option \<times> MemoryApprovalStore" where
  "approval_Put r s =
     (if ap_ID r = [] then (Some (ErrNew ''approval id is required''), s)
      else if sc_ExecutionRef (ap_Scope r) = [] \<or> sc_NodeRef (ap_Scope r) = [] \<or> sc_PlanRevision (ap_Scope r) \<le> 0
        then (Some (ErrNew ''approval execution, plan revision and node scope are required''), s)
      else if ap_ApprovedBy r = [] \<or> time_IsZero (ap_ApprovedAt r)
        then (Some (ErrNew ''approval actor and timestamp are required''), s)
      else if gomap_get s (ap_ID r) \<noteq> None
        then (Some (Errorf (''approval '' @ quoted (ap_ID r) @ '' already exists'') []), s)
      else (None, gomap_put (ap_ID r) r s))"

definition approval_Get :: "ApprovalID \<Rightarrow> MemoryApprovalStore \<Rightarrow> goerr + ApprovalRecord" where
  "approval_Get i s = (case gomap_get s i of None \<Rightarrow> Inl ErrApprovalNotFound | Some r \<Rightarrow> Inr r)"

definition approval_Revoke ::
  "ApprovalID \<Rightarrow> gotime \<Rightarrow> MemoryApprovalStore \<Rightarrow> goerr option \<times> MemoryApprovalStore" where
  "approval_Revoke i ts s =
     (case gomap_get s i of
        None \<Rightarrow> (Some ErrApprovalNotFound, s)
      | Some r \<Rightarrow>
          if ap_RevokedAt r \<noteq> None then (None, s)
          else (None, gomap_put i (r\<lparr>ap_RevokedAt := Some ts\<rparr>) s))"

section \<open>The store contract\<close>

text \<open>What the interface \<open>ApprovalStore\<close> promises its clients: a record is stored at most once
  under its identifier, reading gives it back, and revoking changes nothing but the
  revocation time, which is set once.\<close>

locale approval_store =
  fixes Put :: "ApprovalRecord \<Rightarrow> 's \<Rightarrow> goerr option \<times> 's"
    and Get :: "ApprovalID \<Rightarrow> 's \<Rightarrow> goerr + ApprovalRecord"
    and Revoke :: "ApprovalID \<Rightarrow> gotime \<Rightarrow> 's \<Rightarrow> goerr option \<times> 's"
  assumes put_ok: "Put r s = (None, s') \<Longrightarrow>
      (\<forall>x. Get (ap_ID r) s \<noteq> Inr x) \<and> Get i s' = (if i = ap_ID r then Inr r else Get i s)"
    and put_err: "Put r s = (Some e, s') \<Longrightarrow> s' = s"
    and revoke_ok: "Revoke i ts s = (None, s') \<Longrightarrow>
      \<exists>r. Get i s = Inr r \<and>
        Get j s' = (if j = i \<and> ap_RevokedAt r = None then Inr (r\<lparr>ap_RevokedAt := Some ts\<rparr>) else Get j s)"
    and revoke_err: "Revoke i ts s = (Some e, s') \<Longrightarrow> s' = s \<and> (\<forall>x. Get i s \<noteq> Inr x)"
begin

fun step :: "ApprovalRecord + ApprovalID \<times> gotime \<Rightarrow> 's \<Rightarrow> 's" where
  "step (Inl r) s = snd (Put r s)"
| "step (Inr (i, ts)) s = snd (Revoke i ts s)"

lemma step_Inl:
  "Get i (step (Inl r) s) = (if fst (Put r s) = None \<and> i = ap_ID r then Inr r else Get i s)"
proof (cases "Put r s")
  case (Pair e s')
  then show ?thesis using put_ok [of r s s' i] put_err [of r s _ s'] by (cases e) auto
qed

lemma step_Inr:
  "Get j (step (Inr (i, ts)) s) =
     (case Get j s of Inl e \<Rightarrow> Inl e
      | Inr r \<Rightarrow> Inr (if j = i \<and> ap_RevokedAt r = None then r\<lparr>ap_RevokedAt := Some ts\<rparr> else r))"
proof (cases "Revoke i ts s")
  case (Pair e s')
  show ?thesis
  proof (cases e)
    case None
    then obtain r where "Get i s = Inr r"
      "Get j s' = (if j = i \<and> ap_RevokedAt r = None then Inr (r\<lparr>ap_RevokedAt := Some ts\<rparr>) else Get j s)"
      using revoke_ok [of i ts s s'] Pair by blast
    then show ?thesis using Pair None by (auto split: sum.splits)
  next
    case (Some x)
    then show ?thesis using revoke_err [of i ts s x s'] Pair by (auto split: sum.splits)
  qed
qed

lemma revoked_stays:
  "Get i s = Inr r \<Longrightarrow> ap_RevokedAt r \<noteq> None \<Longrightarrow> Get i (fold step xs s) = Inr r"
proof (induction xs arbitrary: s)
  case (Cons x xs)
  have "Get i (step x s) = Inr r"
  proof (cases x)
    case (Inl q)
    have "\<not> (fst (Put q s) = None \<and> i = ap_ID q)"
      using put_ok [of q s "snd (Put q s)"] Cons.prems(1) by (metis prod.collapse)
    with Inl Cons.prems(1) show ?thesis by (auto simp: step_Inl simp del: step.simps)
  next
    case (Inr p)
    with Cons.prems show ?thesis by (cases p) (simp add: step_Inr del: step.simps)
  qed
  with Cons show ?case by simp
qed simp

text \<open>The provenance of a live approval: it was put exactly as it is read, and not revoked
  since.\<close>

lemma live_provenance:
  assumes "\<forall>x. Get i s0 \<noteq> Inr x" and "Get i (fold step xs s0) = Inr r" and "ap_RevokedAt r = None"
  shows "\<exists>pre post. xs = pre @ Inl r # post \<and> ap_ID r = i \<and> (\<forall>ts. Inr (i, ts) \<notin> set post)"
  using assms(2)
proof (induction xs rule: rev_induct)
  case Nil
  then show ?case using assms(1) by simp
next
  case (snoc x xs)
  let ?s = "fold step xs s0"
  show ?case
  proof (cases x)
    case (Inl q)
    show ?thesis
    proof (cases "fst (Put q ?s) = None \<and> i = ap_ID q")
      case True
      then have "q = r" using snoc.prems Inl by (simp add: step_Inl del: step.simps)
      then show ?thesis using True Inl by (intro exI [of _ xs] exI [of _ "[]"]) simp
    next
      case False
      then have "Get i ?s = Inr r" using snoc.prems Inl by (simp add: step_Inl del: step.simps split: if_splits)
      from snoc.IH [OF this] obtain pre post where
        "xs = pre @ Inl r # post" "ap_ID r = i" "\<forall>ts. Inr (i, ts) \<notin> set post" by blast
      then show ?thesis using Inl by (intro exI [of _ pre] exI [of _ "post @ [x]"]) simp
    qed
  next
    case (Inr p)
    obtain j ts where p: "p = (j, ts)" by fastforce
    have g: "Get i ?s = Inr r" "j \<noteq> i"
      using snoc.prems Inr p assms(3)
      by (auto simp: step_Inr simp del: step.simps split: sum.splits if_splits)
    from snoc.IH [OF g(1)] obtain pre post where
      "xs = pre @ Inl r # post" "ap_ID r = i" "\<forall>ts. Inr (i, ts) \<notin> set post" by blast
    then show ?thesis using Inr p g(2) by (intro exI [of _ pre] exI [of _ "post @ [x]"]) simp
  qed
qed

end

lemma approval_Get_Inr [simp]: "approval_Get i s = Inr r \<longleftrightarrow> gomap_get s i = Some r"
  by (simp add: approval_Get_def split: option.splits)

interpretation mas: approval_store approval_Put approval_Get approval_Revoke
proof (unfold_locales, goal_cases)
  case (1 r s s' i)
  then show ?case by (auto simp: approval_Put_def approval_Get_def gm.get_put split: if_splits)
next
  case (3 i ts s s' j)
  then show ?case by (auto simp: approval_Revoke_def approval_Get_def gm.get_put split: option.splits if_splits)
qed (auto simp: approval_Put_def approval_Revoke_def approval_Get_def split: option.splits if_splits)

section \<open>Histories of the in-memory store\<close>

datatype approval_op = OpPut ApprovalRecord | OpRevoke ApprovalID gotime

fun approval_step :: "approval_op \<Rightarrow> MemoryApprovalStore \<Rightarrow> MemoryApprovalStore" where
  "approval_step (OpPut r) s = snd (approval_Put r s)"
| "approval_step (OpRevoke i ts) s = snd (approval_Revoke i ts s)"

fun approval_code :: "approval_op \<Rightarrow> ApprovalRecord + ApprovalID \<times> gotime" where
  "approval_code (OpPut r) = Inl r"
| "approval_code (OpRevoke i ts) = Inr (i, ts)"

lemma approval_step_code: "approval_step x = mas.step (approval_code x)"
  by (cases x) (auto simp: fun_eq_iff)

lemma approval_run_code: "fold approval_step xs s = fold mas.step (map approval_code xs) s"
  by (induction xs arbitrary: s) (simp_all add: approval_step_code)

lemma approval_code_eq: "approval_code x = Inl r \<longleftrightarrow> x = OpPut r" "approval_code x = Inr (i, ts) \<longleftrightarrow> x = OpRevoke i ts"
  by (cases x; auto)+

text \<open>C27: an approval authorizes an action only by an explicit grant for exactly that action.
  In any history of a new store, when the record read under an identifier authorizes a
  scope at some time, the history contains the put of that very record, with that scope,
  an approver and an approval time, no revocation of it followed, and its expiry has not
  been reached.\<close>

theorem approval_provenance:
  assumes "approval_Get i (fold approval_step xs NewMemoryApprovalStore) = Inr r"
    and "Authorizes r scope now = None"
  shows "\<exists>pre post. xs = pre @ OpPut r # post \<and> ap_ID r = i \<and> ap_Scope r = scope \<and>
    (\<forall>ts. OpRevoke i ts \<notin> set post) \<and> (\<forall>e. ap_ExpiresAt r = Some e \<longrightarrow> now < e)"
proof -
  have live: "ap_RevokedAt r = None" "ap_Scope r = scope" "\<forall>e. ap_ExpiresAt r = Some e \<longrightarrow> now < e"
    using assms(2)
    by (auto simp: Authorizes_def approval_ActiveAt_def time_Before_def split: if_splits option.splits)
  have "\<forall>x. approval_Get i NewMemoryApprovalStore \<noteq> Inr x"
    by (simp add: NewMemoryApprovalStore_def gomap_get_def)
  from mas.live_provenance [OF this assms(1) [unfolded approval_run_code] live(1)]
  obtain pre post where p: "map approval_code xs = pre @ Inl r # post" "ap_ID r = i" "\<forall>ts. Inr (i, ts) \<notin> set post"
    by blast
  then obtain xs1 x xs2 where x: "xs = xs1 @ x # xs2" "approval_code x = Inl r" "map approval_code xs2 = post"
    by (auto simp: map_eq_append_conv Cons_eq_map_conv)
  have "OpRevoke i ts \<notin> set xs2" for ts
    using p(3) x(3) by (metis approval_code.simps(2) image_eqI list.set_map)
  with x p live show ?thesis by (auto simp: approval_code_eq)
qed

text \<open>C28: revocation is final. After a successful revocation no history of the store brings
  the approval back: whatever is put or revoked later, the record read under the
  identifier authorizes no scope at any time, and reports expiry.\<close>

theorem approval_revoked_forever:
  assumes "approval_Revoke i ts s = (None, s')"
    and "approval_Get i (fold approval_step xs s') = Inr r"
  shows "Authorizes r scope now = Some ErrApprovalExpired"
proof -
  obtain q where q: "approval_Get i s' = Inr q" "ap_RevokedAt q \<noteq> None"
    using assms(1) by (auto simp: approval_Revoke_def split: option.splits if_splits)
  then have "r = q" using mas.revoked_stays [OF q] assms(2) by (simp add: approval_run_code)
  with q(2) show ?thesis by (simp add: Authorizes_def approval_ActiveAt_def)
qed

section \<open>Examples\<close>

definition demo_scope :: ApprovalScope where
  "demo_scope = \<lparr>sc_ExecutionRef = ''exec-1'', sc_PlanRevision = 2, sc_NodeRef = ''restart-cn'',
     sc_Action = ''restart'', sc_Resource = ''cn/pro03'', sc_RequestedScope = ''production''\<rparr>"

definition demo_approval :: ApprovalRecord where
  "demo_approval = \<lparr>ap_ID = ''a1'', ap_PolicyDecisionRef = ''pd1'', ap_Scope = demo_scope,
     ap_ApprovedBy = ''operator-1'', ap_ApprovedAt = 10, ap_ExpiresAt = Some 100, ap_RevokedAt = None\<rparr>"

lemmas demo_approval_eval = demo_approval_def demo_scope_def approval_Put_def approval_Revoke_def
  NewMemoryApprovalStore_def gomap_get_def gomap_put_def time_defs Authorizes_def approval_ActiveAt_def

lemma approval_provenance_witness:
  "\<exists>pre post. [OpPut demo_approval] = pre @ OpPut demo_approval # post \<and>
     (\<forall>ts. OpRevoke ''a1'' ts \<notin> set post)"
proof -
  have "approval_Get ''a1'' (fold approval_step [OpPut demo_approval] NewMemoryApprovalStore) = Inr demo_approval"
    and "Authorizes demo_approval demo_scope 50 = None"
    by (simp_all add: demo_approval_eval)
  from approval_provenance [OF this] show ?thesis by blast
qed

lemma approval_revoked_forever_witness:
  "Authorizes (demo_approval\<lparr>ap_RevokedAt := Some 20\<rparr>) demo_scope 30 = Some ErrApprovalExpired"
proof -
  let ?s = "[(''a1'', demo_approval)]" and ?r = "demo_approval\<lparr>ap_RevokedAt := Some 20\<rparr>"
  have "approval_Revoke ''a1'' 20 ?s = (None, [(''a1'', ?r)])"
    and "approval_Get ''a1'' (fold approval_step [OpPut demo_approval] [(''a1'', ?r)]) = Inr ?r"
    by (simp_all add: demo_approval_eval)
  from approval_revoked_forever [OF this] show ?thesis .
qed

end
