(* ===== verification/Exec_Runner.thy ===== *)
theory Exec_Runner
  imports Exec_Supervisor
begin

text \<open>
  The attempt runner (src/execution/runner.go). The target invoker is an interface of the
  source; it is a function parameter, absent when the source's field is nil. The two
  readings of the clock are arguments. The runner's ledger is absent when nil.
\<close>

section \<open>Operations\<close>

datatype EffectDisposition =
    EffectDispositionNotApplicable | EffectDispositionNotApplied | EffectDispositionCommitted
  | EffectDispositionUnknown | EffectDispositionOther string

record InvocationResult =
  ir_Usage :: Usage
  ir_ArtifactRefs :: "ArtifactID list"
  ir_EffectDisposition :: EffectDisposition

type_synonym TargetInvoker =
  "Execution \<Rightarrow> ExecutionNode \<Rightarrow> ExecutionTarget \<Rightarrow> InvocationResult \<times> goerr option"

definition InvocationResult_zero :: InvocationResult where
  "InvocationResult_zero =
     \<lparr>ir_Usage = Usage_zero, ir_ArtifactRefs = [], ir_EffectDisposition = EffectDispositionNotApplicable\<rparr>"

definition ExecutionAttempt_zero :: ExecutionAttempt where
  "ExecutionAttempt_zero =
     \<lparr>at_ID = [], at_ExecutionRef = [], at_NodeRef = [], at_TargetRef = [], at_TargetRevision = 0,
      at_TargetSnapshot = [], at_AttemptNumber = 0, at_Status = AttemptStatusOther [],
      at_ErrorClass = ErrorClassOther [], at_Usage = Usage_zero, at_IdempotencyKey = [],
      at_EffectStartedAt = None, at_EffectCommittedAt = None, at_StartedAt = 0, at_FinishedAt = None\<rparr>"

definition actualBudgetForInvocation :: "ExecutionTarget \<Rightarrow> Usage \<Rightarrow> BudgetEstimate" where
  "actualBudgetForInvocation target usage =
     \<lparr>be_Cost = us_Cost usage, be_NodeAttempts = 1, be_FrontierCalls = 0,
      be_ToolCalls = (if tg_Type target = TargetTool then 1 else 0)\<rparr>"

definition classifyInvocationError :: "goerr option \<Rightarrow> ErrorClass" where
  "classifyInvocationError err =
     (case err of
        None \<Rightarrow> ErrorClassOther []
      | Some e \<Rightarrow>
          (case as_InvocationError e of
             Some c \<Rightarrow>
               if c \<noteq> ErrorClassOther [] then c
               else if errors_Is e CtxDeadlineExceeded then ErrorTimeout
               else if errors_Is e CtxCanceled then ErrorTransient
               else ErrorUnknown
           | None \<Rightarrow>
               if errors_Is e CtxDeadlineExceeded then ErrorTimeout
               else if errors_Is e CtxCanceled then ErrorTransient
               else ErrorUnknown))"

definition started_attempt ::
  "Execution \<Rightarrow> ReadyNode \<Rightarrow> AttemptID \<Rightarrow> int \<Rightarrow> gotime \<Rightarrow> ExecutionAttempt" where
  "started_attempt ex ready aid n started =
     ExecutionAttempt_zero
       \<lparr>at_ID := aid, at_ExecutionRef := ex_ID ex, at_NodeRef := nd_ID (rn_Node ready),
        at_TargetRef := tg_ID (rn_Target ready), at_TargetRevision := tg_Revision (rn_Target ready),
        at_TargetSnapshot := ts_Digest (tg_Snapshot (rn_Target ready)), at_AttemptNumber := n,
        at_Status := AttemptRunning, at_IdempotencyKey := ef_IdempotencyKey (nd_Effect (rn_Node ready)),
        at_StartedAt := started\<rparr>"

definition runner_Run ::
  "TargetInvoker option \<Rightarrow> Execution \<Rightarrow> ReadyNode \<Rightarrow> AttemptID \<Rightarrow> int \<Rightarrow> gotime \<Rightarrow> gotime
     \<Rightarrow> BudgetLedger option
     \<Rightarrow> (ExecutionAttempt \<times> InvocationResult \<times> goerr option) \<times> BudgetLedger option" where
  "runner_Run invoker ex ready aid n started finished budget =
     (let fail = \<lambda>m. ((ExecutionAttempt_zero, InvocationResult_zero, Some (ErrNew m)), budget) in
      case invoker of None \<Rightarrow> fail ''target invoker is required''
      | Some invoke \<Rightarrow>
      case budget of None \<Rightarrow> fail ''budget ledger is required''
      | Some l \<Rightarrow>
      case rn_Reservation ready of None \<Rightarrow> fail ''budget reservation is required''
      | Some res \<Rightarrow>
      if aid = [] then fail ''attempt id is required''
      else if n \<le> 0 then fail ''attempt number must be positive''
      else
        (case invoke ex (rn_Node ready) (rn_Target ready) of
           (result, err) \<Rightarrow>
             let attempt = (started_attempt ex ready aid n started)
                   \<lparr>at_FinishedAt := Some finished, at_Usage := ir_Usage result\<rparr>
             in case Settle (br_ID res) (actualBudgetForInvocation (rn_Target ready) (ir_Usage result)) l of
                  (Some settleErr, l') \<Rightarrow>
                    ((attempt\<lparr>at_Status := AttemptFailed, at_ErrorClass := ErrorUnknown\<rparr>, result,
                      Some (Errorf ''settle budget reservation: %w'' [settleErr])), Some l')
                | (None, l') \<Rightarrow>
                    (case err of
                       None \<Rightarrow> ((attempt\<lparr>at_Status := AttemptSucceeded\<rparr>, result, None), Some l')
                     | Some e \<Rightarrow>
                         ((attempt\<lparr>at_Status := AttemptFailed, at_ErrorClass := classifyInvocationError err\<rparr>,
                           result, Some e), Some l'))))"

section \<open>One run\<close>

text \<open>A usage the ledger accepts: its cost is not negative.\<close>

definition usage_ok :: "TargetInvoker \<Rightarrow> Execution \<Rightarrow> ReadyNode \<Rightarrow> bool" where
  "usage_ok invoke ex r \<longleftrightarrow>
     \<not> f64_lt (us_Cost (ir_Usage (fst (invoke ex (rn_Node r) (rn_Target r))))) (Fin 0)"

definition run_usage :: "TargetInvoker \<Rightarrow> Execution \<Rightarrow> ReadyNode \<Rightarrow> BudgetEstimate" where
  "run_usage invoke ex r =
     actualBudgetForInvocation (rn_Target r) (ir_Usage (fst (invoke ex (rn_Node r) (rn_Target r))))"

lemma run_usage_nonneg: "usage_ok invoke ex r \<Longrightarrow> \<not> negative_estimate (run_usage invoke ex r)"
  by (simp add: usage_ok_def run_usage_def actualBudgetForInvocation_def negative_estimate_def)

lemma Settle_open:
  "gomap_get (lg_reservations l) i = Some v \<Longrightarrow> \<not> br_Closed v \<Longrightarrow> \<not> negative_estimate a \<Longrightarrow>
   fst (Settle i a l) = None"
  by (simp add: Settle_def)

lemma runner_Run_reserved:
  assumes "reserved_for l r" and "usage_ok invoke ex r" and "aid \<noteq> []" and "0 < n"
  shows "\<exists>a. runner_Run (Some invoke) ex r aid n t0 t1 (Some l) =
      ((a, invoke ex (rn_Node r) (rn_Target r)), Some (snd (Settle (ready_id r) (run_usage invoke ex r) l))) \<and>
    at_Status a = (if snd (invoke ex (rn_Node r) (rn_Target r)) = None then AttemptSucceeded else AttemptFailed) \<and>
    at_ErrorClass a = classifyInvocationError (snd (invoke ex (rn_Node r) (rn_Target r))) \<and>
    at_ID a = aid \<and> at_NodeRef a = nd_ID (rn_Node r) \<and> at_TargetRef a = tg_ID (rn_Target r) \<and>
    at_AttemptNumber a = n \<and> at_IdempotencyKey a = ef_IdempotencyKey (nd_Effect (rn_Node r)) \<and>
    at_Usage a = ir_Usage (fst (invoke ex (rn_Node r) (rn_Target r))) \<and>
    at_StartedAt a = t0 \<and> at_FinishedAt a = Some t1"
proof -
  obtain v where v: "rn_Reservation r = Some v" "gomap_get (lg_reservations l) (br_ID v) = Some v" "\<not> br_Closed v"
    using assms(1) by (auto simp: reserved_for_def)
  obtain res err where i: "invoke ex (rn_Node r) (rn_Target r) = (res, err)" by fastforce
  obtain l' where s: "Settle (br_ID v) (run_usage invoke ex r) l = (None, l')"
    using Settle_open [OF v(2,3) run_usage_nonneg [OF assms(2)]] by (metis prod.collapse)
  from s i have s': "Settle (br_ID v) (actualBudgetForInvocation (rn_Target r) (ir_Usage res)) l = (None, l')"
    by (simp add: run_usage_def)
  show ?thesis using assms(3,4)
    by (cases err)
      (simp_all add: runner_Run_def Let_def v(1) i s s' ready_id_def started_attempt_def ExecutionAttempt_zero_def
        classifyInvocationError_def)
qed

text \<open>C25: running a node that holds the open reservation \<open>v\<close>, when the target reports \<open>res\<close>, with
  a cost that is not negative, and \<open>err\<close>. The run returns \<open>res\<close> and \<open>err\<close>; the attempt records the
  node, the target, the number, the idempotency key, the reported usage and both times, and it
  succeeded exactly when \<open>err\<close> is nil, and otherwise failed with the class of \<open>err\<close>. The ledger is
  the one that settling \<open>v\<close> leaves with the reported cost, one attempt, no frontier call, and one
  tool call just for a tool target: the consumed attempts grow by one, the reserved attempts
  fall by the estimate of \<open>v\<close>, and \<open>v\<close> is closed, so that running the node again on that ledger fails with
  the reservation already closed.\<close>

theorem runner_Run_settles:
  assumes "reserved_for l r" and "rn_Reservation r = Some v" and "aid \<noteq> []" and "0 < n"
    and "invoke ex (rn_Node r) (rn_Target r) = (res, err)" and "\<not> f64_lt (us_Cost (ir_Usage res)) (Fin 0)"
  shows "\<exists>a l'. runner_Run (Some invoke) ex r aid n t0 t1 (Some l) = ((a, res, err), Some l') \<and>
    at_Status a = (if err = None then AttemptSucceeded else AttemptFailed) \<and>
    at_ErrorClass a = classifyInvocationError err \<and>
    at_ID a = aid \<and> at_NodeRef a = nd_ID (rn_Node r) \<and> at_TargetRef a = tg_ID (rn_Target r) \<and>
    at_AttemptNumber a = n \<and> at_IdempotencyKey a = ef_IdempotencyKey (nd_Effect (rn_Node r)) \<and>
    at_Usage a = ir_Usage res \<and> at_StartedAt a = t0 \<and> at_FinishedAt a = Some t1 \<and>
    Settle (br_ID v) \<lparr>be_Cost = us_Cost (ir_Usage res), be_NodeAttempts = 1, be_FrontierCalls = 0,
       be_ToolCalls = (if tg_Type (rn_Target r) = TargetTool then 1 else 0)\<rparr> l = (None, l') \<and>
    ac_NodeAttempts (bs_Consumed (lg_state l')) = wrap64 (ac_NodeAttempts (bs_Consumed (lg_state l)) + 1) \<and>
    ac_NodeAttempts (bs_Reserved (lg_state l')) =
      wrap64 (ac_NodeAttempts (bs_Reserved (lg_state l)) - be_NodeAttempts (br_Estimate v)) \<and>
    gomap_get (lg_reservations l') (br_ID v) = Some (v\<lparr>br_Closed := True\<rparr>) \<and>
    (\<exists>e. snd (snd (fst (runner_Run (Some invoke) ex r aid n t0 t1 (Some l')))) = Some e \<and>
         errors_Is e ErrReservationClosed)"
proof -
  let ?u = "\<lparr>be_Cost = us_Cost (ir_Usage res), be_NodeAttempts = 1, be_FrontierCalls = 0,
       be_ToolCalls = (if tg_Type (rn_Target r) = TargetTool then 1 else 0)\<rparr>"
  let ?l' = "snd (Settle (br_ID v) ?u l)"
  have v: "gomap_get (lg_reservations l) (br_ID v) = Some v" "\<not> br_Closed v"
    using assms(1,2) by (auto simp: reserved_for_def)
  have u: "usage_ok invoke ex r" "run_usage invoke ex r = ?u" "ready_id r = br_ID v"
    using assms(2,5,6) by (simp_all add: usage_ok_def run_usage_def actualBudgetForInvocation_def ready_id_def)
  have neg: "\<not> negative_estimate ?u" using assms(6) by (simp add: negative_estimate_def)
  have s: "Settle (br_ID v) ?u l = (None, ?l')" using v neg by (simp add: Settle_def)
  have w: "gomap_get (lg_reservations ?l') (br_ID v) = Some (v\<lparr>br_Closed := True\<rparr>)"
    using v neg by (simp add: Settle_def)
  have k: "ac_NodeAttempts (bs_Consumed (lg_state ?l')) = wrap64 (ac_NodeAttempts (bs_Consumed (lg_state l)) + 1)"
    "ac_NodeAttempts (bs_Reserved (lg_state ?l')) =
      wrap64 (ac_NodeAttempts (bs_Reserved (lg_state l)) - be_NodeAttempts (br_Estimate v))"
    using v neg by (simp_all add: Settle_def applyEstimate_def)
  have again: "\<exists>e. snd (snd (fst (runner_Run (Some invoke) ex r aid n t0 t1 (Some ?l')))) = Some e \<and>
         errors_Is e ErrReservationClosed"
    using assms(3,4) assms(2) w by (auto simp: runner_Run_def Let_def Settle_def split: prod.splits)
  show ?thesis
    using runner_Run_reserved [OF assms(1) u(1) assms(3,4), of t0 t1] s w k again
    unfolding u(2,3) assms(5) fst_conv snd_conv by blast
qed

section \<open>Running everything a selection returned\<close>

fun run_all ::
  "TargetInvoker \<Rightarrow> Execution \<Rightarrow> AttemptID \<Rightarrow> gotime \<Rightarrow> gotime \<Rightarrow> ReadyNode list \<Rightarrow> BudgetLedger option
     \<Rightarrow> goerr option list \<times> BudgetLedger option" where
  "run_all invoke ex aid t0 t1 [] l = ([], l)"
| "run_all invoke ex aid t0 t1 (r # rs) l =
     (let out = runner_Run (Some invoke) ex r aid 1 t0 t1 l;
          rest = run_all invoke ex aid t0 t1 rs (snd out)
      in (snd (snd (fst out)) # fst rest, snd rest))"

lemma Settle_other:
  "i \<noteq> j \<Longrightarrow> gomap_get (lg_reservations (snd (Settle j a l))) i = gomap_get (lg_reservations l) i"
  by (auto simp: Settle_def gm.get_put split: option.splits)

lemma reserved_for_Settle_other:
  "reserved_for l r \<Longrightarrow> ready_id r \<noteq> j \<Longrightarrow> reserved_for (snd (Settle j a l)) r"
  by (auto simp: reserved_for_def ready_id_def Settle_other)

lemma open_sum_Settle:
  assumes "reserved_for l r" and "\<not> negative_estimate a"
  shows "open_sum b (snd (Settle (ready_id r) a l)) = open_sum b l - ready_amount b r"
proof -
  obtain v where v: "rn_Reservation r = Some v" "gomap_get (lg_reservations l) (br_ID v) = Some v" "\<not> br_Closed v"
    using assms(1) by (auto simp: reserved_for_def)
  then have "lg_reservations (snd (Settle (ready_id r) a l)) =
      gomap_put (br_ID v) (v\<lparr>br_Closed := True\<rparr>) (lg_reservations l)"
    using assms(2) by (simp add: Settle_def ready_id_def)
  from open_sum_close [OF v(2,3) this] show ?thesis using v(1) by (simp add: ready_amount_def)
qed

lemma run_all_settles:
  assumes "\<forall>r\<in>set rs. reserved_for l r" and "distinct (map ready_id rs)"
    and "\<forall>r\<in>set rs. usage_ok invoke ex r" and "aid \<noteq> []"
  shows "\<exists>l'. run_all invoke ex aid t0 t1 rs (Some l) =
      (map (\<lambda>r. snd (invoke ex (rn_Node r) (rn_Target r))) rs, Some l') \<and>
    (\<forall>b. open_sum b l' = open_sum b l - sum_list (map (ready_amount b) rs))"
  using assms
proof (induction rs arbitrary: l)
  case (Cons r rs)
  let ?l1 = "snd (Settle (ready_id r) (run_usage invoke ex r) l)"
  have r: "reserved_for l r" "usage_ok invoke ex r" using Cons.prems by simp_all
  have "\<forall>q\<in>set rs. reserved_for ?l1 q"
  proof
    fix q assume q: "q \<in> set rs"
    then have "ready_id q \<noteq> ready_id r" using Cons.prems(2) by (metis distinct.simps(2) image_eqI list.set_map list.simps(9))
    with q Cons.prems(1) show "reserved_for ?l1 q" by (simp add: reserved_for_Settle_other)
  qed
  with Cons.IH [of ?l1] Cons.prems obtain l' where
    l': "run_all invoke ex aid t0 t1 rs (Some ?l1) =
      (map (\<lambda>r. snd (invoke ex (rn_Node r) (rn_Target r))) rs, Some l')"
    "\<forall>b. open_sum b l' = open_sum b ?l1 - sum_list (map (ready_amount b) rs)" by auto
  obtain a where "runner_Run (Some invoke) ex r aid 1 t0 t1 (Some l) =
      ((a, invoke ex (rn_Node r) (rn_Target r)), Some ?l1)"
    using runner_Run_reserved [OF r Cons.prems(4), of 1 t0 t1] by auto
  then show ?case
    using l' open_sum_Settle [OF r(1) run_usage_nonneg [OF r(2)]] by (auto simp: Let_def)
qed simp

text \<open>C26: when the target reports no negative cost for any of the selected nodes, selecting
  nodes and then running each of them once, in order, hands every invocation's own outcome to
  the caller: no run fails at settlement, and when all are done the open reservations amount
  to what they were before the selection.\<close>

theorem select_then_run_all:
  assumes "SelectRunnable sv ex plan rt l = ((rs, cs, None), l1)"
    and "\<forall>r\<in>set rs. usage_ok invoke ex r" and "aid \<noteq> []"
  shows "\<exists>l2. run_all invoke ex aid t0 t1 rs (Some l1) =
      (map (\<lambda>r. snd (invoke ex (rn_Node r) (rn_Target r))) rs, Some l2) \<and>
    (\<forall>b. open_sum b l2 = open_sum b l)"
proof -
  have I: "sel_inv l l1 rs" using SelectRunnable_inv [OF assms(1)] .
  then obtain l2 where "run_all invoke ex aid t0 t1 rs (Some l1) =
      (map (\<lambda>r. snd (invoke ex (rn_Node r) (rn_Target r))) rs, Some l2)"
    "\<forall>b. open_sum b l2 = open_sum b l1 - sum_list (map (ready_amount b) rs)"
    using run_all_settles [of rs l1 invoke ex aid t0 t1] assms(2,3) by (auto simp: sel_inv_def)
  with I show ?thesis by (auto simp: sel_inv_def)
qed

section \<open>Examples\<close>

definition demo_invoke :: TargetInvoker where
  "demo_invoke ex n t =
     (InvocationResult_zero, if nd_ID n = ''c'' then Some (InvocationError ErrorTimeout None) else None)"

lemma demo_usage_ok: "usage_ok demo_invoke ex r"
  by (simp add: usage_ok_def demo_invoke_def InvocationResult_zero_def Usage_zero_def)

lemma runner_Run_settles_witness:
  "\<exists>l r a res l'. runner_Run (Some demo_invoke) demo_execution r ''at-1'' 1 5 6 (Some l) =
      ((a, res, None), Some l') \<and> at_Status a = AttemptSucceeded \<and>
      ac_NodeAttempts (bs_Consumed (lg_state l)) = 0 \<and> ac_NodeAttempts (bs_Consumed (lg_state l')) = 1"
proof -
  let ?r = "demo_ready ''a'' ''x/a/1'' (pure_node ''a'' [])"
  obtain v where v: "rn_Reservation ?r = Some v" "br_ID v = ''x/a/1''" "\<not> br_Closed v" "br_NodeRef v = ''a''"
    by (simp add: demo_ready_def ready_node_def)
  let ?l = "\<lparr>lg_state = demo_budget, lg_reservations = [(''x/a/1'', v)]\<rparr>"
  have n: "rn_Node ?r = pure_node ''a'' []" by (simp add: demo_ready_def ready_node_def demo_prepared_def)
  have R: "reserved_for ?l ?r" using v n by (simp add: reserved_for_def gomap_get_def)
  have I: "demo_invoke demo_execution (rn_Node ?r) (rn_Target ?r) = (InvocationResult_zero, None)"
    unfolding n by (simp add: demo_invoke_def pure_node_def)
  have c: "\<not> f64_lt (us_Cost (ir_Usage InvocationResult_zero)) (Fin 0)"
    by (simp add: InvocationResult_zero_def Usage_zero_def)
  have z: "ac_NodeAttempts (bs_Consumed (lg_state ?l)) = 0" by (simp add: demo_budget_def Counters_zero_def)
  have o: "wrap64 (0 + 1) = 1" by (simp add: wrap64_id i64_ok_def)
  have "''at-1'' \<noteq> []" "(0::int) < 1" by simp_all
  from runner_Run_settles [where invoke = demo_invoke and ex = demo_execution, OF R v(1) this I c, of 5 6]
  obtain a l' where a: "runner_Run (Some demo_invoke) demo_execution ?r ''at-1'' 1 5 6 (Some ?l) = ((a, InvocationResult_zero, None), Some l')"
    "at_Status a = AttemptSucceeded" "ac_NodeAttempts (bs_Consumed (lg_state l')) = 1"
    unfolding z o by auto
  then show ?thesis using z by blast
qed

lemma select_then_run_all_witness:
  "\<exists>l1 l2. run_all demo_invoke demo_execution ''at-1'' 5 6
      [demo_ready ''a'' ''x/a/1'' (pure_node ''a'' []), demo_ready ''c'' ''x/c/1'' (pure_node ''c'' [])] (Some l1) =
     ([None, Some (InvocationError ErrorTimeout None)], Some l2) \<and> open_sum be_NodeAttempts l2 = 0"
proof -
  obtain l1 where l1: "SelectRunnable demo_supervisor demo_execution demo_plan [] (NewBudgetLedger demo_budget) =
     (([demo_ready ''a'' ''x/a/1'' (pure_node ''a'' []), demo_ready ''c'' ''x/c/1'' (pure_node ''c'' [])], [], None), l1)"
    using demo_SelectRunnable by blast
  have n: "rn_Node (demo_ready nid i n) = n" for nid i n
    by (simp add: demo_ready_def ready_node_def demo_prepared_def)
  have "open_sum be_NodeAttempts (NewBudgetLedger demo_budget) = 0" by (simp add: open_sum_def NewBudgetLedger_def)
  with select_then_run_all [OF l1, of demo_invoke "''at-1''" 5 6] demo_usage_ok show ?thesis
    by (fastforce simp: demo_invoke_def n)
qed

end
