(* ===== verification/Sql_Table.thy ===== *)
theory Sql_Table
  imports Go_Errors
begin

text \<open>
  The part of SQL the repositories use. A table is a list of rows. An \<open>UPDATE\<close> changes the
  rows its \<open>WHERE\<close> clause selects and reports how many there were; a row that violates a
  \<open>CHECK\<close> constraint makes the statement fail. An \<open>INSERT\<close> fails on a \<open>CHECK\<close> or on a row with
  the same key, or does nothing with \<open>ON CONFLICT DO NOTHING\<close>. The locale collects what
  follows from a key that is unique in a table.
\<close>

definition ErrCheckViolation :: goerr where
  "ErrCheckViolation = ErrNew ''pq: new row violates check constraint''"

definition ErrUniqueViolation :: goerr where
  "ErrUniqueViolation = ErrNew ''pq: duplicate key value violates unique constraint''"

definition sql_query_row :: "('r \<Rightarrow> bool) \<Rightarrow> 'r list \<Rightarrow> 'r option" where
  "sql_query_row p t = List.find p t"

definition sql_set :: "('r \<Rightarrow> bool) \<Rightarrow> ('r \<Rightarrow> 'r) \<Rightarrow> 'r list \<Rightarrow> 'r list" where
  "sql_set p f t = map (\<lambda>r. if p r then f r else r) t"

definition sql_update ::
  "('r \<Rightarrow> bool) \<Rightarrow> ('r \<Rightarrow> bool) \<Rightarrow> ('r \<Rightarrow> 'r) \<Rightarrow> 'r list \<Rightarrow> goerr + nat \<times> 'r list" where
  "sql_update check p f t =
     (if list_ex (\<lambda>r. p r \<and> \<not> check (f r)) t then Inl ErrCheckViolation
      else Inr (length (filter p t), sql_set p f t))"

definition sql_insert ::
  "('r \<Rightarrow> bool) \<Rightarrow> ('r \<Rightarrow> 'r \<Rightarrow> bool) \<Rightarrow> 'r \<Rightarrow> 'r list \<Rightarrow> goerr + 'r list" where
  "sql_insert check conflict r t =
     (if \<not> check r then Inl ErrCheckViolation
      else if list_ex (conflict r) t then Inl ErrUniqueViolation
      else Inr (t @ [r]))"

definition sql_insert_or_nothing ::
  "('r \<Rightarrow> bool) \<Rightarrow> ('r \<Rightarrow> 'r \<Rightarrow> bool) \<Rightarrow> 'r \<Rightarrow> 'r list \<Rightarrow> goerr + nat \<times> 'r list" where
  "sql_insert_or_nothing check conflict r t =
     (if \<not> check r then Inl ErrCheckViolation
      else if list_ex (conflict r) t then Inr (0, t)
      else Inr (1, t @ [r]))"

lemma sql_update_Inr:
  "sql_update check p f t = Inr (n, t') \<longleftrightarrow>
     (\<forall>r\<in>set t. p r \<longrightarrow> check (f r)) \<and> n = length (filter p t) \<and> t' = sql_set p f t"
  by (auto simp: sql_update_def list_ex_iff)

lemma sql_insert_Inr:
  "sql_insert check conflict r t = Inr t' \<longleftrightarrow> check r \<and> (\<forall>x\<in>set t. \<not> conflict r x) \<and> t' = t @ [r]"
  by (auto simp: sql_insert_def list_ex_iff)

lemma sql_insert_or_nothing_one:
  "sql_insert_or_nothing check conflict r t = Inr (Suc 0, t') \<longleftrightarrow>
     check r \<and> (\<forall>x\<in>set t. \<not> conflict r x) \<and> t' = t @ [r]"
  by (auto simp: sql_insert_or_nothing_def list_ex_iff)

lemma set_sql_set: "x \<in> set (sql_set p f t) \<longleftrightarrow> (\<exists>r\<in>set t. x = (if p r then f r else r))"
  by (auto simp: sql_set_def)

lemma sql_set_ball:
  "\<forall>r\<in>set t. Q r \<Longrightarrow> (\<And>r. r \<in> set t \<Longrightarrow> p r \<Longrightarrow> Q r \<Longrightarrow> Q (f r)) \<Longrightarrow> \<forall>r\<in>set (sql_set p f t). Q r"
  by (auto simp: sql_set_def)

lemma sql_set_map: "(\<And>r. r \<in> set t \<Longrightarrow> p r \<Longrightarrow> h (f r) = h r) \<Longrightarrow> map h (sql_set p f t) = map h t"
  by (auto simp: sql_set_def)

lemma length_filter_one: "length (filter p t) = Suc 0 \<Longrightarrow> \<exists>r\<in>set t. p r"
  by (metis filter_empty_conv length_0_conv nat.distinct(1))

text \<open>A key that is unique in every table the operations reach.\<close>

locale keyed_table =
  fixes key :: "'r \<Rightarrow> 'k"
begin

definition unique :: "'r list \<Rightarrow> bool" where
  "unique t \<longleftrightarrow> distinct (map key t)"

lemma unique_same: "unique t \<Longrightarrow> r \<in> set t \<Longrightarrow> s \<in> set t \<Longrightarrow> key r = key s \<Longrightarrow> r = s"
  unfolding unique_def distinct_map by (blast dest: inj_onD)

lemma unique_set: "unique t \<Longrightarrow> (\<And>r. key (f r) = key r) \<Longrightarrow> unique (sql_set p f t)"
  by (simp add: unique_def sql_set_map)

lemma unique_insert: "unique t \<Longrightarrow> \<forall>x\<in>set t. key x \<noteq> key r \<Longrightarrow> unique (t @ [r])"
  by (auto simp: unique_def)

lemma affected_le_one:
  assumes "unique t" and "\<And>r. p r \<Longrightarrow> key r = k"
  shows "length (filter p t) \<le> 1"
proof (rule ccontr)
  assume "\<not> length (filter p t) \<le> 1"
  then obtain a b xs where f: "filter p t = a # b # xs"
    by (cases "filter p t") (auto simp: neq_Nil_conv Suc_le_eq)
  have "distinct (map key (filter p t))" using assms(1) by (simp add: unique_def distinct_map_filter)
  moreover have "a \<in> set (filter p t)" "b \<in> set (filter p t)" by (simp_all add: f)
  then have "key a = k" "key b = k" using assms(2) by simp_all
  ultimately show False by (simp add: f)
qed

lemma affected_one:
  assumes "unique t" and "\<And>r. p r \<Longrightarrow> key r = k" and "r \<in> set t" and "p r"
  shows "length (filter p t) = Suc 0"
proof -
  have "filter p t \<noteq> []" using assms(3,4) by (auto simp: filter_empty_conv)
  then have "length (filter p t) \<noteq> 0" by simp
  with affected_le_one [of t p k, OF assms(1,2)] show ?thesis by linarith
qed

text \<open>An update that selects one row is the update of the row with its key.\<close>

lemma set_by_key:
  assumes "unique t" and "\<And>x. p x \<Longrightarrow> key x = key r" and "r \<in> set t" and "p r"
  shows "sql_set p f t = sql_set (\<lambda>x. key x = key r) f t"
proof -
  have "p x \<longleftrightarrow> key x = key r" if "x \<in> set t" for x
    using assms(2,4) unique_same [OF assms(1) that assms(3)] by blast
  then show ?thesis by (simp add: sql_set_def)
qed

end

end
