(* ===== verification/Identity.thy ===== *)
theory Identity
  imports Go_Errors
begin

text \<open>
  Principals (src/internal/identity): the verified identity every repository operation
  reads from its context. A context is the principal stored in it, if any;
  \<open>WithPrincipal\<close> stores the normalised principal and \<open>PrincipalFromContext\<close> accepts only a
  valid one. \<open>withScopedTx\<close> of the execution repositories is the guard built on it: it runs
  a transaction for the tenant and project of the principal and rolls back on an error.
\<close>

section \<open>Principals\<close>

datatype PrincipalType = PrincipalUser | PrincipalServiceAccount | PrincipalSystem | PrincipalTypeOther string

record Principal =
  p_Type :: PrincipalType
  p_SubjectID :: string
  p_TenantID :: string
  p_ProjectID :: string
  p_Roles :: "string list"
  p_Capabilities :: "string list"
  p_AuthnMethod :: string
  p_Issuer :: string
  p_SessionID :: string
  p_Purpose :: string

type_synonym pcontext = "Principal option"

definition CapabilityTaskSystemAccess :: string where
  "CapabilityTaskSystemAccess = ''task:system-access''"

definition ErrPrincipalRequired :: goerr where
  "ErrPrincipalRequired = ErrNew ''authenticated principal is required''"

definition ErrTenantRequired :: goerr where
  "ErrTenantRequired = ErrNew ''tenant scope is required''"

definition ErrProjectRequired :: goerr where
  "ErrProjectRequired = ErrNew ''project scope is required''"

definition ErrCapabilityRequired :: goerr where
  "ErrCapabilityRequired = ErrNew ''required capability is missing''"

definition ErrInvalidPrincipal :: goerr where
  "ErrInvalidPrincipal = ErrNew ''invalid principal''"

fun normalizeStrings_loop :: "string list \<Rightarrow> string list \<Rightarrow> string list" where
  "normalizeStrings_loop out [] = out"
| "normalizeStrings_loop out (v # vs) =
     (let w = TrimSpace v in
      if w = [] then normalizeStrings_loop out vs
      else if w \<in> set out then normalizeStrings_loop out vs
      else normalizeStrings_loop (out @ [w]) vs)"

definition normalizeStrings :: "string list \<Rightarrow> string list" where
  "normalizeStrings vs = normalizeStrings_loop [] vs"

definition normalize :: "Principal \<Rightarrow> Principal" where
  "normalize p = p
     \<lparr>p_SubjectID := TrimSpace (p_SubjectID p), p_TenantID := TrimSpace (p_TenantID p),
      p_ProjectID := TrimSpace (p_ProjectID p), p_AuthnMethod := TrimSpace (p_AuthnMethod p),
      p_Issuer := TrimSpace (p_Issuer p), p_SessionID := TrimSpace (p_SessionID p),
      p_Purpose := TrimSpace (p_Purpose p), p_Roles := normalizeStrings (p_Roles p),
      p_Capabilities := normalizeStrings (p_Capabilities p)\<rparr>"

definition principal_Validate :: "Principal \<Rightarrow> goerr option" where
  "principal_Validate q =
     (let p = normalize q in
      if p_SubjectID p = [] \<or> p_AuthnMethod p = [] then Some ErrInvalidPrincipal
      else case p_Type p of
             PrincipalUser \<Rightarrow> if p_TenantID p = [] then Some ErrInvalidPrincipal else None
           | PrincipalServiceAccount \<Rightarrow> if p_TenantID p = [] then Some ErrInvalidPrincipal else None
           | PrincipalSystem \<Rightarrow> if p_Purpose p = [] then Some ErrInvalidPrincipal else None
           | PrincipalTypeOther _ \<Rightarrow> Some ErrInvalidPrincipal)"

definition WithPrincipal :: "pcontext \<Rightarrow> Principal \<Rightarrow> pcontext" where
  "WithPrincipal ctx p = Some (normalize p)"

definition PrincipalFromContext :: "pcontext \<Rightarrow> Principal option" where
  "PrincipalFromContext ctx =
     (case ctx of
        None \<Rightarrow> None
      | Some q \<Rightarrow> let p = normalize q in if principal_Validate p \<noteq> None then None else Some p)"

definition RequirePrincipal :: "pcontext \<Rightarrow> goerr + Principal" where
  "RequirePrincipal ctx =
     (case PrincipalFromContext ctx of None \<Rightarrow> Inl ErrPrincipalRequired | Some p \<Rightarrow> Inr p)"

definition RequireTenant :: "pcontext \<Rightarrow> goerr + Principal" where
  "RequireTenant ctx =
     (case RequirePrincipal ctx of
        Inl e \<Rightarrow> Inl e
      | Inr p \<Rightarrow> if p_TenantID p = [] then Inl ErrTenantRequired else Inr p)"

definition RequireProject :: "pcontext \<Rightarrow> goerr + Principal" where
  "RequireProject ctx =
     (case RequireTenant ctx of
        Inl e \<Rightarrow> Inl e
      | Inr p \<Rightarrow> if p_ProjectID p = [] then Inl ErrProjectRequired else Inr p)"

definition HasCapability :: "Principal \<Rightarrow> string \<Rightarrow> bool" where
  "HasCapability p c \<longleftrightarrow> TrimSpace c \<in> set (p_Capabilities p)"

definition RequireCapability :: "string \<Rightarrow> pcontext \<Rightarrow> goerr + Principal" where
  "RequireCapability c ctx =
     (case RequirePrincipal ctx of
        Inl e \<Rightarrow> Inl e
      | Inr p \<Rightarrow> if \<not> HasCapability p c then Inl (Errorf (''%w: '' @ c) [ErrCapabilityRequired]) else Inr p)"

definition RequireSystemCapability :: "string \<Rightarrow> pcontext \<Rightarrow> goerr + Principal" where
  "RequireSystemCapability c ctx =
     (case RequireCapability c ctx of
        Inl e \<Rightarrow> Inl e
      | Inr p \<Rightarrow>
          if p_Type p \<noteq> PrincipalSystem
            then Inl (Errorf ''%w: system principal required'' [ErrInvalidPrincipal])
          else if p_Purpose p = []
            then Inl (Errorf ''%w: system principal purpose is required'' [ErrInvalidPrincipal])
          else Inr p)"

definition OwnsProject :: "Principal \<Rightarrow> string \<Rightarrow> string \<Rightarrow> bool" where
  "OwnsProject p tenant project =
     (if p_TenantID p = [] \<or> p_ProjectID p = [] then False
      else p_TenantID p = TrimSpace tenant \<and> p_ProjectID p = TrimSpace project)"

definition system_principal :: "string \<Rightarrow> string \<Rightarrow> string \<Rightarrow> string \<Rightarrow> string list \<Rightarrow> Principal" where
  "system_principal subject purpose tenant project caps =
     \<lparr>p_Type = PrincipalSystem, p_SubjectID = subject, p_TenantID = tenant, p_ProjectID = project,
      p_Roles = [], p_Capabilities = caps, p_AuthnMethod = ''internal_system'', p_Issuer = ''aicloud'',
      p_SessionID = [], p_Purpose = purpose\<rparr>"

definition NewSystemPrincipal :: "string \<Rightarrow> string \<Rightarrow> string list \<Rightarrow> goerr + Principal" where
  "NewSystemPrincipal subject purpose caps =
     (let p = system_principal subject purpose [] [] caps in
      case principal_Validate p of Some e \<Rightarrow> Inl e | None \<Rightarrow> Inr (normalize p))"

definition NewProjectSystemPrincipal ::
  "string \<Rightarrow> string \<Rightarrow> string \<Rightarrow> string \<Rightarrow> string list \<Rightarrow> goerr + Principal" where
  "NewProjectSystemPrincipal subject purpose tenant project caps =
     (let p = system_principal subject purpose tenant project caps in
      case principal_Validate p of Some e \<Rightarrow> Inl e | None \<Rightarrow> Inr (normalize p))"

section \<open>Normalisation\<close>

lemma normalizeStrings_loop_id:
  "distinct (out @ vs) \<Longrightarrow> \<forall>v\<in>set vs. TrimSpace v = v \<and> v \<noteq> [] \<Longrightarrow> normalizeStrings_loop out vs = out @ vs"
proof (induction vs arbitrary: out)
  case (Cons v vs)
  have "TrimSpace v = v" "v \<noteq> []" "v \<notin> set out" using Cons.prems by auto
  then have "normalizeStrings_loop out (v # vs) = normalizeStrings_loop (out @ [v]) vs" by simp
  also have "\<dots> = (out @ [v]) @ vs" using Cons.prems by (intro Cons.IH) auto
  finally show ?case by simp
qed simp

lemma normalizeStrings_loop_ok:
  "distinct out \<Longrightarrow> \<forall>v\<in>set out. TrimSpace v = v \<and> v \<noteq> [] \<Longrightarrow>
   distinct (normalizeStrings_loop out vs) \<and>
   (\<forall>v\<in>set (normalizeStrings_loop out vs). TrimSpace v = v \<and> v \<noteq> [])"
proof (induction vs arbitrary: out)
  case (Cons v vs)
  show ?case
  proof (cases "TrimSpace v = [] \<or> TrimSpace v \<in> set out")
    case True
    then show ?thesis using Cons.IH [OF Cons.prems] by (auto simp: Let_def)
  next
    case False
    have "distinct (out @ [TrimSpace v])" "\<forall>w\<in>set (out @ [TrimSpace v]). TrimSpace w = w \<and> w \<noteq> []"
      using False Cons.prems by auto
    from Cons.IH [OF this] False show ?thesis by (simp add: Let_def)
  qed
qed simp

lemma normalizeStrings_loop_set:
  "set (normalizeStrings_loop out vs) = set out \<union> (TrimSpace ` set vs - {[]})"
  by (induction out vs rule: normalizeStrings_loop.induct) (auto simp: Let_def)

lemma normalizeStrings_set: "set (normalizeStrings vs) = TrimSpace ` set vs - {[]}"
  by (simp add: normalizeStrings_def normalizeStrings_loop_set)

lemma normalizeStrings_idem [simp]: "normalizeStrings (normalizeStrings vs) = normalizeStrings vs"
proof -
  have "distinct (normalizeStrings vs)" "\<forall>v\<in>set (normalizeStrings vs). TrimSpace v = v \<and> v \<noteq> []"
    using normalizeStrings_loop_ok [of "[]" vs] by (simp_all add: normalizeStrings_def)
  then show ?thesis
    using normalizeStrings_loop_id [of "[]" "normalizeStrings vs"] by (simp add: normalizeStrings_def)
qed

lemma normalize_idem [simp]: "normalize (normalize p) = normalize p"
  by (simp add: normalize_def)

lemma principal_Validate_normalize [simp]: "principal_Validate (normalize p) = principal_Validate p"
  by (simp add: principal_Validate_def)

lemma normalize_simps [simp]:
  "p_Type (normalize p) = p_Type p" "p_TenantID (normalize p) = TrimSpace (p_TenantID p)"
  "p_ProjectID (normalize p) = TrimSpace (p_ProjectID p)"
  "p_Capabilities (normalize p) = normalizeStrings (p_Capabilities p)"
  by (simp_all add: normalize_def)

lemma RequirePrincipal_WithPrincipal:
  "RequirePrincipal (WithPrincipal ctx p) =
     (if principal_Validate p = None then Inr (normalize p) else Inl ErrPrincipalRequired)"
  by (simp add: RequirePrincipal_def PrincipalFromContext_def WithPrincipal_def Let_def)

lemma RequireProject_Inr:
  "RequireProject ctx = Inr p \<Longrightarrow>
   p_TenantID p \<noteq> [] \<and> p_ProjectID p \<noteq> [] \<and> normalize p = p \<and> principal_Validate p = None"
  by (auto simp: RequireProject_def RequireTenant_def RequirePrincipal_def PrincipalFromContext_def Let_def
      split: sum.splits option.splits if_splits)

text \<open>What an identity means, without reference to the code: a list of names stands for its
  trimmed, non-empty entries, each kept at its first occurrence; a principal is acceptable when
  it has a subject and an authentication method, and a tenant if it is a user or a service
  account, or a purpose if it is a system principal, none of them mere white space.\<close>

definition name_list :: "string list \<Rightarrow> string list" where
  "name_list vs = rev (remdups (rev (filter (\<lambda>v. v \<noteq> []) (map TrimSpace vs))))"

definition principal_spec :: "Principal \<Rightarrow> Principal" where
  "principal_spec p =
     \<lparr>p_Type = p_Type p, p_SubjectID = TrimSpace (p_SubjectID p), p_TenantID = TrimSpace (p_TenantID p),
      p_ProjectID = TrimSpace (p_ProjectID p), p_Roles = name_list (p_Roles p),
      p_Capabilities = name_list (p_Capabilities p), p_AuthnMethod = TrimSpace (p_AuthnMethod p),
      p_Issuer = TrimSpace (p_Issuer p), p_SessionID = TrimSpace (p_SessionID p),
      p_Purpose = TrimSpace (p_Purpose p)\<rparr>"

definition acceptable :: "Principal \<Rightarrow> bool" where
  "acceptable p \<longleftrightarrow>
     TrimSpace (p_SubjectID p) \<noteq> [] \<and> TrimSpace (p_AuthnMethod p) \<noteq> [] \<and>
     (if p_Type p \<in> {PrincipalUser, PrincipalServiceAccount} then TrimSpace (p_TenantID p) \<noteq> []
      else p_Type p = PrincipalSystem \<and> TrimSpace (p_Purpose p) \<noteq> [])"

lemma normalizeStrings_loop_first:
  "distinct out \<Longrightarrow>
   normalizeStrings_loop out vs = rev (remdups (rev (out @ filter (\<lambda>v. v \<noteq> []) (map TrimSpace vs))))"
proof (induction vs arbitrary: out)
  case (Cons v vs)
  have dup: "remdups (rev ys @ [x] @ rev xs) = remdups (rev ys @ rev xs)" if "x \<in> set xs" for x :: string and xs ys
    using that by (induction ys rule: rev_induct) auto
  show ?case
  proof (cases "TrimSpace v = [] \<or> TrimSpace v \<in> set out")
    case True
    then show ?thesis using Cons dup [of "TrimSpace v" out] by (auto simp: Let_def)
  next
    case False
    then show ?thesis using Cons.IH [of "out @ [TrimSpace v]"] Cons.prems by (simp add: Let_def)
  qed
qed (simp add: distinct_remdups_id)

lemma normalize_spec: "normalize p = principal_spec p"
  by (simp add: normalize_def principal_spec_def name_list_def normalizeStrings_def normalizeStrings_loop_first)

lemma principal_Validate_acceptable: "principal_Validate p = None \<longleftrightarrow> acceptable p"
  by (auto simp: principal_Validate_def acceptable_def normalize_def Let_def split: PrincipalType.splits)

text \<open>C29: an identity in a context. Reading back the principal put into a context gives nothing
  unless the principal is acceptable, and then the principal with every field trimmed and its
  roles and capabilities trimmed, without empty entries, and without repetitions in the
  order of first occurrence. Putting what was read into another context and reading that
  changes nothing: normalisation is idempotent. Asking for project scope fails with the
  principal, the tenant or the project missing, in that order, and otherwise gives
  the same principal; and a capability is held exactly when it is not mere white space and one
  of the listed capabilities equals it up to surrounding white space.\<close>

theorem principal_roundtrip:
  "PrincipalFromContext (WithPrincipal ctx p) = (if acceptable p then Some (principal_spec p) else None) \<and>
   Option.bind (PrincipalFromContext (WithPrincipal ctx p)) (\<lambda>q. PrincipalFromContext (WithPrincipal ctx' q)) =
     PrincipalFromContext (WithPrincipal ctx p) \<and>
   normalize (normalize p) = normalize p \<and>
   RequireProject (WithPrincipal ctx p) =
     (if \<not> acceptable p then Inl ErrPrincipalRequired
      else if TrimSpace (p_TenantID p) = [] then Inl ErrTenantRequired
      else if TrimSpace (p_ProjectID p) = [] then Inl ErrProjectRequired
      else Inr (principal_spec p)) \<and>
   (HasCapability (normalize p) c \<longleftrightarrow> TrimSpace c \<noteq> [] \<and> TrimSpace c \<in> TrimSpace ` set (p_Capabilities p))"
proof -
  have r: "PrincipalFromContext (WithPrincipal c p) = (if acceptable p then Some (normalize p) else None)" for c p
    by (simp add: PrincipalFromContext_def WithPrincipal_def principal_Validate_acceptable [symmetric])
  have a: "acceptable (normalize p) = acceptable p" for p
    by (simp add: principal_Validate_acceptable [symmetric])
  have j: "RequireProject (WithPrincipal ctx p) =
     (if \<not> acceptable p then Inl ErrPrincipalRequired
      else if TrimSpace (p_TenantID p) = [] then Inl ErrTenantRequired
      else if TrimSpace (p_ProjectID p) = [] then Inl ErrProjectRequired
      else Inr (normalize p))"
    by (simp add: RequireProject_def RequireTenant_def RequirePrincipal_def r)
  show ?thesis
    by (auto simp: r a j HasCapability_def normalizeStrings_set normalize_spec [symmetric])
qed

section \<open>Scoped transactions\<close>

definition system_guard :: "Principal \<Rightarrow> goerr option" where
  "system_guard p =
     (if p_Type p = PrincipalSystem \<and> \<not> HasCapability p CapabilityTaskSystemAccess
      then Some (Errorf (''%w: '' @ CapabilityTaskSystemAccess) [ErrCapabilityRequired]) else None)"

definition withScopedTx ::
  "pcontext \<Rightarrow> (Principal \<Rightarrow> 'db \<Rightarrow> goerr + 'a \<times> 'db) \<Rightarrow> 'db \<Rightarrow> (goerr + 'a) \<times> 'db" where
  "withScopedTx ctx f db =
     (case RequireProject ctx of
        Inl e \<Rightarrow> (Inl e, db)
      | Inr p \<Rightarrow>
          (case system_guard p of
             Some e \<Rightarrow> (Inl e, db)
           | None \<Rightarrow> (case f p db of Inl e \<Rightarrow> (Inl e, db) | Inr (v, db') \<Rightarrow> (Inr v, db'))))"

lemma withScopedTx_err: "withScopedTx ctx f db = (Inl e, db') \<Longrightarrow> db' = db"
  by (auto simp: withScopedTx_def split: sum.splits option.splits prod.splits)

lemma withScopedTx_ok:
  "withScopedTx ctx f db = (Inr v, db') \<longleftrightarrow>
     (\<exists>p. RequireProject ctx = Inr p \<and> system_guard p = None \<and> f p db = Inr (v, db'))"
  by (auto simp: withScopedTx_def split: sum.splits option.splits prod.splits)

text \<open>The scope of a context: the principal whose rows its transactions work on.\<close>

definition tx_scope :: "pcontext \<Rightarrow> Principal option" where
  "tx_scope ctx =
     (case RequireProject ctx of
        Inl _ \<Rightarrow> None | Inr p \<Rightarrow> if system_guard p = None then Some p else None)"

lemma withScopedTx_scope:
  "withScopedTx ctx f db =
     (case tx_scope ctx of
        None \<Rightarrow> (case RequireProject ctx of Inl e \<Rightarrow> (Inl e, db) | Inr p \<Rightarrow> (Inl (the (system_guard p)), db))
      | Some p \<Rightarrow> (case f p db of Inl e \<Rightarrow> (Inl e, db) | Inr (v, db') \<Rightarrow> (Inr v, db')))"
  by (auto simp: withScopedTx_def tx_scope_def split: sum.splits option.splits)

lemma tx_scope_Some: "tx_scope ctx = Some p \<longleftrightarrow> RequireProject ctx = Inr p \<and> system_guard p = None"
  by (auto simp: tx_scope_def split: sum.splits)

end
