(* ===== verification/Node_Leases.thy ===== *)
theory Node_Leases
  imports Sql_Table Identity Exec_Types
begin

text \<open>
  The repository of node leases and attempts
  (src/internal/repository/postgres\_execution\_node\_leases.go,
  postgres\_execution\_attempts.go and postgres\_execution\_node\_retry.go) with the two tables
  it works on (src/db/migrations/017 and 018). Every operation is one transaction under
  the row lock of its node, so it is a function on the two tables that either succeeds or
  leaves them as they were. The row level security policy of the tables is part of every
  statement's selection: a transaction sees the rows of its principal's tenant and project.

  The database clock and the random bytes of tokens are arguments, as is what the driver
  does with a time that is not a whole number of microseconds and with a cost that goes
  into a \<open>NUMERIC(20,8)\<close> column. Columns that hold NULL for the empty string hold the empty
  string. Failures of the connection are not modelled: they end a transaction like any
  other error.
\<close>

section \<open>Tables\<close>

record nodeRuntimeRow =
  row_tenant :: string
  row_project :: string
  row_record :: NodeRuntimeRecord
  row_leaseOwner :: "string option"
  row_leaseToken :: "string option"
  row_claimedAt :: "gotime option"
  row_heartbeatAt :: "gotime option"
  row_leaseExpiresAt :: "gotime option"
  row_createdAt :: gotime

record attemptRow =
  aw_tenant :: string
  aw_project :: string
  aw_attempt_id :: AttemptID
  aw_execution_id :: ExecutionID
  aw_plan_revision :: int
  aw_node_id :: NodeID
  aw_attempt_number :: int
  aw_lease_fence :: int
  aw_lease_owner :: string
  aw_status :: AttemptStatus
  aw_target_id :: "TargetID option"
  aw_target_revision :: "int option"
  aw_target_snapshot :: "string option"
  aw_policy_decision_id :: "PolicyDecisionID option"
  aw_budget_reservation_id :: "string option"
  aw_idempotency_key :: string
  aw_error_class :: ErrorClass
  aw_input_tokens :: int
  aw_output_tokens :: int
  aw_cost :: f64
  aw_duration_ms :: int
  aw_claimed_at :: gotime
  aw_started_at :: "gotime option"
  aw_effect_started_at :: "gotime option"
  aw_effect_committed_at :: "gotime option"
  aw_finished_at :: "gotime option"
  aw_created_at :: gotime
  aw_updated_at :: gotime

record leaseDB =
  db_runtime :: "nodeRuntimeRow list"
  db_attempts :: "attemptRow list"

record pgDriver =
  pg_time :: "gotime \<Rightarrow> gotime"
  pg_numeric :: "f64 \<Rightarrow> f64 option"

text \<open>The constraints of the two tables.\<close>

definition lease_state_contract :: "nodeRuntimeRow \<Rightarrow> bool" where
  "lease_state_contract r \<longleftrightarrow>
     (if nr_State (row_record r) = NodeRunning
      then row_leaseOwner r \<noteq> None \<and> row_leaseToken r \<noteq> None \<and> row_heartbeatAt r \<noteq> None \<and>
           (case (row_claimedAt r, row_leaseExpiresAt r) of (Some c, Some e) \<Rightarrow> e > c | _ \<Rightarrow> False)
      else row_leaseOwner r = None \<and> row_leaseToken r = None \<and> row_claimedAt r = None \<and>
           row_heartbeatAt r = None \<and> row_leaseExpiresAt r = None)"

definition node_row_ok :: "nodeRuntimeRow \<Rightarrow> bool" where
  "node_row_ok r \<longleftrightarrow>
     (let n = row_record r in
      nr_PlanRevision n \<ge> 1 \<and> 0 \<le> nr_AttemptNumber n \<and> nr_AttemptNumber n < 2 ^ 31 \<and>
      0 \<le> nr_LeaseFence n \<and> nr_LeaseFence n < 2 ^ 63 \<and> (case nr_State n of NodeStateOther _ \<Rightarrow> False | _ \<Rightarrow> True) \<and>
      (case nr_EffectClass n of EffectClassOther _ \<Rightarrow> False | _ \<Rightarrow> True) \<and>
      (nr_EffectClass n = EffectIdempotentMutation \<longrightarrow> nr_IdempotencyKey n \<noteq> []) \<and>
      (nr_EffectClass n = EffectNonIdempotentMutation \<longrightarrow> \<not> nr_RetrySafe n) \<and>
      lease_state_contract r \<and>
      (nr_EffectCommittedAt n \<noteq> None \<longrightarrow> nr_EffectStartedAt n \<noteq> None))"

definition target_complete :: "attemptRow \<Rightarrow> bool" where
  "target_complete a \<longleftrightarrow>
     aw_target_id a \<noteq> None \<and> aw_target_id a \<noteq> Some [] \<and>
     (case aw_target_revision a of Some v \<Rightarrow> v \<ge> 1 | None \<Rightarrow> False) \<and>
     aw_target_snapshot a \<noteq> None \<and> aw_target_snapshot a \<noteq> Some []"

definition attempt_lifecycle :: "attemptRow \<Rightarrow> bool" where
  "attempt_lifecycle a =
     (case aw_status a of
        AttemptPending \<Rightarrow> aw_started_at a = None \<and> aw_finished_at a = None
      | AttemptRunning \<Rightarrow> aw_started_at a \<noteq> None \<and> aw_finished_at a = None
      | AttemptSucceeded \<Rightarrow> aw_started_at a \<noteq> None \<and> aw_finished_at a \<noteq> None
      | AttemptFailed \<Rightarrow> aw_started_at a \<noteq> None \<and> aw_finished_at a \<noteq> None
      | AttemptCancelled \<Rightarrow> aw_finished_at a \<noteq> None
      | AttemptAbandoned \<Rightarrow> aw_finished_at a \<noteq> None
      | AttemptStatusOther _ \<Rightarrow> False)"

definition attempt_row_ok :: "attemptRow \<Rightarrow> bool" where
  "attempt_row_ok a \<longleftrightarrow>
     aw_plan_revision a \<ge> 1 \<and> 1 \<le> aw_attempt_number a \<and> aw_attempt_number a < 2 ^ 31 \<and>
     1 \<le> aw_lease_fence a \<and>
     (aw_target_id a = None \<and> aw_target_revision a = None \<and> aw_target_snapshot a = None \<or> target_complete a) \<and>
     attempt_lifecycle a \<and>
     (aw_started_at a \<noteq> None \<longrightarrow>
        target_complete a \<and>
        aw_policy_decision_id a \<noteq> None \<and> aw_policy_decision_id a \<noteq> Some [] \<and>
        aw_budget_reservation_id a \<noteq> None \<and> aw_budget_reservation_id a \<noteq> Some []) \<and>
     (aw_status a = AttemptFailed \<longrightarrow> aw_error_class a \<noteq> ErrorClassOther []) \<and>
     (aw_effect_committed_at a \<noteq> None \<longrightarrow> aw_effect_started_at a \<noteq> None) \<and>
     0 \<le> aw_input_tokens a \<and> 0 \<le> aw_output_tokens a \<and> \<not> f64_lt (aw_cost a) (Fin 0) \<and> 0 \<le> aw_duration_ms a"

type_synonym node_key = "string \<times> string \<times> ExecutionID \<times> int \<times> NodeID"

definition node_key :: "nodeRuntimeRow \<Rightarrow> node_key" where
  "node_key r = (row_tenant r, row_project r, nr_ExecutionRef (row_record r),
     nr_PlanRevision (row_record r), nr_NodeRef (row_record r))"

definition attempt_node :: "attemptRow \<Rightarrow> node_key" where
  "attempt_node a = (aw_tenant a, aw_project a, aw_execution_id a, aw_plan_revision a, aw_node_id a)"

definition attempt_key :: "attemptRow \<Rightarrow> string \<times> string \<times> AttemptID" where
  "attempt_key a = (aw_tenant a, aw_project a, aw_attempt_id a)"

definition attempt_conflict :: "attemptRow \<Rightarrow> attemptRow \<Rightarrow> bool" where
  "attempt_conflict a b \<longleftrightarrow>
     attempt_key a = attempt_key b \<or>
     attempt_node a = attempt_node b \<and>
       (aw_attempt_number a = aw_attempt_number b \<or> aw_lease_fence a = aw_lease_fence b)"

section \<open>Errors and validation\<close>

definition ErrNodeRuntimeNotFound :: goerr where
  "ErrNodeRuntimeNotFound = ErrNew ''execution node runtime not found''"

definition ErrNodeRuntimeExists :: goerr where
  "ErrNodeRuntimeExists = ErrNew ''execution node runtime already exists''"

definition ErrNodeNotClaimable :: goerr where
  "ErrNodeNotClaimable = ErrNew ''execution node is not claimable''"

definition ErrNodeLeaseHeld :: goerr where
  "ErrNodeLeaseHeld = ErrNew ''execution node lease is held by another worker''"

definition ErrNodeLeaseLost :: goerr where
  "ErrNodeLeaseLost = ErrNew ''execution node lease is no longer valid''"

definition ErrNodeRecoveryRequired :: goerr where
  "ErrNodeRecoveryRequired = ErrNew ''execution node requires recovery review before retry''"

definition ErrNodeEffectNotCommitted :: goerr where
  "ErrNodeEffectNotCommitted = ErrNew ''execution node mutation effect is not committed''"

definition ErrAttemptCompletion :: goerr where
  "ErrAttemptCompletion = ErrNew ''execution attempt completion does not match node terminal state''"

definition ErrAttemptNotFound :: goerr where
  "ErrAttemptNotFound = ErrNew ''execution attempt not found''"

definition ErrAttemptStateConflict :: goerr where
  "ErrAttemptStateConflict = ErrNew ''execution attempt state conflict''"

definition ErrAttemptBindingInvalid :: goerr where
  "ErrAttemptBindingInvalid = ErrNew ''execution attempt binding is invalid''"

definition validateNodeRuntimeRecord :: "NodeRuntimeRecord \<Rightarrow> goerr option" where
  "validateNodeRuntimeRecord r =
     (if nr_ExecutionRef r = [] \<or> nr_PlanRevision r < 1 \<or> nr_NodeRef r = []
        then Some (Errorf ''execution, positive plan revision and node are required'' [])
      else if nr_State r = NodeStateOther [] then Some (Errorf ''node state is required'' [])
      else if nr_EffectClass r = EffectIdempotentMutation \<and> TrimSpace (nr_IdempotencyKey r) = []
        then Some (Errorf ''idempotent mutation requires idempotency key'' [])
      else if nr_EffectClass r = EffectNonIdempotentMutation \<and> nr_RetrySafe r
        then Some (Errorf ''non-idempotent mutation cannot be registered retry-safe'' [])
      else None)"

definition validateLeaseIdentity ::
  "ExecutionID \<Rightarrow> int \<Rightarrow> NodeID \<Rightarrow> string \<Rightarrow> duration \<Rightarrow> goerr option" where
  "validateLeaseIdentity ex rv nd owner dur =
     (if ex = [] \<or> rv < 1 \<or> nd = [] \<or> TrimSpace owner = []
        then Some (Errorf ''execution, positive plan revision, node and lease owner are required'' [])
      else if dur \<le> 0 then Some (Errorf ''positive lease duration is required'' [])
      else None)"

definition validateLeaseAttempt :: "NodeLease \<Rightarrow> goerr option" where
  "validateLeaseAttempt l =
     (if nl_AttemptRef l = [] \<or> nl_AttemptNumber l < 1 \<or> nl_Fence l < 1
      then Some (Errorf ''lease attempt reference, positive attempt number and fence are required'' [])
      else None)"

definition validateHeldLease :: "NodeLease \<Rightarrow> duration \<Rightarrow> goerr option" where
  "validateHeldLease l dur =
     (case validateLeaseIdentity (nl_ExecutionRef l) (nl_PlanRevision l) (nl_NodeRef l) (nl_OwnerWorkerID l) dur of
        Some e \<Rightarrow> Some e
      | None \<Rightarrow>
          (case validateLeaseAttempt l of
             Some e \<Rightarrow> Some e
           | None \<Rightarrow>
               if TrimSpace (nl_Token l) = [] \<or> nl_Fence l < 1
               then Some (Errorf ''lease token and positive fence are required'' []) else None))"

definition validateAttemptCompletion :: "NodeState \<Rightarrow> AttemptCompletion \<Rightarrow> goerr option" where
  "validateAttemptCompletion terminal c =
     (if \<not> AttemptCompletion_Terminal c \<or> cp_Status c = AttemptAbandoned then Some ErrAttemptCompletion
      else if \<not> (terminal = NodeSucceeded \<and> cp_Status c = AttemptSucceeded \<or>
                  terminal = NodeFailed \<and> cp_Status c = AttemptFailed \<or>
                  terminal = NodeCancelled \<and> cp_Status c = AttemptCancelled)
        then Some ErrAttemptCompletion
      else if terminal = NodeFailed \<and> cp_ErrorClass c = ErrorClassOther []
        then Some (Errorf ''%w: failed attempt requires error class'' [ErrAttemptCompletion])
      else if us_InputTokens (cp_Usage c) < 0 \<or> us_OutputTokens (cp_Usage c) < 0 \<or>
              f64_lt (us_Cost (cp_Usage c)) (Fin 0) \<or> us_Duration (cp_Usage c) < 0
        then Some (Errorf ''%w: usage cannot be negative'' [ErrAttemptCompletion])
      else None)"

definition validateAttemptBinding :: "AttemptBinding \<Rightarrow> goerr option" where
  "validateAttemptBinding b =
     (if ab_TargetRef b = [] \<or> ab_TargetRevision b < 1 \<or> TrimSpace (ab_TargetSnapshot b) = []
        then Some (Errorf ''%w: target id, positive revision and snapshot are required'' [ErrAttemptBindingInvalid])
      else if ab_PolicyDecisionRef b = []
        then Some (Errorf ''%w: policy decision is required'' [ErrAttemptBindingInvalid])
      else if TrimSpace (ab_BudgetReservationRef b) = []
        then Some (Errorf ''%w: budget reservation is required'' [ErrAttemptBindingInvalid])
      else None)"

definition isMutation :: "EffectClass \<Rightarrow> bool" where
  "isMutation e \<longleftrightarrow> e = EffectIdempotentMutation \<or> e = EffectNonIdempotentMutation"

text \<open>Tokens: sixteen random bytes in hexadecimal.\<close>

definition hex_digit :: "nat \<Rightarrow> char" where
  "hex_digit n = (if n < 10 then char_of (48 + n) else char_of (87 + n))"

definition hex_EncodeToString :: "char list \<Rightarrow> string" where
  "hex_EncodeToString bs =
     concat (map (\<lambda>b. [hex_digit (of_char b div 16), hex_digit (of_char b mod 16)]) bs)"

definition newLeaseToken :: "goerr + char list \<Rightarrow> goerr + string" where
  "newLeaseToken rnd =
     (case rnd of
        Inl e \<Rightarrow> Inl (Errorf ''generate lease token: %w'' [e])
      | Inr bytes \<Rightarrow> Inr (hex_EncodeToString bytes))"

definition newAttemptID :: "goerr + char list \<Rightarrow> goerr + AttemptID" where
  "newAttemptID rnd = (case newLeaseToken rnd of Inl e \<Rightarrow> Inl e | Inr t \<Rightarrow> Inr (''att_'' @ t))"

section \<open>Statements\<close>

definition visible :: "Principal \<Rightarrow> nodeRuntimeRow \<Rightarrow> bool" where
  "visible p r \<longleftrightarrow> row_tenant r = p_TenantID p \<and> row_project r = p_ProjectID p"

definition attempt_visible :: "Principal \<Rightarrow> attemptRow \<Rightarrow> bool" where
  "attempt_visible p a \<longleftrightarrow> aw_tenant a = p_TenantID p \<and> aw_project a = p_ProjectID p"

definition where_node :: "Principal \<Rightarrow> ExecutionID \<Rightarrow> int \<Rightarrow> NodeID \<Rightarrow> nodeRuntimeRow \<Rightarrow> bool" where
  "where_node p ex rv nd r \<longleftrightarrow>
     visible p r \<and> nr_ExecutionRef (row_record r) = ex \<and> nr_PlanRevision (row_record r) = rv \<and>
     nr_NodeRef (row_record r) = nd"

definition where_attempt :: "Principal \<Rightarrow> ExecutionID \<Rightarrow> int \<Rightarrow> NodeID \<Rightarrow> attemptRow \<Rightarrow> bool" where
  "where_attempt p ex rv nd a \<longleftrightarrow>
     attempt_visible p a \<and> aw_execution_id a = ex \<and> aw_plan_revision a = rv \<and> aw_node_id a = nd"

definition where_held :: "Principal \<Rightarrow> NodeLease \<Rightarrow> gotime \<Rightarrow> nodeRuntimeRow \<Rightarrow> bool" where
  "where_held p l now r \<longleftrightarrow>
     where_node p (nl_ExecutionRef l) (nl_PlanRevision l) (nl_NodeRef l) r \<and>
     nr_State (row_record r) = NodeRunning \<and> row_leaseOwner r = Some (nl_OwnerWorkerID l) \<and>
     row_leaseToken r = Some (nl_Token l) \<and> nr_LeaseFence (row_record r) = nl_Fence l \<and>
     (case row_leaseExpiresAt r of Some e \<Rightarrow> e > now | None \<Rightarrow> False)"

definition where_lease_attempt :: "Principal \<Rightarrow> NodeLease \<Rightarrow> attemptRow \<Rightarrow> bool" where
  "where_lease_attempt p l a \<longleftrightarrow>
     where_attempt p (nl_ExecutionRef l) (nl_PlanRevision l) (nl_NodeRef l) a \<and>
     aw_attempt_id a = nl_AttemptRef l \<and> aw_lease_fence a = nl_Fence l \<and>
     aw_attempt_number a = nl_AttemptNumber l"

text \<open>An update of one row of a table: the statement's own error, then the check of the
  number of rows it affected.\<close>

definition update_one ::
  "('r \<Rightarrow> bool) \<Rightarrow> ('r \<Rightarrow> bool) \<Rightarrow> ('r \<Rightarrow> 'r) \<Rightarrow> string \<Rightarrow> goerr \<Rightarrow> 'r list \<Rightarrow> goerr + 'r list" where
  "update_one check p f msg none t =
     (case sql_update check p f t of
        Inl e \<Rightarrow> Inl (Errorf msg [e])
      | Inr (affected, t') \<Rightarrow> if affected \<noteq> 1 then Inl none else Inr t')"

definition update_runtime ::
  "(nodeRuntimeRow \<Rightarrow> bool) \<Rightarrow> (nodeRuntimeRow \<Rightarrow> nodeRuntimeRow) \<Rightarrow> string \<Rightarrow> goerr \<Rightarrow> leaseDB \<Rightarrow> goerr + leaseDB" where
  "update_runtime p f msg none db =
     (case update_one node_row_ok p f msg none (db_runtime db) of
        Inl e \<Rightarrow> Inl e | Inr t \<Rightarrow> Inr (db\<lparr>db_runtime := t\<rparr>))"

definition update_attempts ::
  "(attemptRow \<Rightarrow> bool) \<Rightarrow> (attemptRow \<Rightarrow> attemptRow) \<Rightarrow> string \<Rightarrow> leaseDB \<Rightarrow> goerr + leaseDB" where
  "update_attempts p f msg db =
     (case update_one attempt_row_ok p f msg ErrAttemptStateConflict (db_attempts db) of
        Inl e \<Rightarrow> Inl e | Inr t \<Rightarrow> Inr (db\<lparr>db_attempts := t\<rparr>))"

definition loadNodeRuntime ::
  "Principal \<Rightarrow> ExecutionID \<Rightarrow> int \<Rightarrow> NodeID \<Rightarrow> leaseDB \<Rightarrow> goerr + nodeRuntimeRow" where
  "loadNodeRuntime p ex rv nd db =
     (case sql_query_row (where_node p ex rv nd) (db_runtime db) of
        None \<Rightarrow> Inl ErrNodeRuntimeNotFound | Some r \<Rightarrow> Inr r)"

definition leaseOwnsRow :: "nodeRuntimeRow \<Rightarrow> NodeLease \<Rightarrow> gotime \<Rightarrow> bool" where
  "leaseOwnsRow r l now \<longleftrightarrow>
     nr_State (row_record r) = NodeRunning \<and> row_leaseOwner r = Some (nl_OwnerWorkerID l) \<and>
     row_leaseToken r = Some (nl_Token l) \<and> nr_LeaseFence (row_record r) = nl_Fence l \<and>
     nr_AttemptNumber (row_record r) = nl_AttemptNumber l \<and>
     (case row_leaseExpiresAt r of Some e \<Rightarrow> time_Before now e | None \<Rightarrow> False)"

definition clear_lease :: "nodeRuntimeRow \<Rightarrow> nodeRuntimeRow" where
  "clear_lease r = r\<lparr>row_leaseOwner := None, row_leaseToken := None, row_claimedAt := None,
     row_heartbeatAt := None, row_leaseExpiresAt := None\<rparr>"

definition set_state :: "NodeState \<Rightarrow> gotime \<Rightarrow> nodeRuntimeRow \<Rightarrow> nodeRuntimeRow" where
  "set_state st now r = r\<lparr>row_record := (row_record r)\<lparr>nr_State := st, nr_UpdatedAt := now\<rparr>\<rparr>"

section \<open>Attempts inside a transaction\<close>

definition pending_attempt ::
  "Principal \<Rightarrow> AttemptID \<Rightarrow> ExecutionID \<Rightarrow> int \<Rightarrow> NodeID \<Rightarrow> int \<Rightarrow> int \<Rightarrow> string \<Rightarrow> string \<Rightarrow> gotime \<Rightarrow> attemptRow" where
  "pending_attempt p aid ex rv nd num fence owner key now =
     \<lparr>aw_tenant = p_TenantID p, aw_project = p_ProjectID p, aw_attempt_id = aid, aw_execution_id = ex,
      aw_plan_revision = rv, aw_node_id = nd, aw_attempt_number = num, aw_lease_fence = fence,
      aw_lease_owner = owner, aw_status = AttemptPending, aw_target_id = None, aw_target_revision = None,
      aw_target_snapshot = None, aw_policy_decision_id = None, aw_budget_reservation_id = None,
      aw_idempotency_key = key, aw_error_class = ErrorClassOther [], aw_input_tokens = 0,
      aw_output_tokens = 0, aw_cost = Fin 0, aw_duration_ms = 0, aw_claimed_at = now,
      aw_started_at = None, aw_effect_started_at = None, aw_effect_committed_at = None,
      aw_finished_at = None, aw_created_at = now, aw_updated_at = now\<rparr>"

definition insertPendingAttemptTx ::
  "Principal \<Rightarrow> AttemptID \<Rightarrow> ExecutionID \<Rightarrow> int \<Rightarrow> NodeID \<Rightarrow> int \<Rightarrow> int \<Rightarrow> string \<Rightarrow> string \<Rightarrow> gotime
     \<Rightarrow> leaseDB \<Rightarrow> goerr + leaseDB" where
  "insertPendingAttemptTx p aid ex rv nd num fence owner key now db =
     (case sql_insert attempt_row_ok attempt_conflict
             (pending_attempt p aid ex rv nd num fence owner key now) (db_attempts db) of
        Inl e \<Rightarrow> Inl (Errorf ''insert pending execution attempt: %w'' [e])
      | Inr t \<Rightarrow> Inr (db\<lparr>db_attempts := t\<rparr>))"

definition live_status :: "AttemptStatus \<Rightarrow> bool" where
  "live_status s \<longleftrightarrow> s = AttemptPending \<or> s = AttemptRunning"

definition abandonAttemptTx ::
  "Principal \<Rightarrow> ExecutionID \<Rightarrow> int \<Rightarrow> NodeID \<Rightarrow> int \<Rightarrow> int \<Rightarrow> gotime \<Rightarrow> leaseDB \<Rightarrow> goerr + leaseDB" where
  "abandonAttemptTx p ex rv nd num fence now =
     update_attempts
       (\<lambda>a. where_attempt p ex rv nd a \<and> aw_attempt_number a = num \<and> aw_lease_fence a = fence \<and>
            live_status (aw_status a))
       (\<lambda>a. a\<lparr>aw_status := AttemptAbandoned, aw_finished_at := Some now, aw_updated_at := now\<rparr>)
       ''abandon execution attempt: %w''"

definition updateAttemptEffectStartedTx ::
  "Principal \<Rightarrow> NodeLease \<Rightarrow> gotime \<Rightarrow> leaseDB \<Rightarrow> goerr + leaseDB" where
  "updateAttemptEffectStartedTx p l now =
     update_attempts
       (\<lambda>a. where_lease_attempt p l a \<and> aw_status a = AttemptRunning \<and> aw_effect_started_at a = None)
       (\<lambda>a. a\<lparr>aw_effect_started_at := Some now, aw_updated_at := now\<rparr>)
       ''mark attempt effect started: %w''"

definition updateAttemptEffectCommittedTx ::
  "Principal \<Rightarrow> NodeLease \<Rightarrow> gotime \<Rightarrow> leaseDB \<Rightarrow> goerr + leaseDB" where
  "updateAttemptEffectCommittedTx p l now =
     update_attempts
       (\<lambda>a. where_lease_attempt p l a \<and> aw_status a = AttemptRunning \<and>
            aw_effect_started_at a \<noteq> None \<and> aw_effect_committed_at a = None)
       (\<lambda>a. a\<lparr>aw_effect_committed_at := Some now, aw_updated_at := now\<rparr>)
       ''mark attempt effect committed: %w''"

definition Milliseconds :: "duration \<Rightarrow> int" where
  "Milliseconds d = (if d < 0 then - ((- d) div 1000000) else d div 1000000)"

definition completeAttemptTx ::
  "pgDriver \<Rightarrow> Principal \<Rightarrow> NodeLease \<Rightarrow> AttemptCompletion \<Rightarrow> gotime \<Rightarrow> leaseDB \<Rightarrow> goerr + leaseDB" where
  "completeAttemptTx pg p l c now db =
     (case pg_numeric pg (us_Cost (cp_Usage c)) of
        None \<Rightarrow> Inl (Errorf ''complete execution attempt: %w'' [ErrNew ''pq: numeric field overflow''])
      | Some cost \<Rightarrow>
          update_attempts
            (\<lambda>a. where_lease_attempt p l a \<and>
                 (aw_status a = AttemptRunning \<or>
                  cp_Status c = AttemptCancelled \<and> aw_status a = AttemptPending))
            (\<lambda>a. a\<lparr>aw_status := cp_Status c, aw_error_class := cp_ErrorClass c,
                   aw_input_tokens := us_InputTokens (cp_Usage c),
                   aw_output_tokens := us_OutputTokens (cp_Usage c), aw_cost := cost,
                   aw_duration_ms := Milliseconds (us_Duration (cp_Usage c)),
                   aw_finished_at := Some now, aw_updated_at := now\<rparr>)
            ''complete execution attempt: %w'' db)"

definition loadCurrentAttemptIDTx ::
  "Principal \<Rightarrow> ExecutionID \<Rightarrow> int \<Rightarrow> NodeID \<Rightarrow> int \<Rightarrow> int \<Rightarrow> leaseDB \<Rightarrow> goerr + AttemptID" where
  "loadCurrentAttemptIDTx p ex rv nd num fence db =
     (case sql_query_row
             (\<lambda>a. where_attempt p ex rv nd a \<and> aw_attempt_number a = num \<and> aw_lease_fence a = fence)
             (db_attempts db) of
        None \<Rightarrow> Inl ErrAttemptNotFound | Some a \<Rightarrow> Inr (aw_attempt_id a))"

definition or_zero :: "'a \<Rightarrow> 'a option \<Rightarrow> 'a" where
  "or_zero z x = (case x of None \<Rightarrow> z | Some v \<Rightarrow> v)"

definition scanAttempt :: "attemptRow \<Rightarrow> AttemptRecord" where
  "scanAttempt a =
     \<lparr>ar_Attempt =
        \<lparr>at_ID = aw_attempt_id a, at_ExecutionRef = aw_execution_id a, at_NodeRef = aw_node_id a,
         at_TargetRef = or_zero [] (aw_target_id a), at_TargetRevision = or_zero 0 (aw_target_revision a),
         at_TargetSnapshot = or_zero [] (aw_target_snapshot a), at_AttemptNumber = aw_attempt_number a,
         at_Status = aw_status a, at_ErrorClass = aw_error_class a,
         at_Usage = \<lparr>us_InputTokens = aw_input_tokens a, us_OutputTokens = aw_output_tokens a,
           us_Cost = aw_cost a, us_Duration = wrap64 (aw_duration_ms a * 1000000)\<rparr>,
         at_IdempotencyKey = aw_idempotency_key a, at_EffectStartedAt = aw_effect_started_at a,
         at_EffectCommittedAt = aw_effect_committed_at a, at_StartedAt = or_zero 0 (aw_started_at a),
         at_FinishedAt = aw_finished_at a\<rparr>,
      ar_PlanRevision = aw_plan_revision a, ar_LeaseFence = aw_lease_fence a,
      ar_LeaseOwner = aw_lease_owner a,
      ar_PolicyDecisionRef = or_zero [] (aw_policy_decision_id a),
      ar_BudgetReservationRef = or_zero [] (aw_budget_reservation_id a),
      ar_ClaimedAt = aw_claimed_at a, ar_CreatedAt = aw_created_at a, ar_UpdatedAt = aw_updated_at a\<rparr>"

definition loadAttemptTx :: "Principal \<Rightarrow> AttemptID \<Rightarrow> leaseDB \<Rightarrow> goerr + AttemptRecord" where
  "loadAttemptTx p aid db =
     (case sql_query_row (\<lambda>a. attempt_visible p a \<and> aw_attempt_id a = aid) (db_attempts db) of
        None \<Rightarrow> Inl ErrAttemptNotFound | Some a \<Rightarrow> Inr (scanAttempt a))"

section \<open>Operations\<close>

text \<open>The shape of an operation: a check of the arguments, then the transaction.\<close>

definition checked_tx ::
  "goerr option \<Rightarrow> pcontext \<Rightarrow> (Principal \<Rightarrow> leaseDB \<Rightarrow> goerr + 'a \<times> leaseDB) \<Rightarrow> leaseDB
     \<Rightarrow> (goerr + 'a) \<times> leaseDB" where
  "checked_tx chk ctx f db =
     (case chk of Some e \<Rightarrow> (Inl e, db) | None \<Rightarrow> withScopedTx ctx f db)"

definition new_row :: "Principal \<Rightarrow> NodeRuntimeRecord \<Rightarrow> gotime \<Rightarrow> nodeRuntimeRow" where
  "new_row p r now =
     \<lparr>row_tenant = p_TenantID p, row_project = p_ProjectID p,
      row_record = r\<lparr>nr_EffectStartedAt := None, nr_EffectCommittedAt := None, nr_UpdatedAt := now\<rparr>,
      row_leaseOwner = None, row_leaseToken = None, row_claimedAt = None, row_heartbeatAt = None,
      row_leaseExpiresAt = None, row_createdAt = now\<rparr>"

definition register_tx ::
  "NodeRuntimeRecord \<Rightarrow> gotime \<Rightarrow> Principal \<Rightarrow> leaseDB \<Rightarrow> goerr + unit \<times> leaseDB" where
  "register_tx r now p db =
     (case sql_insert_or_nothing node_row_ok (\<lambda>a b. node_key a = node_key b) (new_row p r now) (db_runtime db) of
        Inl e \<Rightarrow> Inl (Errorf ''register execution node runtime: %w'' [e])
      | Inr (affected, t) \<Rightarrow>
          if affected \<noteq> 1 then Inl ErrNodeRuntimeExists else Inr ((), db\<lparr>db_runtime := t\<rparr>))"

definition Register :: "pcontext \<Rightarrow> NodeRuntimeRecord \<Rightarrow> gotime \<Rightarrow> leaseDB \<Rightarrow> (goerr + unit) \<times> leaseDB" where
  "Register ctx r now = checked_tx (validateNodeRuntimeRecord r) ctx (register_tx r now)"

definition lease_unexpired :: "nodeRuntimeRow \<Rightarrow> gotime \<Rightarrow> bool" where
  "lease_unexpired r now \<longleftrightarrow> (case row_leaseExpiresAt r of Some e \<Rightarrow> time_Before now e | None \<Rightarrow> False)"

definition claim_guard :: "nodeRuntimeRow \<Rightarrow> gotime \<Rightarrow> goerr + bool" where
  "claim_guard r now =
     (if NodeRuntimeRecord_Terminal (row_record r) then Inl ErrNodeNotClaimable
      else case nr_State (row_record r) of
             NodeReady \<Rightarrow> if row_leaseToken r \<noteq> None then Inl ErrNodeLeaseHeld else Inr False
           | NodeRunning \<Rightarrow>
               if lease_unexpired r now then Inl ErrNodeLeaseHeld
               else if \<not> nr_RetrySafe (row_record r) \<or> nr_EffectCommittedAt (row_record r) \<noteq> None
                 then Inl ErrNodeRecoveryRequired
               else Inr True
           | _ \<Rightarrow> Inl ErrNodeNotClaimable)"

definition claim_row ::
  "pgDriver \<Rightarrow> int \<Rightarrow> string \<Rightarrow> string \<Rightarrow> int \<Rightarrow> gotime \<Rightarrow> gotime \<Rightarrow> nodeRuntimeRow \<Rightarrow> nodeRuntimeRow" where
  "claim_row pg num owner token fence now expiresAt r = r
     \<lparr>row_record := (row_record r)
        \<lparr>nr_State := NodeRunning, nr_AttemptNumber := num, nr_LeaseFence := fence,
         nr_EffectStartedAt := None, nr_EffectCommittedAt := None, nr_UpdatedAt := now\<rparr>,
      row_leaseOwner := Some owner, row_leaseToken := Some token, row_claimedAt := Some now,
      row_heartbeatAt := Some now, row_leaseExpiresAt := Some (pg_time pg expiresAt)\<rparr>"

definition claim_tx ::
  "pgDriver \<Rightarrow> ExecutionID \<Rightarrow> int \<Rightarrow> NodeID \<Rightarrow> string \<Rightarrow> duration \<Rightarrow> goerr + char list \<Rightarrow> goerr + char list
     \<Rightarrow> gotime \<Rightarrow> Principal \<Rightarrow> leaseDB \<Rightarrow> goerr + NodeLease \<times> leaseDB" where
  "claim_tx pg ex rv nd owner dur rnd1 rnd2 now p db =
     sum_bind (loadNodeRuntime p ex rv nd db) (\<lambda>row.
     sum_bind (claim_guard row now) (\<lambda>reclaim.
     sum_bind (if reclaim
               then abandonAttemptTx p ex rv nd (nr_AttemptNumber (row_record row)) (nr_LeaseFence (row_record row)) now db
               else Inr db) (\<lambda>db1.
     sum_bind (newLeaseToken rnd1) (\<lambda>token.
     sum_bind (newAttemptID rnd2) (\<lambda>aid.
     let expiresAt = time_Add now dur;
         num = wrap64 (nr_AttemptNumber (row_record row) + 1);
         fence = wrap64 (nr_LeaseFence (row_record row) + 1)
     in
     sum_bind (update_runtime (where_node p ex rv nd) (claim_row pg num owner token fence now expiresAt)
                 ''claim execution node: %w'' ErrNodeLeaseLost db1) (\<lambda>db2.
     sum_bind (insertPendingAttemptTx p aid ex rv nd num fence owner
                 (nr_IdempotencyKey (row_record row)) now db2) (\<lambda>db3.
     Inr (\<lparr>nl_ExecutionRef = ex, nl_PlanRevision = rv, nl_NodeRef = nd, nl_AttemptRef = aid,
           nl_OwnerWorkerID = owner, nl_Token = token, nl_Fence = fence, nl_AttemptNumber = num,
           nl_ClaimedAt = now, nl_HeartbeatAt = now, nl_ExpiresAt = expiresAt\<rparr>, db3))))))))"

definition Claim ::
  "pgDriver \<Rightarrow> pcontext \<Rightarrow> ExecutionID \<Rightarrow> int \<Rightarrow> NodeID \<Rightarrow> string \<Rightarrow> duration \<Rightarrow> goerr + char list \<Rightarrow> goerr + char list
     \<Rightarrow> gotime \<Rightarrow> leaseDB \<Rightarrow> (goerr + NodeLease) \<times> leaseDB" where
  "Claim pg ctx ex rv nd owner dur rnd1 rnd2 now =
     checked_tx (validateLeaseIdentity ex rv nd owner dur) ctx (claim_tx pg ex rv nd owner dur rnd1 rnd2 now)"

definition renew_tx ::
  "pgDriver \<Rightarrow> NodeLease \<Rightarrow> duration \<Rightarrow> gotime \<Rightarrow> Principal \<Rightarrow> leaseDB \<Rightarrow> goerr + NodeLease \<times> leaseDB" where
  "renew_tx pg l dur now p db =
     (let expiresAt = time_Add now dur in
      sum_bind (update_runtime (where_held p l now)
          (\<lambda>r. r\<lparr>row_heartbeatAt := Some now, row_leaseExpiresAt := Some (pg_time pg expiresAt),
                 row_record := (row_record r)\<lparr>nr_UpdatedAt := now\<rparr>\<rparr>)
          ''renew execution node lease: %w'' ErrNodeLeaseLost db) (\<lambda>db1.
      Inr (l\<lparr>nl_ExpiresAt := expiresAt, nl_HeartbeatAt := now\<rparr>, db1)))"

definition Renew ::
  "pgDriver \<Rightarrow> pcontext \<Rightarrow> NodeLease \<Rightarrow> duration \<Rightarrow> gotime \<Rightarrow> leaseDB \<Rightarrow> (goerr + NodeLease) \<times> leaseDB" where
  "Renew pg ctx l dur now = checked_tx (validateHeldLease l dur) ctx (renew_tx pg l dur now)"

definition effect_started_tx :: "NodeLease \<Rightarrow> gotime \<Rightarrow> Principal \<Rightarrow> leaseDB \<Rightarrow> goerr + unit \<times> leaseDB" where
  "effect_started_tx l now p db =
     sum_bind (update_runtime
         (\<lambda>r. where_held p l now r \<and> nr_EffectStartedAt (row_record r) = None)
         (\<lambda>r. r\<lparr>row_record := (row_record r)\<lparr>nr_EffectStartedAt := Some now, nr_UpdatedAt := now\<rparr>\<rparr>)
         ''mark node effect started: %w'' ErrNodeLeaseLost db) (\<lambda>db1.
     sum_bind (updateAttemptEffectStartedTx p l now db1) (\<lambda>db2. Inr ((), db2)))"

definition MarkEffectStarted :: "pcontext \<Rightarrow> NodeLease \<Rightarrow> gotime \<Rightarrow> leaseDB \<Rightarrow> (goerr + unit) \<times> leaseDB" where
  "MarkEffectStarted ctx l now = checked_tx (validateLeaseAttempt l) ctx (effect_started_tx l now)"

definition effect_committed_tx :: "NodeLease \<Rightarrow> gotime \<Rightarrow> Principal \<Rightarrow> leaseDB \<Rightarrow> goerr + unit \<times> leaseDB" where
  "effect_committed_tx l now p db =
     sum_bind (update_runtime
         (\<lambda>r. where_held p l now r \<and> nr_EffectStartedAt (row_record r) \<noteq> None \<and>
              nr_EffectCommittedAt (row_record r) = None)
         (\<lambda>r. r\<lparr>row_record := (row_record r)\<lparr>nr_EffectCommittedAt := Some now, nr_UpdatedAt := now\<rparr>\<rparr>)
         ''mark node effect committed: %w'' ErrNodeLeaseLost db) (\<lambda>db1.
     sum_bind (updateAttemptEffectCommittedTx p l now db1) (\<lambda>db2. Inr ((), db2)))"

definition MarkEffectCommitted :: "pcontext \<Rightarrow> NodeLease \<Rightarrow> gotime \<Rightarrow> leaseDB \<Rightarrow> (goerr + unit) \<times> leaseDB" where
  "MarkEffectCommitted ctx l now = checked_tx (validateLeaseAttempt l) ctx (effect_committed_tx l now)"

definition release_tx :: "NodeLease \<Rightarrow> gotime \<Rightarrow> Principal \<Rightarrow> leaseDB \<Rightarrow> goerr + unit \<times> leaseDB" where
  "release_tx l now p db =
     sum_bind (update_runtime
         (\<lambda>r. where_held p l now r \<and> nr_EffectStartedAt (row_record r) = None)
         (\<lambda>r. clear_lease (set_state NodeReady now r))
         ''release execution node lease: %w'' ErrNodeLeaseLost db) (\<lambda>db1.
     sum_bind (abandonAttemptTx p (nl_ExecutionRef l) (nl_PlanRevision l) (nl_NodeRef l)
         (nl_AttemptNumber l) (nl_Fence l) now db1) (\<lambda>db2. Inr ((), db2)))"

definition ReleaseBeforeEffect :: "pcontext \<Rightarrow> NodeLease \<Rightarrow> gotime \<Rightarrow> leaseDB \<Rightarrow> (goerr + unit) \<times> leaseDB" where
  "ReleaseBeforeEffect ctx l now = checked_tx (validateLeaseAttempt l) ctx (release_tx l now)"

definition complete_tx ::
  "pgDriver \<Rightarrow> NodeLease \<Rightarrow> NodeState \<Rightarrow> AttemptCompletion \<Rightarrow> gotime \<Rightarrow> Principal \<Rightarrow> leaseDB
     \<Rightarrow> goerr + unit \<times> leaseDB" where
  "complete_tx pg l terminal c now p db =
     sum_bind (loadNodeRuntime p (nl_ExecutionRef l) (nl_PlanRevision l) (nl_NodeRef l) db) (\<lambda>row.
     if \<not> leaseOwnsRow row l now then Inl ErrNodeLeaseLost
     else if terminal = NodeSucceeded \<and> isMutation (nr_EffectClass (row_record row)) \<and>
             nr_EffectCommittedAt (row_record row) = None
       then Inl ErrNodeEffectNotCommitted
     else
       sum_bind (completeAttemptTx pg p l c now db) (\<lambda>db1.
       sum_bind (update_runtime (where_held p l now) (\<lambda>r. clear_lease (set_state terminal now r))
           ''complete execution node: %w'' ErrNodeLeaseLost db1) (\<lambda>db2.
       Inr ((), db2))))"

definition Complete ::
  "pgDriver \<Rightarrow> pcontext \<Rightarrow> NodeLease \<Rightarrow> NodeState \<Rightarrow> AttemptCompletion \<Rightarrow> gotime \<Rightarrow> leaseDB
     \<Rightarrow> (goerr + unit) \<times> leaseDB" where
  "Complete pg ctx l terminal c now =
     checked_tx (case validateLeaseAttempt l of Some e \<Rightarrow> Some e | None \<Rightarrow> validateAttemptCompletion terminal c)
       ctx (complete_tx pg l terminal c now)"

definition get_tx ::
  "ExecutionID \<Rightarrow> int \<Rightarrow> NodeID \<Rightarrow> Principal \<Rightarrow> leaseDB \<Rightarrow> goerr + (NodeRuntimeRecord \<times> NodeLease option) \<times> leaseDB" where
  "get_tx ex rv nd p db =
     sum_bind (loadNodeRuntime p ex rv nd db) (\<lambda>row.
     let n = row_record row in
     case row_leaseToken row of
       None \<Rightarrow> Inr ((n, None), db)
     | Some token \<Rightarrow>
         sum_bind (loadCurrentAttemptIDTx p ex rv nd (nr_AttemptNumber n) (nr_LeaseFence n) db) (\<lambda>aid.
         Inr ((n, Some
           \<lparr>nl_ExecutionRef = ex, nl_PlanRevision = rv, nl_NodeRef = nd, nl_AttemptRef = aid,
            nl_OwnerWorkerID = or_zero [] (row_leaseOwner row), nl_Token = token,
            nl_Fence = nr_LeaseFence n, nl_AttemptNumber = nr_AttemptNumber n,
            nl_ClaimedAt = or_zero 0 (row_claimedAt row), nl_HeartbeatAt = or_zero 0 (row_heartbeatAt row),
            nl_ExpiresAt = or_zero 0 (row_leaseExpiresAt row)\<rparr>), db)))"

definition lease_Get ::
  "pcontext \<Rightarrow> ExecutionID \<Rightarrow> int \<Rightarrow> NodeID \<Rightarrow> leaseDB \<Rightarrow> (goerr + NodeRuntimeRecord \<times> NodeLease option) \<times> leaseDB" where
  "lease_Get ctx ex rv nd = withScopedTx ctx (get_tx ex rv nd)"

definition start_tx ::
  "NodeLease \<Rightarrow> AttemptBinding \<Rightarrow> gotime \<Rightarrow> Principal \<Rightarrow> leaseDB \<Rightarrow> goerr + AttemptRecord \<times> leaseDB" where
  "start_tx l b now p db =
     sum_bind (loadNodeRuntime p (nl_ExecutionRef l) (nl_PlanRevision l) (nl_NodeRef l) db) (\<lambda>row.
     if \<not> leaseOwnsRow row l now then Inl ErrNodeLeaseLost
     else
       sum_bind (update_attempts (\<lambda>a. where_lease_attempt p l a \<and> aw_status a = AttemptPending)
           (\<lambda>a. a\<lparr>aw_status := AttemptRunning, aw_target_id := Some (ab_TargetRef b),
                  aw_target_revision := Some (ab_TargetRevision b),
                  aw_target_snapshot := Some (ab_TargetSnapshot b),
                  aw_policy_decision_id := Some (ab_PolicyDecisionRef b),
                  aw_budget_reservation_id := Some (ab_BudgetReservationRef b),
                  aw_started_at := Some now, aw_updated_at := now\<rparr>)
           ''start execution attempt: %w'' db) (\<lambda>db1.
       sum_bind (loadAttemptTx p (nl_AttemptRef l) db1) (\<lambda>rec.
       Inr (rec, db1))))"

definition StartAttempt ::
  "pcontext \<Rightarrow> NodeLease \<Rightarrow> AttemptBinding \<Rightarrow> gotime \<Rightarrow> leaseDB \<Rightarrow> (goerr + AttemptRecord) \<times> leaseDB" where
  "StartAttempt ctx l b now =
     checked_tx
       (if TrimSpace (nl_AttemptRef l) = []
        then Some (Errorf ''%w: lease attempt reference is required'' [ErrAttemptBindingInvalid])
        else validateAttemptBinding b) ctx (start_tx l b now)"

definition GetAttempt :: "pcontext \<Rightarrow> AttemptID \<Rightarrow> leaseDB \<Rightarrow> (goerr + AttemptRecord) \<times> leaseDB" where
  "GetAttempt ctx aid =
     checked_tx (if aid = [] then Some (Errorf ''attempt id is required'' []) else None) ctx
       (\<lambda>p db. sum_bind (loadAttemptTx p aid db) (\<lambda>rec. Inr (rec, db)))"

definition ListAttempts ::
  "pcontext \<Rightarrow> ExecutionID \<Rightarrow> int \<Rightarrow> NodeID \<Rightarrow> leaseDB \<Rightarrow> (goerr + AttemptRecord list) \<times> leaseDB" where
  "ListAttempts ctx ex rv nd =
     checked_tx
       (if ex = [] \<or> rv < 1 \<or> nd = []
        then Some (Errorf ''execution, positive plan revision and node are required'' []) else None) ctx
       (\<lambda>p db. Inr (map scanAttempt (sort_key aw_attempt_number (filter (where_attempt p ex rv nd) (db_attempts db))), db))"

definition requeue_tx :: "ExecutionID \<Rightarrow> int \<Rightarrow> NodeID \<Rightarrow> gotime \<Rightarrow> Principal \<Rightarrow> leaseDB \<Rightarrow> goerr + unit \<times> leaseDB" where
  "requeue_tx ex rv nd now p db =
     sum_bind (loadNodeRuntime p ex rv nd db) (\<lambda>row.
     if nr_State (row_record row) \<noteq> NodeFailed then Inl ErrNodeNotClaimable
     else if \<not> nr_RetrySafe (row_record row) \<or> isMutation (nr_EffectClass (row_record row))
       then Inl ErrNodeRecoveryRequired
     else
       sum_bind (update_runtime
           (\<lambda>r. where_node p ex rv nd r \<and> nr_State (row_record r) = NodeFailed)
           (\<lambda>r. clear_lease (set_state NodeReady now r))
           ''requeue failed execution node: %w'' ErrNodeNotClaimable db) (\<lambda>db1.
       Inr ((), db1)))"

definition RequeueFailed :: "pcontext \<Rightarrow> ExecutionID \<Rightarrow> int \<Rightarrow> NodeID \<Rightarrow> gotime \<Rightarrow> leaseDB \<Rightarrow> (goerr + unit) \<times> leaseDB" where
  "RequeueFailed ctx ex rv nd now =
     checked_tx
       (if ex = [] \<or> rv < 1 \<or> nd = []
        then Some (Errorf ''execution, positive plan revision and node are required'' []) else None) ctx
       (requeue_tx ex rv nd now)"

end
