(* ===== verification/Lease_Invariant.thy ===== *)
theory Lease_Invariant
  imports Node_Leases
begin

text \<open>
  What every operation of the lease repository keeps: the constraints of the tables, one
  row per node, and for each node the agreement of its row with its attempts. An attempt
  that is pending or running belongs to a running node and carries the node's fence and
  attempt number, a running node has one, and the attempt with the node's fence has the
  node's effect times. The theory describes each transaction by the change it makes
  and proves the invariant from a lemma on such changes.
\<close>

interpretation nk: keyed_table node_key .

interpretation ak: keyed_table attempt_key .

section \<open>The invariant\<close>

definition attempts_of :: "node_key \<Rightarrow> attemptRow list \<Rightarrow> attemptRow list" where
  "attempts_of k t = filter (\<lambda>a. attempt_node a = k) t"

abbreviation live :: "attemptRow \<Rightarrow> bool" where
  "live a \<equiv> live_status (aw_status a)"

abbreviation r_state :: "nodeRuntimeRow \<Rightarrow> NodeState" where
  "r_state r \<equiv> nr_State (row_record r)"

abbreviation r_fence :: "nodeRuntimeRow \<Rightarrow> int" where
  "r_fence r \<equiv> nr_LeaseFence (row_record r)"

abbreviation r_number :: "nodeRuntimeRow \<Rightarrow> int" where
  "r_number r \<equiv> nr_AttemptNumber (row_record r)"

abbreviation r_started :: "nodeRuntimeRow \<Rightarrow> gotime option" where
  "r_started r \<equiv> nr_EffectStartedAt (row_record r)"

abbreviation r_committed :: "nodeRuntimeRow \<Rightarrow> gotime option" where
  "r_committed r \<equiv> nr_EffectCommittedAt (row_record r)"

definition attempt_agrees :: "nodeRuntimeRow \<Rightarrow> attemptRow \<Rightarrow> bool" where
  "attempt_agrees r a \<longleftrightarrow>
     aw_lease_fence a \<le> r_fence r \<and> aw_attempt_number a \<le> r_number r \<and>
     (live a \<longrightarrow> r_state r = NodeRunning \<and> aw_lease_fence a = r_fence r \<and> aw_attempt_number a = r_number r) \<and>
     (aw_lease_fence a = r_fence r \<longrightarrow>
        aw_effect_started_at a = r_started r \<and> aw_effect_committed_at a = r_committed r)"

definition node_inv :: "nodeRuntimeRow \<Rightarrow> attemptRow list \<Rightarrow> bool" where
  "node_inv r as \<longleftrightarrow>
     distinct (map aw_lease_fence as) \<and> distinct (map aw_attempt_number as) \<and>
     (\<forall>a\<in>set as. attempt_agrees r a) \<and> (r_state r = NodeRunning \<longrightarrow> (\<exists>a\<in>set as. live a))"

definition lease_inv :: "leaseDB \<Rightarrow> bool" where
  "lease_inv db \<longleftrightarrow>
     nk.unique (db_runtime db) \<and> (\<forall>r\<in>set (db_runtime db). node_row_ok r) \<and>
     ak.unique (db_attempts db) \<and> (\<forall>a\<in>set (db_attempts db). attempt_row_ok a) \<and>
     (\<forall>a\<in>set (db_attempts db). \<exists>r\<in>set (db_runtime db). node_key r = attempt_node a) \<and>
     (\<forall>r\<in>set (db_runtime db). node_inv r (attempts_of (node_key r) (db_attempts db)))"

lemma lease_invD:
  assumes "lease_inv db"
  shows "nk.unique (db_runtime db)" and "ak.unique (db_attempts db)"
    and "r \<in> set (db_runtime db) \<Longrightarrow> node_row_ok r"
    and "a \<in> set (db_attempts db) \<Longrightarrow> attempt_row_ok a"
    and "r \<in> set (db_runtime db) \<Longrightarrow> node_inv r (attempts_of (node_key r) (db_attempts db))"
    and "a \<in> set (db_attempts db) \<Longrightarrow> \<exists>r\<in>set (db_runtime db). node_key r = attempt_node a"
  using assms by (auto simp: lease_inv_def)

lemma set_attempts_of: "set (attempts_of k t) = {a \<in> set t. attempt_node a = k}"
  by (simp add: attempts_of_def)

lemma attempts_of_append: "attempts_of k (t @ u) = attempts_of k t @ attempts_of k u"
  by (simp add: attempts_of_def)

lemma attempts_of_set:
  assumes "\<forall>a\<in>set t. q a \<longrightarrow> attempt_node (g a) = attempt_node a"
  shows "attempts_of k (sql_set q g t) = sql_set q g (attempts_of k t)"
  using assms by (induction t) (auto simp: attempts_of_def sql_set_def)

lemma attempts_of_set_other:
  assumes "\<forall>a\<in>set t. q a \<longrightarrow> attempt_node (g a) = attempt_node a \<and> attempt_node a \<noteq> k"
  shows "attempts_of k (sql_set q g t) = attempts_of k t"
  using assms by (induction t) (auto simp: attempts_of_def sql_set_def)

section \<open>Changes of one node\<close>

text \<open>A transaction replaces the row of one node, changes attempts of that node and may add
  new ones.\<close>

definition node_change ::
  "nodeRuntimeRow \<Rightarrow> nodeRuntimeRow \<Rightarrow> (attemptRow \<Rightarrow> bool) \<Rightarrow> (attemptRow \<Rightarrow> attemptRow) \<Rightarrow> attemptRow list
     \<Rightarrow> leaseDB \<Rightarrow> leaseDB \<Rightarrow> bool" where
  "node_change r r' q g new db db' \<longleftrightarrow>
     r \<in> set (db_runtime db) \<and> node_key r' = node_key r \<and> node_row_ok r' \<and>
     db_runtime db' = sql_set (\<lambda>x. node_key x = node_key r) (\<lambda>_. r') (db_runtime db) \<and>
     (\<forall>a\<in>set (db_attempts db). q a \<longrightarrow>
        attempt_node a = node_key r \<and> attempt_node (g a) = attempt_node a \<and>
        attempt_key (g a) = attempt_key a \<and> attempt_row_ok (g a)) \<and>
     (\<forall>a\<in>set new. attempt_node a = node_key r \<and> attempt_row_ok a) \<and>
     db_attempts db' = sql_set q g (db_attempts db) @ new \<and> ak.unique (db_attempts db')"

lemma node_change_rows:
  assumes "node_change r r' q g new db db'" and "lease_inv db"
  shows "x \<in> set (db_runtime db') \<longleftrightarrow> x = r' \<or> x \<in> set (db_runtime db) \<and> x \<noteq> r"
proof -
  have u: "y = r" if "y \<in> set (db_runtime db)" "node_key y = node_key r" for y
    using nk.unique_same [OF lease_invD(1) [OF assms(2)] that(1)] that(2) assms(1)
    by (auto simp: node_change_def)
  show ?thesis
    using assms(1) u unfolding node_change_def by (auto simp: set_sql_set split: if_splits)
qed

lemma node_change_attempts:
  assumes "node_change r r' q g new db db'"
  shows "attempts_of k (db_attempts db') =
    (if k = node_key r then sql_set q g (attempts_of k (db_attempts db)) @ new
     else attempts_of k (db_attempts db))"
proof -
  have q: "\<forall>a\<in>set (db_attempts db). q a \<longrightarrow> attempt_node (g a) = attempt_node a \<and> attempt_node a = node_key r"
    and n: "\<forall>a\<in>set new. attempt_node a = node_key r"
    and e: "db_attempts db' = sql_set q g (db_attempts db) @ new"
    using assms by (auto simp: node_change_def)
  have "attempts_of k new = (if k = node_key r then new else [])"
    using n by (auto simp: attempts_of_def filter_empty_conv intro!: filter_True)
  moreover have "attempts_of k (sql_set q g (db_attempts db)) =
      (if k = node_key r then sql_set q g (attempts_of k (db_attempts db)) else attempts_of k (db_attempts db))"
    using q attempts_of_set [of "db_attempts db" q g k] attempts_of_set_other [of "db_attempts db" q g k] by auto
  ultimately show ?thesis by (simp add: e attempts_of_append)
qed

lemma node_change_inv:
  assumes c: "node_change r r' q g new db db'" and I: "lease_inv db"
    and N: "node_inv r' (sql_set q g (attempts_of (node_key r) (db_attempts db)) @ new)"
  shows "lease_inv db'"
proof -
  note rows = node_change_rows [OF c I] and atts = node_change_attempts [OF c]
  have c': "r \<in> set (db_runtime db)" "node_key r' = node_key r" "node_row_ok r'"
    "\<forall>a\<in>set (db_attempts db). q a \<longrightarrow> attempt_node a = node_key r \<and> attempt_node (g a) = attempt_node a \<and>
        attempt_key (g a) = attempt_key a \<and> attempt_row_ok (g a)"
    "\<forall>a\<in>set new. attempt_node a = node_key r \<and> attempt_row_ok a"
    "db_attempts db' = sql_set q g (db_attempts db) @ new" "ak.unique (db_attempts db')"
    using c by (auto simp: node_change_def)
  have keys: "map node_key (db_runtime db') = map node_key (db_runtime db)"
    using c by (auto simp: node_change_def sql_set_def)
  have u: "nk.unique (db_runtime db')"
    using lease_invD(1) [OF I] keys by (simp add: nk.unique_def)
  have aok: "\<forall>a\<in>set (db_attempts db'). attempt_row_ok a"
    using c'(4,5) lease_invD(4) [OF I] by (auto simp: c'(6) set_sql_set)
  have own: "\<exists>x\<in>set (db_runtime db'). node_key x = attempt_node a" if mem: "a \<in> set (db_attempts db')" for a
  proof -
    have "attempt_node a \<in> node_key ` set (db_runtime db)"
    proof (cases "a \<in> set new")
      case True
      then show ?thesis using c'(1,5) by auto
    next
      case False
      then obtain b where b: "b \<in> set (db_attempts db)" "a = (if q b then g b else b)"
        using mem unfolding c'(6) by (auto simp: set_sql_set)
      then have "attempt_node a = attempt_node b" using c'(4) by auto
      with lease_invD(6) [OF I b(1)] show ?thesis by (metis imageI)
    qed
    then have "attempt_node a \<in> node_key ` set (db_runtime db')" by (metis keys list.set_map)
    then show ?thesis by auto
  qed
  have ninv: "node_inv x (attempts_of (node_key x) (db_attempts db'))" if x: "x \<in> set (db_runtime db')" for x
  proof (cases "x = r'")
    case True
    then show ?thesis using N c'(2) by (simp add: atts)
  next
    case False
    then have "x \<in> set (db_runtime db)" "x \<noteq> r" using x rows by auto
    then have "node_key x \<noteq> node_key r" using nk.unique_same [OF lease_invD(1) [OF I]] c'(1) by blast
    with \<open>x \<in> set (db_runtime db)\<close> show ?thesis by (simp add: atts lease_invD(5) [OF I])
  qed
  show ?thesis
    unfolding lease_inv_def using u aok own ninv c'(3,7) rows lease_invD(3) [OF I] by auto
qed

text \<open>The statements as changes.\<close>

lemma where_node_key: "where_node p ex rv nd r \<longleftrightarrow> node_key r = (p_TenantID p, p_ProjectID p, ex, rv, nd)"
  by (auto simp: where_node_def visible_def node_key_def)

lemma where_attempt_node:
  "where_attempt p ex rv nd a \<longleftrightarrow> attempt_node a = (p_TenantID p, p_ProjectID p, ex, rv, nd)"
  by (auto simp: where_attempt_def attempt_visible_def attempt_node_def)

definition lease_node :: "Principal \<Rightarrow> NodeLease \<Rightarrow> node_key" where
  "lease_node p l = (p_TenantID p, p_ProjectID p, nl_ExecutionRef l, nl_PlanRevision l, nl_NodeRef l)"

lemma where_held_key: "where_held p l now r \<Longrightarrow> node_key r = lease_node p l"
  by (simp add: where_held_def where_node_key lease_node_def)

lemma where_lease_attempt_node: "where_lease_attempt p l a \<Longrightarrow> attempt_node a = lease_node p l"
  by (simp add: where_lease_attempt_def where_attempt_node lease_node_def)

lemma update_one_Inr:
  "update_one check p f msg none t = Inr t' \<Longrightarrow>
   (\<exists>r\<in>set t. p r) \<and> (\<forall>r\<in>set t. p r \<longrightarrow> check (f r)) \<and> t' = sql_set p f t"
  by (auto simp: update_one_def sql_update_Inr split: sum.splits if_splits prod.splits dest: length_filter_one)

lemma sql_set_const: "\<forall>x\<in>set t. p x \<longrightarrow> x = r \<Longrightarrow> sql_set p f t = sql_set p (\<lambda>_. f r) t"
  by (auto simp: sql_set_def)

lemma update_runtime_Inr:
  assumes "update_runtime p f msg none db = Inr db'" and "nk.unique (db_runtime db)"
    and "\<And>r. p r \<Longrightarrow> node_key r = k"
  obtains r where "r \<in> set (db_runtime db)" "p r" "node_key r = k" "node_row_ok (f r)"
    "db' = db\<lparr>db_runtime := sql_set (\<lambda>x. node_key x = node_key r) (\<lambda>_. f r) (db_runtime db)\<rparr>"
proof -
  from assms(1) obtain t where "update_one node_row_ok p f msg none (db_runtime db) = Inr t"
    and db': "db' = db\<lparr>db_runtime := t\<rparr>"
    by (auto simp: update_runtime_def split: sum.splits)
  from update_one_Inr [OF this(1)] obtain r where r: "r \<in> set (db_runtime db)" "p r" "node_row_ok (f r)"
    and t: "t = sql_set p f (db_runtime db)" by blast
  have k: "\<And>x. p x \<Longrightarrow> node_key x = node_key r" using assms(3) r(2) by metis
  have "t = sql_set (\<lambda>x. node_key x = node_key r) (\<lambda>_. f r) (db_runtime db)"
    unfolding t using nk.set_by_key [of "db_runtime db" p r f, OF assms(2) k r(1,2)]
      sql_set_const [of "db_runtime db" "\<lambda>x. node_key x = node_key r" r f]
      nk.unique_same [OF assms(2) _ r(1)] by auto
  with that r assms(3) db' show ?thesis by blast
qed

lemma update_attempts_Inr:
  assumes "update_attempts q g msg db = Inr db'"
  obtains a where "a \<in> set (db_attempts db)" "q a" "\<forall>a\<in>set (db_attempts db). q a \<longrightarrow> attempt_row_ok (g a)"
    "db' = db\<lparr>db_attempts := sql_set q g (db_attempts db)\<rparr>"
  using assms by (auto simp: update_attempts_def split: sum.splits dest!: update_one_Inr)

lemma loadNodeRuntime_Inr:
  "loadNodeRuntime p ex rv nd db = Inr r \<Longrightarrow>
   r \<in> set (db_runtime db) \<and> node_key r = (p_TenantID p, p_ProjectID p, ex, rv, nd)"
  by (auto simp: loadNodeRuntime_def sql_query_row_def find_Some_iff where_node_key split: option.splits)

section \<open>Each transaction keeps the invariant\<close>

lemma sql_set_False [simp]: "sql_set (\<lambda>_. False) g t = t"
  by (simp add: sql_set_def)

lemma node_inv_same_fence:
  "node_inv r as \<Longrightarrow> a \<in> set as \<Longrightarrow> b \<in> set as \<Longrightarrow> aw_lease_fence a = aw_lease_fence b \<Longrightarrow> a = b"
  unfolding node_inv_def distinct_map by (blast dest: inj_onD)

lemma node_inv_set:
  assumes "node_inv r as"
    and "\<And>x. x \<in> set as \<Longrightarrow> q x \<Longrightarrow> aw_lease_fence (g x) = aw_lease_fence x \<and> aw_attempt_number (g x) = aw_attempt_number x"
    and "\<And>x. x \<in> set as \<Longrightarrow> attempt_agrees r' (if q x then g x else x)"
    and "r_state r' = NodeRunning \<Longrightarrow> \<exists>x\<in>set as. live (if q x then g x else x)"
  shows "node_inv r' (sql_set q g as)"
proof -
  have "map aw_lease_fence (sql_set q g as) = map aw_lease_fence as"
    "map aw_attempt_number (sql_set q g as) = map aw_attempt_number as"
    using assms(2) by (auto intro!: sql_set_map)
  moreover have "\<forall>y\<in>set (sql_set q g as). attempt_agrees r' y"
    using assms(3) unfolding set_sql_set Ball_def by blast
  moreover have "r_state r' = NodeRunning \<Longrightarrow> \<exists>y\<in>set (sql_set q g as). live y"
    using assms(4) unfolding set_sql_set Bex_def by blast
  ultimately show ?thesis using assms(1) by (simp add: node_inv_def)
qed

text \<open>Ending the lease of a running node: its live attempt ends, no other is live.\<close>

lemma node_inv_finish:
  assumes N: "node_inv r as" and a: "a \<in> set as" "q a"
    and q: "\<And>x. x \<in> set as \<Longrightarrow> q x \<Longrightarrow> aw_lease_fence x = r_fence r"
    and g: "\<And>x. aw_lease_fence (g x) = aw_lease_fence x \<and> aw_attempt_number (g x) = aw_attempt_number x \<and>
        aw_effect_started_at (g x) = aw_effect_started_at x \<and>
        aw_effect_committed_at (g x) = aw_effect_committed_at x \<and> \<not> live (g x)"
    and r': "r_fence r' = r_fence r" "r_number r' = r_number r" "r_started r' = r_started r"
        "r_committed r' = r_committed r" "r_state r' \<noteq> NodeRunning"
  shows "node_inv r' (sql_set q g as)"
proof (rule node_inv_set [OF N])
  fix x assume x: "x \<in> set as"
  have A: "attempt_agrees r x" using N x by (simp add: node_inv_def)
  show "attempt_agrees r' (if q x then g x else x)"
  proof (cases "q x")
    case True
    then show ?thesis using A g [of x] r' by (simp add: attempt_agrees_def)
  next
    case False
    then have "aw_lease_fence x \<noteq> r_fence r"
      using node_inv_same_fence [OF N x a(1)] q [OF a] a(2) by auto
    with A False r' show ?thesis by (simp add: attempt_agrees_def)
  qed
qed (use g r' in auto)

lemma node_change_row_only:
  assumes "lease_inv db" and "r \<in> set (db_runtime db)" and "node_key r' = node_key r" and "node_row_ok r'"
    and "db' = db\<lparr>db_runtime := sql_set (\<lambda>x. node_key x = node_key r) (\<lambda>_. r') (db_runtime db)\<rparr>"
  shows "node_change r r' (\<lambda>_. False) (\<lambda>a. a) [] db db'"
  using assms lease_invD(2) [OF assms(1)] by (simp add: node_change_def)

lemma node_change_both:
  assumes "lease_inv db" and "r \<in> set (db_runtime db)" and "node_key r' = node_key r" and "node_row_ok r'"
    and "\<forall>a\<in>set (db_attempts db). q a \<longrightarrow> attempt_row_ok (g a)"
    and "\<And>a. q a \<Longrightarrow> attempt_node a = node_key r"
    and "\<And>a. attempt_node (g a) = attempt_node a \<and> attempt_key (g a) = attempt_key a"
    and "db' = db\<lparr>db_runtime := sql_set (\<lambda>x. node_key x = node_key r) (\<lambda>_. r') (db_runtime db),
      db_attempts := sql_set q g (db_attempts db)\<rparr>"
  shows "node_change r r' q g [] db db'"
  using assms ak.unique_set [OF lease_invD(2) [OF assms(1)], of g q] by (auto simp: node_change_def)

lemma sql_set_same: "nk.unique t \<Longrightarrow> r \<in> set t \<Longrightarrow> sql_set (\<lambda>x. node_key x = node_key r) (\<lambda>_. r) t = t"
  by (auto simp: sql_set_def dest: nk.unique_same intro!: map_idI)

lemma register_tx_inv:
  assumes I: "lease_inv db" and T: "register_tx n now p db = Inr (u, db')"
  shows "lease_inv db'"
proof -
  let ?r = "new_row p n now"
  have ok: "node_row_ok ?r" "\<forall>x\<in>set (db_runtime db). node_key ?r \<noteq> node_key x"
    and db': "db' = db\<lparr>db_runtime := db_runtime db @ [?r]\<rparr>"
    using T by (auto simp: register_tx_def sql_insert_or_nothing_one split: sum.splits if_splits prod.splits)
  have "r_state ?r \<noteq> NodeRunning"
    using ok(1) by (auto simp: node_row_ok_def Let_def lease_state_contract_def new_row_def)
  moreover have "attempts_of (node_key ?r) (db_attempts db) = []"
    unfolding attempts_of_def filter_empty_conv using lease_invD(6) [OF I] ok(2) by metis
  ultimately have "node_inv ?r (attempts_of (node_key ?r) (db_attempts db))" by (simp add: node_inv_def)
  moreover have "nk.unique (db_runtime db @ [?r])"
    using nk.unique_insert [OF lease_invD(1) [OF I]] ok(2) by metis
  ultimately show ?thesis using I ok(1) unfolding lease_inv_def db' by auto
qed

section \<open>The steps of a node\<close>

datatype node_event = EClaim | ERenew | EStarted | ECommitted | ERelease | EComplete | ERequeue

inductive node_step :: "node_event \<Rightarrow> nodeRuntimeRow \<Rightarrow> nodeRuntimeRow \<Rightarrow> bool" where
  ns_claim: "r_state r = NodeReady \<Longrightarrow>
    node_step EClaim r (claim_row pg (r_number r + 1) owner token (r_fence r + 1) now ee r)"
| ns_reclaim: "r_state r = NodeRunning \<Longrightarrow> \<not> lease_unexpired r now \<Longrightarrow> nr_RetrySafe (row_record r) \<Longrightarrow>
    r_committed r = None \<Longrightarrow>
    node_step EClaim r (claim_row pg (r_number r + 1) owner token (r_fence r + 1) now ee r)"
| ns_renew: "r_state r = NodeRunning \<Longrightarrow>
    node_step ERenew r (r\<lparr>row_heartbeatAt := Some now, row_leaseExpiresAt := Some e,
      row_record := (row_record r)\<lparr>nr_UpdatedAt := now\<rparr>\<rparr>)"
| ns_started: "r_state r = NodeRunning \<Longrightarrow> r_started r = None \<Longrightarrow>
    node_step EStarted r (r\<lparr>row_record := (row_record r)\<lparr>nr_EffectStartedAt := Some now, nr_UpdatedAt := now\<rparr>\<rparr>)"
| ns_committed: "r_state r = NodeRunning \<Longrightarrow> r_started r \<noteq> None \<Longrightarrow> r_committed r = None \<Longrightarrow>
    node_step ECommitted r (r\<lparr>row_record := (row_record r)\<lparr>nr_EffectCommittedAt := Some now, nr_UpdatedAt := now\<rparr>\<rparr>)"
| ns_release: "r_state r = NodeRunning \<Longrightarrow> r_started r = None \<Longrightarrow>
    node_step ERelease r (clear_lease (set_state NodeReady now r))"
| ns_complete: "r_state r = NodeRunning \<Longrightarrow> terminal \<in> {NodeSucceeded, NodeFailed, NodeCancelled} \<Longrightarrow>
    (terminal = NodeSucceeded \<Longrightarrow> isMutation (nr_EffectClass (row_record r)) \<Longrightarrow> r_committed r \<noteq> None) \<Longrightarrow>
    node_step EComplete r (clear_lease (set_state terminal now r))"
| ns_requeue: "r_state r = NodeFailed \<Longrightarrow> nr_RetrySafe (row_record r) \<Longrightarrow>
    \<not> isMutation (nr_EffectClass (row_record r)) \<Longrightarrow>
    node_step ERequeue r (clear_lease (set_state NodeReady now r))"

lemmas row_ops = claim_row_def clear_lease_def set_state_def

lemma row_end_simps [simp]:
  "r_state (clear_lease (set_state st now r)) = st" "r_fence (clear_lease (set_state st now r)) = r_fence r"
  "r_number (clear_lease (set_state st now r)) = r_number r"
  "r_started (clear_lease (set_state st now r)) = r_started r"
  "r_committed (clear_lease (set_state st now r)) = r_committed r"
  "node_key (clear_lease (set_state st now r)) = node_key r"
  "nr_RetrySafe (row_record (clear_lease (set_state st now r))) = nr_RetrySafe (row_record r)"
  "nr_EffectClass (row_record (clear_lease (set_state st now r))) = nr_EffectClass (row_record r)"
  by (simp_all add: row_ops node_key_def)

lemma node_step_key: "node_step e r r' \<Longrightarrow> node_key r' = node_key r"
  by (induction rule: node_step.induct) (simp_all add: row_ops node_key_def)

text \<open>The effect of a successful transaction of principal \<open>p\<close> on the node \<open>k\<close>.\<close>

definition tx_effect :: "node_key \<Rightarrow> (nodeRuntimeRow \<Rightarrow> nodeRuntimeRow \<Rightarrow> bool) \<Rightarrow> leaseDB \<Rightarrow> leaseDB \<Rightarrow> bool" where
  "tx_effect k R db db' \<longleftrightarrow>
     lease_inv db' \<and>
     (\<exists>r r' q g new. node_key r = k \<and> R r r' \<and> node_change r r' q g new db db')"

lemma tx_effectI:
  assumes "node_change r r' q g new db db'" and "lease_inv db" and "node_key r = k" and "R r r'"
    and "node_inv r' (sql_set q g (attempts_of (node_key r) (db_attempts db)) @ new)"
  shows "tx_effect k R db db'"
  unfolding tx_effect_def using assms node_change_inv [OF assms(1,2,5)] by blast

lemma where_heldD:
  "where_held p l now r \<Longrightarrow> r_state r = NodeRunning \<and> r_fence r = nl_Fence l \<and> node_key r = lease_node p l \<and>
     row_leaseOwner r = Some (nl_OwnerWorkerID l) \<and> row_leaseToken r = Some (nl_Token l)"
  by (simp add: where_held_def where_held_key where_node_key lease_node_def)

lemma where_lease_attemptD:
  "where_lease_attempt p l a \<Longrightarrow>
   attempt_node a = lease_node p l \<and> aw_lease_fence a = nl_Fence l \<and> aw_attempt_number a = nl_AttemptNumber l"
  by (simp add: where_lease_attempt_def where_attempt_node lease_node_def)

lemma renew_tx_effect:
  assumes I: "lease_inv db" and T: "renew_tx pg l dur now p db = Inr (l', db')"
  shows "tx_effect (lease_node p l) (node_step ERenew) db db'"
proof -
  let ?f = "\<lambda>r. r\<lparr>row_heartbeatAt := Some now, row_leaseExpiresAt := Some (pg_time pg (time_Add now dur)),
    row_record := (row_record r)\<lparr>nr_UpdatedAt := now\<rparr>\<rparr>"
  have "update_runtime (where_held p l now) ?f ''renew execution node lease: %w'' ErrNodeLeaseLost db = Inr db'"
    using T by (auto simp: renew_tx_def Let_def sum_bind_Inr)
  then obtain r where r: "r \<in> set (db_runtime db)" "where_held p l now r" "node_row_ok (?f r)"
    "db' = db\<lparr>db_runtime := sql_set (\<lambda>x. node_key x = node_key r) (\<lambda>_. ?f r) (db_runtime db)\<rparr>"
    using lease_invD(1) [OF I] where_held_key by (rule update_runtime_Inr) blast
  show ?thesis
  proof (rule tx_effectI [OF node_change_row_only [OF I r(1) _ r(3,4)] I])
    show "node_inv (?f r) (sql_set (\<lambda>_. False) (\<lambda>a. a) (attempts_of (node_key r) (db_attempts db)) @ [])"
      using lease_invD(5) [OF I r(1)] by (simp add: node_inv_def attempt_agrees_def)
    show "node_step ERenew r (?f r)" using r(2) by (intro ns_renew) (simp add: where_held_def)
  qed (use where_heldD [OF r(2)] in \<open>simp_all add: node_key_def\<close>)
qed

lemma requeue_tx_effect:
  assumes I: "lease_inv db" and T: "requeue_tx ex rv nd now p db = Inr (u, db')"
  shows "tx_effect (p_TenantID p, p_ProjectID p, ex, rv, nd) (node_step ERequeue) db db'"
proof -
  let ?f = "\<lambda>r. clear_lease (set_state NodeReady now r)"
  let ?p = "\<lambda>r. where_node p ex rv nd r \<and> nr_State (row_record r) = NodeFailed"
  let ?k = "(p_TenantID p, p_ProjectID p, ex, rv, nd)"
  obtain row where row: "loadNodeRuntime p ex rv nd db = Inr row" "r_state row = NodeFailed"
    "nr_RetrySafe (row_record row)" "\<not> isMutation (nr_EffectClass (row_record row))"
    and U: "update_runtime ?p ?f ''requeue failed execution node: %w'' ErrNodeNotClaimable db = Inr db'"
    using T by (auto simp: requeue_tx_def sum_bind_Inr split: if_splits)
  obtain r where r: "r \<in> set (db_runtime db)" "?p r" "node_key r = ?k" "node_row_ok (?f r)"
    "db' = db\<lparr>db_runtime := sql_set (\<lambda>x. node_key x = node_key r) (\<lambda>_. ?f r) (db_runtime db)\<rparr>"
    using U lease_invD(1) [OF I] by (rule update_runtime_Inr) (auto simp: where_node_key)
  have "row = r" using loadNodeRuntime_Inr [OF row(1)] nk.unique_same [OF lease_invD(1) [OF I]] r(1,3) by simp
  note row = row [unfolded this]
  show ?thesis
  proof (rule tx_effectI [OF node_change_row_only [OF I r(1) _ r(4,5)] I r(3)])
    show "node_inv (?f r) (sql_set (\<lambda>_. False) (\<lambda>a. a) (attempts_of (node_key r) (db_attempts db)) @ [])"
      using lease_invD(5) [OF I r(1)] row(2) by (auto simp: node_inv_def attempt_agrees_def row_ops)
    show "node_step ERequeue r (?f r)" using row by (intro ns_requeue)
  qed (simp add: row_ops node_key_def)
qed

text \<open>A transaction that updates the held row and the lease's attempt, in either order.\<close>

lemma held_both:
  assumes I: "lease_inv db"
    and U: "update_runtime P F msg none db1 = Inr db2" and V: "update_attempts Q G msg' db3 = Inr db4"
    and order: "db1 = db \<and> db3 = db2 \<and> db' = db4 \<or> db3 = db \<and> db1 = db4 \<and> db' = db2"
    and P: "\<And>r. P r \<Longrightarrow> where_held p l now r" and key: "\<And>r. node_key (F r) = node_key r"
    and Q: "\<And>a. Q a \<Longrightarrow> attempt_node a = lease_node p l \<and> aw_lease_fence a = nl_Fence l"
    and G: "\<And>a. attempt_node (G a) = attempt_node a \<and> attempt_key (G a) = attempt_key a"
    and step: "\<And>r. P r \<Longrightarrow> node_key r = lease_node p l \<Longrightarrow> r \<in> set (db_runtime db) \<Longrightarrow> R r (F r)"
    and inv: "\<And>r a as. node_inv r as \<Longrightarrow> P r \<Longrightarrow> a \<in> set as \<Longrightarrow> Q a \<Longrightarrow> r_fence r = nl_Fence l \<Longrightarrow>
      node_inv (F r) (sql_set Q G as)"
  shows "tx_effect (lease_node p l) R db db'"
proof -
  have t: "db_runtime db1 = db_runtime db" "db_attempts db3 = db_attempts db"
    using order U V by (auto simp: update_runtime_def update_attempts_def split: sum.splits)
  obtain r where r: "r \<in> set (db_runtime db)" "P r" "node_key r = lease_node p l" "node_row_ok (F r)"
    and db2: "db2 = db1\<lparr>db_runtime := sql_set (\<lambda>x. node_key x = node_key r) (\<lambda>_. F r) (db_runtime db)\<rparr>"
    using U lease_invD(1) [OF I, folded t(1)] where_held_key [OF P] unfolding t(1) [symmetric]
    by (rule update_runtime_Inr)
  obtain a where a: "a \<in> set (db_attempts db)" "Q a" "\<forall>a\<in>set (db_attempts db). Q a \<longrightarrow> attempt_row_ok (G a)"
    and db4: "db4 = db3\<lparr>db_attempts := sql_set Q G (db_attempts db)\<rparr>"
    using V unfolding t(2) [symmetric] by (rule update_attempts_Inr)
  have db': "db' = db\<lparr>db_runtime := sql_set (\<lambda>x. node_key x = node_key r) (\<lambda>_. F r) (db_runtime db),
      db_attempts := sql_set Q G (db_attempts db)\<rparr>"
    using order db2 db4 by auto
  have "a \<in> set (attempts_of (node_key r) (db_attempts db))" using a Q r(3) by (simp add: set_attempts_of)
  from inv [OF lease_invD(5) [OF I r(1)] r(2) this a(2)] where_heldD [OF P [OF r(2)]]
  have "node_inv (F r) (sql_set Q G (attempts_of (node_key r) (db_attempts db)) @ [])" by simp
  moreover have "node_change r (F r) Q G [] db db'"
    using node_change_both [OF I r(1) key r(4) a(3) _ G db'] Q r(3) by simp
  ultimately show ?thesis using tx_effectI I r(3) step [OF r(2,3,1)] by blast
qed

lemma node_inv_effect:
  assumes N: "node_inv r as" and a: "a \<in> set as" "q a" "aw_lease_fence a = r_fence r"
    and q: "\<And>x. q x \<Longrightarrow> aw_lease_fence x = r_fence r"
    and g: "\<And>x. aw_lease_fence (g x) = aw_lease_fence x \<and> aw_attempt_number (g x) = aw_attempt_number x \<and>
        aw_status (g x) = aw_status x"
    and r': "r_fence r' = r_fence r" "r_number r' = r_number r" "r_state r' = r_state r"
    and eff: "aw_effect_started_at a = r_started r \<Longrightarrow> aw_effect_committed_at a = r_committed r \<Longrightarrow>
        aw_effect_started_at (g a) = r_started r' \<and> aw_effect_committed_at (g a) = r_committed r'"
  shows "node_inv r' (sql_set q g as)"
proof (rule node_inv_set [OF N])
  fix x assume x: "x \<in> set as"
  have A: "attempt_agrees r x" using N x by (simp add: node_inv_def)
  show "attempt_agrees r' (if q x then g x else x)"
  proof (cases "aw_lease_fence x = r_fence r")
    case True
    then have "x = a" using node_inv_same_fence [OF N x a(1)] a(3) by simp
    with A a(2) eff g [of a] r' True show ?thesis by (auto simp: attempt_agrees_def)
  next
    case False
    then have "\<not> q x" using q by blast
    with A r' False show ?thesis by (simp add: attempt_agrees_def)
  qed
next
  assume "r_state r' = NodeRunning"
  then obtain b where "b \<in> set as" "live b" using N r'(3) by (auto simp: node_inv_def)
  moreover from this(2) have "live (if q b then g b else b)" using g [of b] by simp
  ultimately show "\<exists>x\<in>set as. live (if q x then g x else x)" by blast
qed (use g in simp)

lemma effect_started_tx_effect:
  assumes I: "lease_inv db" and T: "effect_started_tx l now p db = Inr (u, db')"
  shows "tx_effect (lease_node p l) (\<lambda>r r'. node_step EStarted r r' \<and> where_held p l now r \<and> r_started r = None \<and>
    r_started r' = Some now) db db'"
proof -
  obtain db1 where
    U: "update_runtime (\<lambda>r. where_held p l now r \<and> r_started r = None)
      (\<lambda>r. r\<lparr>row_record := (row_record r)\<lparr>nr_EffectStartedAt := Some now, nr_UpdatedAt := now\<rparr>\<rparr>)
      ''mark node effect started: %w'' ErrNodeLeaseLost db = Inr db1"
    and V: "update_attempts
      (\<lambda>a. where_lease_attempt p l a \<and> aw_status a = AttemptRunning \<and> aw_effect_started_at a = None)
      (\<lambda>a. a\<lparr>aw_effect_started_at := Some now, aw_updated_at := now\<rparr>)
      ''mark attempt effect started: %w'' db1 = Inr db'"
    using T by (auto simp: effect_started_tx_def updateAttemptEffectStartedTx_def sum_bind_Inr)
  show ?thesis
    by (rule held_both [OF I U V, where p = p and l = l and now = now])
      (auto dest: where_heldD where_lease_attemptD intro: ns_started
        elim!: node_inv_effect simp: node_key_def attempt_node_def attempt_key_def)
qed

lemma effect_committed_tx_effect:
  assumes I: "lease_inv db" and T: "effect_committed_tx l now p db = Inr (u, db')"
  shows "tx_effect (lease_node p l) (node_step ECommitted) db db'"
proof -
  obtain db1 where
    U: "update_runtime (\<lambda>r. where_held p l now r \<and> r_started r \<noteq> None \<and> r_committed r = None)
      (\<lambda>r. r\<lparr>row_record := (row_record r)\<lparr>nr_EffectCommittedAt := Some now, nr_UpdatedAt := now\<rparr>\<rparr>)
      ''mark node effect committed: %w'' ErrNodeLeaseLost db = Inr db1"
    and V: "update_attempts
      (\<lambda>a. where_lease_attempt p l a \<and> aw_status a = AttemptRunning \<and>
           aw_effect_started_at a \<noteq> None \<and> aw_effect_committed_at a = None)
      (\<lambda>a. a\<lparr>aw_effect_committed_at := Some now, aw_updated_at := now\<rparr>)
      ''mark attempt effect committed: %w'' db1 = Inr db'"
    using T by (auto simp: effect_committed_tx_def updateAttemptEffectCommittedTx_def sum_bind_Inr)
  show ?thesis
    by (rule held_both [OF I U V, where p = p and l = l and now = now])
      (auto dest: where_heldD where_lease_attemptD intro: ns_committed
        elim!: node_inv_effect simp: node_key_def attempt_node_def attempt_key_def)
qed

lemma release_tx_effect:
  assumes I: "lease_inv db" and T: "release_tx l now p db = Inr (u, db')"
  shows "tx_effect (lease_node p l) (node_step ERelease) db db'"
proof -
  obtain db1 where
    U: "update_runtime (\<lambda>r. where_held p l now r \<and> r_started r = None)
      (\<lambda>r. clear_lease (set_state NodeReady now r))
      ''release execution node lease: %w'' ErrNodeLeaseLost db = Inr db1"
    and V: "update_attempts
      (\<lambda>a. where_attempt p (nl_ExecutionRef l) (nl_PlanRevision l) (nl_NodeRef l) a \<and>
           aw_attempt_number a = nl_AttemptNumber l \<and> aw_lease_fence a = nl_Fence l \<and> live_status (aw_status a))
      (\<lambda>a. a\<lparr>aw_status := AttemptAbandoned, aw_finished_at := Some now, aw_updated_at := now\<rparr>)
      ''abandon execution attempt: %w'' db1 = Inr db'"
    using T by (auto simp: release_tx_def abandonAttemptTx_def sum_bind_Inr)
  show ?thesis
    by (rule held_both [OF I U V, where p = p and l = l and now = now])
      (auto dest: where_heldD intro: ns_release elim!: node_inv_finish
        simp: attempt_node_def attempt_key_def where_attempt_def attempt_visible_def lease_node_def live_status_def)
qed

lemma complete_tx_effect:
  assumes I: "lease_inv db" and T: "complete_tx pg l terminal c now p db = Inr (u, db')"
    and c: "validateAttemptCompletion terminal c = None"
  shows "tx_effect (lease_node p l) (\<lambda>r r'. node_step EComplete r r' \<and> r_state r' = terminal) db db'"
proof -
  obtain row cost db1 where row: "loadNodeRuntime p (nl_ExecutionRef l) (nl_PlanRevision l) (nl_NodeRef l) db = Inr row"
      "\<not> (terminal = NodeSucceeded \<and> isMutation (nr_EffectClass (row_record row)) \<and> r_committed row = None)"
    and V: "update_attempts
      (\<lambda>a. where_lease_attempt p l a \<and>
           (aw_status a = AttemptRunning \<or> cp_Status c = AttemptCancelled \<and> aw_status a = AttemptPending))
      (\<lambda>a. a\<lparr>aw_status := cp_Status c, aw_error_class := cp_ErrorClass c,
             aw_input_tokens := us_InputTokens (cp_Usage c), aw_output_tokens := us_OutputTokens (cp_Usage c),
             aw_cost := cost, aw_duration_ms := Milliseconds (us_Duration (cp_Usage c)),
             aw_finished_at := Some now, aw_updated_at := now\<rparr>)
      ''complete execution attempt: %w'' db = Inr db1"
    and U: "update_runtime (where_held p l now) (\<lambda>r. clear_lease (set_state terminal now r))
      ''complete execution node: %w'' ErrNodeLeaseLost db1 = Inr db'"
    using T by (auto simp: complete_tx_def completeAttemptTx_def sum_bind_Inr split: if_splits option.splits)
  have t: "terminal \<in> {NodeSucceeded, NodeFailed, NodeCancelled}" "\<not> live_status (cp_Status c)"
    using c by (auto simp: validateAttemptCompletion_def live_status_def split: if_splits)
  have same: "r = row" if "r \<in> set (db_runtime db)" "node_key r = lease_node p l" for r
    using loadNodeRuntime_Inr [OF row(1)] nk.unique_same [OF lease_invD(1) [OF I]] that by (simp add: lease_node_def)
  show ?thesis
  proof (rule held_both [OF I U V, where p = p and l = l and now = now])
    fix r assume r: "where_held p l now r" "node_key r = lease_node p l" "r \<in> set (db_runtime db)"
    then have "r = row" using same by simp
    then show "node_step EComplete r (clear_lease (set_state terminal now r)) \<and> r_state (clear_lease (set_state terminal now r)) = terminal"
      using row(2) t(1) where_heldD [OF r(1)] by (auto intro!: ns_complete)
  next
    fix r a as assume "node_inv r as" "where_held p l now r" "a \<in> set as"
      "where_lease_attempt p l a \<and>
       (aw_status a = AttemptRunning \<or> cp_Status c = AttemptCancelled \<and> aw_status a = AttemptPending)"
      "r_fence r = nl_Fence l"
    then show "node_inv (clear_lease (set_state terminal now r)) (sql_set
      (\<lambda>a. where_lease_attempt p l a \<and>
           (aw_status a = AttemptRunning \<or> cp_Status c = AttemptCancelled \<and> aw_status a = AttemptPending))
      (\<lambda>a. a\<lparr>aw_status := cp_Status c, aw_error_class := cp_ErrorClass c,
             aw_input_tokens := us_InputTokens (cp_Usage c), aw_output_tokens := us_OutputTokens (cp_Usage c),
             aw_cost := cost, aw_duration_ms := Milliseconds (us_Duration (cp_Usage c)),
             aw_finished_at := Some now, aw_updated_at := now\<rparr>) as)"
      using t by (intro node_inv_finish [of r as a]) (auto dest: where_lease_attemptD)
  qed (auto dest: where_lease_attemptD simp: attempt_node_def attempt_key_def)
qed

lemma start_tx_effect:
  assumes I: "lease_inv db" and T: "start_tx l b now p db = Inr (rec, db')"
  shows "tx_effect (lease_node p l) (\<lambda>r r'. r' = r \<and> leaseOwnsRow r l now) db db'"
proof -
  let ?q = "\<lambda>a. where_lease_attempt p l a \<and> aw_status a = AttemptPending"
  let ?g = "\<lambda>a. a\<lparr>aw_status := AttemptRunning, aw_target_id := Some (ab_TargetRef b),
    aw_target_revision := Some (ab_TargetRevision b), aw_target_snapshot := Some (ab_TargetSnapshot b),
    aw_policy_decision_id := Some (ab_PolicyDecisionRef b),
    aw_budget_reservation_id := Some (ab_BudgetReservationRef b),
    aw_started_at := Some now, aw_updated_at := now\<rparr>"
  obtain r where r: "loadNodeRuntime p (nl_ExecutionRef l) (nl_PlanRevision l) (nl_NodeRef l) db = Inr r"
      "leaseOwnsRow r l now"
    and V: "update_attempts ?q ?g ''start execution attempt: %w'' db = Inr db'"
    using T by (auto simp: start_tx_def sum_bind_Inr split: if_splits)
  have r': "r \<in> set (db_runtime db)" "node_key r = lease_node p l"
    using loadNodeRuntime_Inr [OF r(1)] by (simp_all add: lease_node_def)
  obtain a where a: "a \<in> set (db_attempts db)" "?q a" "\<forall>a\<in>set (db_attempts db). ?q a \<longrightarrow> attempt_row_ok (?g a)"
    and db': "db' = db\<lparr>db_attempts := sql_set ?q ?g (db_attempts db)\<rparr>"
    using V by (rule update_attempts_Inr)
  have N: "node_inv r (attempts_of (node_key r) (db_attempts db))" using lease_invD(5) [OF I r'(1)] .
  have "node_inv r (sql_set ?q ?g (attempts_of (node_key r) (db_attempts db)))"
  proof (rule node_inv_set [OF N])
    fix x assume "x \<in> set (attempts_of (node_key r) (db_attempts db))"
    then have "attempt_agrees r x" using N by (simp add: node_inv_def)
    then show "attempt_agrees r (if ?q x then ?g x else x)" by (auto simp: attempt_agrees_def live_status_def)
  next
    assume "r_state r = NodeRunning"
    then obtain x where "x \<in> set (attempts_of (node_key r) (db_attempts db))" "live x"
      using N by (auto simp: node_inv_def)
    then show "\<exists>x\<in>set (attempts_of (node_key r) (db_attempts db)). live (if ?q x then ?g x else x)"
      by (intro bexI [of _ x]) (auto simp: live_status_def)
  qed simp
  moreover have "node_change r r ?q ?g [] db db'"
    using where_lease_attemptD r'(2) a(3) sql_set_same [OF lease_invD(1) [OF I] r'(1)] lease_invD(3) [OF I r'(1)]
    by (intro node_change_both [OF I r'(1)])
      (auto simp: attempt_node_def attempt_key_def db')
  ultimately show ?thesis using tx_effectI [OF _ I r'(2), of r ?q ?g "[]"] r(2) by simp
qed

section \<open>Claims\<close>

lemma claim_row_simps [simp]:
  "r_state (claim_row pg num owner token fence now e r) = NodeRunning"
  "r_fence (claim_row pg num owner token fence now e r) = fence"
  "r_number (claim_row pg num owner token fence now e r) = num"
  "r_started (claim_row pg num owner token fence now e r) = None"
  "r_committed (claim_row pg num owner token fence now e r) = None"
  "node_key (claim_row pg num owner token fence now e r) = node_key r"
  "nr_RetrySafe (row_record (claim_row pg num owner token fence now e r)) = nr_RetrySafe (row_record r)"
  "nr_EffectClass (row_record (claim_row pg num owner token fence now e r)) = nr_EffectClass (row_record r)"
  "row_leaseOwner (claim_row pg num owner token fence now e r) = Some owner"
  "row_leaseToken (claim_row pg num owner token fence now e r) = Some token"
  by (simp_all add: claim_row_def node_key_def)

lemma node_row_ok_counters:
  "node_row_ok r \<Longrightarrow> 0 \<le> r_fence r \<and> r_fence r < 2 ^ 63 \<and> 0 \<le> r_number r \<and> r_number r < 2 ^ 31"
  by (simp add: node_row_ok_def Let_def)

lemma next_counter:
  assumes "0 \<le> x" and "x < 2 ^ 63" and "0 \<le> wrap64 (x + 1)"
  shows "wrap64 (x + 1) = x + 1"
proof (cases "x + 1 < 2 ^ 63")
  case True
  then show ?thesis using assms(1) by (simp add: wrap64_id i64_ok_def)
next
  case False
  then have "x = 2 ^ 63 - 1" using assms(2) by simp
  then have "wrap64 (x + 1) = - (2 ^ 63)" by (simp add: wrap64_def)
  with assms(3) show ?thesis by simp
qed

lemma claim_guard_Inr:
  "claim_guard r now = Inr reclaim \<Longrightarrow>
   (if reclaim then r_state r = NodeRunning \<and> \<not> lease_unexpired r now \<and> nr_RetrySafe (row_record r) \<and> r_committed r = None
    else r_state r = NodeReady)"
  by (auto simp: claim_guard_def split: NodeState.splits if_splits)

lemma node_inv_claim:
  assumes N: "node_inv r as" and r': "r_state r' = NodeRunning" "r_fence r' = r_fence r + 1"
      "r_number r' = r_number r + 1" "r_started r' = None" "r_committed r' = None"
    and q: "\<And>x. x \<in> set as \<Longrightarrow> live x \<Longrightarrow> q x"
    and g: "\<And>x. aw_lease_fence (g x) = aw_lease_fence x \<and> aw_attempt_number (g x) = aw_attempt_number x \<and> \<not> live (g x)"
    and n: "live n" "aw_lease_fence n = r_fence r'" "aw_attempt_number n = r_number r'"
      "aw_effect_started_at n = None" "aw_effect_committed_at n = None"
  shows "node_inv r' (sql_set q g as @ [n])"
proof -
  have old: "\<forall>x\<in>set as. aw_lease_fence x \<le> r_fence r \<and> aw_attempt_number x \<le> r_number r"
    using N by (auto simp: node_inv_def attempt_agrees_def)
  have maps: "map aw_lease_fence (sql_set q g as) = map aw_lease_fence as"
    "map aw_attempt_number (sql_set q g as) = map aw_attempt_number as"
    using g by (auto intro!: sql_set_map)
  have "\<forall>x\<in>set (sql_set q g as). aw_lease_fence x \<le> r_fence r \<and> aw_attempt_number x \<le> r_number r \<and> \<not> live x"
  proof
    fix y assume "y \<in> set (sql_set q g as)"
    then obtain x where x: "x \<in> set as" "y = (if q x then g x else x)" by (auto simp: set_sql_set)
    then show "aw_lease_fence y \<le> r_fence r \<and> aw_attempt_number y \<le> r_number r \<and> \<not> live y"
      using old g [of x] q [OF x(1)] by auto
  qed
  then have agree: "\<forall>x\<in>set (sql_set q g as). attempt_agrees r' x" using r' by (auto simp: attempt_agrees_def)
  have fresh: "r_fence r' \<notin> set (map aw_lease_fence as)" "r_number r' \<notin> set (map aw_attempt_number as)"
    using old r'(2,3) by force+
  have "attempt_agrees r' n" using n r' by (simp add: attempt_agrees_def)
  moreover have "distinct (map aw_lease_fence (sql_set q g as @ [n]))"
    "distinct (map aw_attempt_number (sql_set q g as @ [n]))"
    using N fresh n(2,3) unfolding map_append maps by (simp_all add: node_inv_def)
  ultimately show ?thesis using agree n(1) by (auto simp: node_inv_def)
qed

definition lease_of_row :: "NodeLease \<Rightarrow> nodeRuntimeRow \<Rightarrow> bool" where
  "lease_of_row l r \<longleftrightarrow>
     r_state r = NodeRunning \<and> row_leaseOwner r = Some (nl_OwnerWorkerID l) \<and>
     row_leaseToken r = Some (nl_Token l) \<and> r_fence r = nl_Fence l \<and> r_number r = nl_AttemptNumber l"

lemma claim_tx_steps:
  assumes "claim_tx pg ex rv nd owner dur rnd1 rnd2 now p db = Inr (l, db')"
  obtains row reclaim db1 db2 token aid where "loadNodeRuntime p ex rv nd db = Inr row" "claim_guard row now = Inr reclaim"
    "(if reclaim then abandonAttemptTx p ex rv nd (r_number row) (r_fence row) now db else Inr db) = Inr db1"
    "newLeaseToken rnd1 = Inr token" "newAttemptID rnd2 = Inr aid"
    "update_runtime (where_node p ex rv nd)
       (claim_row pg (wrap64 (r_number row + 1)) owner token (wrap64 (r_fence row + 1)) now (time_Add now dur))
       ''claim execution node: %w'' ErrNodeLeaseLost db1 = Inr db2"
    "insertPendingAttemptTx p aid ex rv nd (wrap64 (r_number row + 1)) (wrap64 (r_fence row + 1)) owner
       (nr_IdempotencyKey (row_record row)) now db2 = Inr db'"
    "l = \<lparr>nl_ExecutionRef = ex, nl_PlanRevision = rv, nl_NodeRef = nd, nl_AttemptRef = aid,
       nl_OwnerWorkerID = owner, nl_Token = token, nl_Fence = wrap64 (r_fence row + 1),
       nl_AttemptNumber = wrap64 (r_number row + 1), nl_ClaimedAt = now, nl_HeartbeatAt = now,
       nl_ExpiresAt = time_Add now dur\<rparr>"
  using assms unfolding claim_tx_def Let_def sum_bind_Inr Pair_inject sum.inject by blast

definition abandon :: "gotime \<Rightarrow> attemptRow \<Rightarrow> attemptRow" where
  "abandon now a = a\<lparr>aw_status := AttemptAbandoned, aw_finished_at := Some now, aw_updated_at := now\<rparr>"

lemma abandon_simps [simp]:
  "aw_lease_fence (abandon now a) = aw_lease_fence a" "aw_attempt_number (abandon now a) = aw_attempt_number a"
  "attempt_node (abandon now a) = attempt_node a" "attempt_key (abandon now a) = attempt_key a"
  "\<not> live (abandon now a)"
  by (simp_all add: abandon_def attempt_node_def attempt_key_def live_status_def)

lemma abandonAttemptTx_Inr:
  assumes "abandonAttemptTx p ex rv nd num fence now db = Inr db1"
  defines "q \<equiv> \<lambda>a. where_attempt p ex rv nd a \<and> aw_attempt_number a = num \<and> aw_lease_fence a = fence \<and> live a"
  shows "(\<forall>a\<in>set (db_attempts db). q a \<longrightarrow> attempt_row_ok (abandon now a)) \<and>
    db1 = db\<lparr>db_attempts := sql_set q (abandon now) (db_attempts db)\<rparr>"
  using assms(1) unfolding abandonAttemptTx_def q_def abandon_def
  by (auto elim!: update_attempts_Inr simp: fun_eq_iff)

lemma claim_tx_effect:
  assumes I: "lease_inv db" and T: "claim_tx pg ex rv nd owner dur rnd1 rnd2 now p db = Inr (l, db')"
  shows "tx_effect (p_TenantID p, p_ProjectID p, ex, rv, nd)
    (\<lambda>r r'. node_step EClaim r r' \<and> r_fence r' = r_fence r + 1 \<and> r_number r' = r_number r + 1 \<and>
      lease_of_row l r' \<and> lease_node p l = node_key r) db db'"
  using T
proof (rule claim_tx_steps)
  fix row reclaim db1 db2 token aid
  assume L: "loadNodeRuntime p ex rv nd db = Inr row" and C: "claim_guard row now = Inr reclaim"
    and A: "(if reclaim then abandonAttemptTx p ex rv nd (r_number row) (r_fence row) now db else Inr db) = Inr db1"
    and U: "update_runtime (where_node p ex rv nd)
       (claim_row pg (wrap64 (r_number row + 1)) owner token (wrap64 (r_fence row + 1)) now (time_Add now dur))
       ''claim execution node: %w'' ErrNodeLeaseLost db1 = Inr db2"
    and P: "insertPendingAttemptTx p aid ex rv nd (wrap64 (r_number row + 1)) (wrap64 (r_fence row + 1)) owner
       (nr_IdempotencyKey (row_record row)) now db2 = Inr db'"
    and l: "l = \<lparr>nl_ExecutionRef = ex, nl_PlanRevision = rv, nl_NodeRef = nd, nl_AttemptRef = aid,
       nl_OwnerWorkerID = owner, nl_Token = token, nl_Fence = wrap64 (r_fence row + 1),
       nl_AttemptNumber = wrap64 (r_number row + 1), nl_ClaimedAt = now, nl_HeartbeatAt = now,
       nl_ExpiresAt = time_Add now dur\<rparr>"
  let ?k = "(p_TenantID p, p_ProjectID p, ex, rv, nd)"
  let ?q = "\<lambda>a. reclaim \<and> where_attempt p ex rv nd a \<and> aw_attempt_number a = r_number row \<and>
    aw_lease_fence a = r_fence row \<and> live a"
  have row: "row \<in> set (db_runtime db)" "node_key row = ?k" using loadNodeRuntime_Inr [OF L] by simp_all
  have db1: "db_runtime db1 = db_runtime db" "db_attempts db1 = sql_set ?q (abandon now) (db_attempts db)"
    and qok: "\<forall>a\<in>set (db_attempts db). ?q a \<longrightarrow> attempt_row_ok (abandon now a)"
    using A abandonAttemptTx_Inr [of p ex rv nd "r_number row" "r_fence row" now db db1] by (auto split: if_splits)
  have u1: "nk.unique (db_runtime db1)" using lease_invD(1) [OF I] db1(1) by simp
  define r' where "r' = claim_row pg (wrap64 (r_number row + 1)) owner token (wrap64 (r_fence row + 1)) now (time_Add now dur) row"
  obtain r where "r \<in> set (db_runtime db)" "node_key r = ?k"
    "node_row_ok (claim_row pg (wrap64 (r_number row + 1)) owner token (wrap64 (r_fence row + 1)) now (time_Add now dur) r)"
    "db2 = db1\<lparr>db_runtime := sql_set (\<lambda>x. node_key x = node_key r)
      (\<lambda>_. claim_row pg (wrap64 (r_number row + 1)) owner token (wrap64 (r_fence row + 1)) now (time_Add now dur) r)
      (db_runtime db)\<rparr>"
    using U u1 unfolding db1(1) [symmetric] by (rule update_runtime_Inr) (auto simp: where_node_key)
  moreover have "r = row" using nk.unique_same [OF lease_invD(1) [OF I]] calculation(1,2) row by simp
  ultimately have ok: "node_row_ok r'"
    and db2: "db2 = db1\<lparr>db_runtime := sql_set (\<lambda>x. node_key x = node_key row) (\<lambda>_. r') (db_runtime db)\<rparr>"
    by (simp_all add: r'_def)
  let ?n = "pending_attempt p aid ex rv nd (wrap64 (r_number row + 1)) (wrap64 (r_fence row + 1)) owner
    (nr_IdempotencyKey (row_record row)) now"
  have n: "attempt_row_ok ?n" "\<forall>x\<in>set (db_attempts db2). \<not> attempt_conflict ?n x"
    and db': "db' = db2\<lparr>db_attempts := db_attempts db2 @ [?n]\<rparr>"
    using P by (auto simp: insertPendingAttemptTx_def sql_insert_Inr split: sum.splits)
  have pl: "live ?n" by (simp add: pending_attempt_def live_status_def)
  have nk: "attempt_node ?n = ?k" by (simp add: pending_attempt_def attempt_node_def)
  have cnt: "wrap64 (r_fence row + 1) = r_fence row + 1" "wrap64 (r_number row + 1) = r_number row + 1"
    using node_row_ok_counters [OF lease_invD(3) [OF I row(1)]] node_row_ok_counters [OF ok]
    by (auto simp: r'_def intro!: next_counter)
  have "ak.unique (db_attempts db2 @ [?n])"
    using n(2) ak.unique_set [OF lease_invD(2) [OF I], of "abandon now" ?q]
    by (intro ak.unique_insert) (auto simp: db2 db1(2) attempt_conflict_def)
  then have ch: "node_change row r' ?q (abandon now) [?n] db db'"
    using row ok qok n(1) unfolding node_change_def db' db2
    by (simp add: db1 r'_def where_attempt_node nk)
  have N: "node_inv row (attempts_of (node_key row) (db_attempts db))" using lease_invD(5) [OF I row(1)] .
  have live: "?q x" if x: "x \<in> set (attempts_of (node_key row) (db_attempts db))" "live x" for x
    using N x claim_guard_Inr [OF C]
    by (auto simp: node_inv_def attempt_agrees_def set_attempts_of row(2) where_attempt_node split: if_splits)
  have "node_inv r' (sql_set ?q (abandon now) (attempts_of (node_key row) (db_attempts db)) @ [?n])"
    by (rule node_inv_claim [OF N]) (use live pl in \<open>auto simp: r'_def cnt pending_attempt_def\<close>)
  moreover have "node_step EClaim row r'"
    using claim_guard_Inr [OF C] unfolding r'_def cnt
    by (cases reclaim) (auto intro: ns_claim ns_reclaim)
  ultimately show ?thesis
    by (intro tx_effectI [OF ch I row(2)]) (auto simp: r'_def cnt l lease_of_row_def lease_node_def row(2))
qed

end
