(* ===== verification/Lease_Safety.thy ===== *)
theory Lease_Safety
  imports Lease_Invariant Exec_State
begin

text \<open>
  Histories of the lease repository. An operation is a value of \<open>lease_op\<close> with the context,
  the arguments, the database time and the random bytes of one call; a history is a list
  of them, so any interleaving of any number of workers and tenants is one. The theorems
  are about all histories: the invariant, fencing of stale leases, the state machine of a
  node, at most one effect of a node that is not retry-safe.
\<close>

section \<open>Operations as data\<close>

datatype lease_op =
    LRegister pcontext NodeRuntimeRecord gotime
  | LClaim pcontext ExecutionID int NodeID string duration "goerr + char list" "goerr + char list" gotime
  | LRenew pcontext NodeLease duration gotime
  | LEffectStarted pcontext NodeLease gotime
  | LEffectCommitted pcontext NodeLease gotime
  | LRelease pcontext NodeLease gotime
  | LComplete pcontext NodeLease NodeState AttemptCompletion gotime
  | LStart pcontext NodeLease AttemptBinding gotime
  | LRequeue pcontext ExecutionID int NodeID gotime

definition outcome :: "(goerr + 'a) \<times> leaseDB \<Rightarrow> bool \<times> leaseDB" where
  "outcome x = (\<not> isl (fst x), snd x)"

fun lease_exec :: "pgDriver \<Rightarrow> lease_op \<Rightarrow> leaseDB \<Rightarrow> bool \<times> leaseDB" where
  "lease_exec pg (LRegister c r t) db = outcome (Register c r t db)"
| "lease_exec pg (LClaim c ex rv nd owner dur r1 r2 t) db = outcome (Claim pg c ex rv nd owner dur r1 r2 t db)"
| "lease_exec pg (LRenew c l dur t) db = outcome (Renew pg c l dur t db)"
| "lease_exec pg (LEffectStarted c l t) db = outcome (MarkEffectStarted c l t db)"
| "lease_exec pg (LEffectCommitted c l t) db = outcome (MarkEffectCommitted c l t db)"
| "lease_exec pg (LRelease c l t) db = outcome (ReleaseBeforeEffect c l t db)"
| "lease_exec pg (LComplete c l st cp t) db = outcome (Complete pg c l st cp t db)"
| "lease_exec pg (LStart c l b t) db = outcome (StartAttempt c l b t db)"
| "lease_exec pg (LRequeue c ex rv nd t) db = outcome (RequeueFailed c ex rv nd t db)"

fun lease_run :: "pgDriver \<Rightarrow> lease_op list \<Rightarrow> leaseDB \<Rightarrow> leaseDB" where
  "lease_run pg [] db = db"
| "lease_run pg (x # xs) db = lease_run pg xs (snd (lease_exec pg x db))"

definition empty_db :: leaseDB where
  "empty_db = \<lparr>db_runtime = [], db_attempts = []\<rparr>"

lemma lease_inv_empty: "lease_inv empty_db"
  by (simp add: lease_inv_def empty_db_def nk.unique_def ak.unique_def)

section \<open>One step\<close>

text \<open>A step leaves the database as it is, adds the row of a new node, or changes one node.\<close>

definition added_row :: "nodeRuntimeRow \<Rightarrow> leaseDB \<Rightarrow> leaseDB \<Rightarrow> bool" where
  "added_row r db db' \<longleftrightarrow>
     db' = db\<lparr>db_runtime := db_runtime db @ [r]\<rparr> \<and> r_state r \<noteq> NodeRunning \<and> r_started r = None \<and>
     (\<forall>x\<in>set (db_runtime db). node_key x \<noteq> node_key r)"

fun event_of :: "lease_op \<Rightarrow> node_event option" where
  "event_of (LRegister c r t) = None"
| "event_of (LClaim c ex rv nd owner dur r1 r2 t) = Some EClaim"
| "event_of (LRenew c l dur t) = Some ERenew"
| "event_of (LEffectStarted c l t) = Some EStarted"
| "event_of (LEffectCommitted c l t) = Some ECommitted"
| "event_of (LRelease c l t) = Some ERelease"
| "event_of (LComplete c l st cp t) = Some EComplete"
| "event_of (LStart c l b t) = None"
| "event_of (LRequeue c ex rv nd t) = Some ERequeue"

definition row_step :: "node_event option \<Rightarrow> nodeRuntimeRow \<Rightarrow> nodeRuntimeRow \<Rightarrow> bool" where
  "row_step e r r' \<longleftrightarrow> r' = r \<or> (\<exists>ev. e = Some ev \<and> node_step ev r r')"

lemma row_step_key: "row_step e r r' \<Longrightarrow> node_key r' = node_key r"
  by (auto simp: row_step_def node_step_key)

definition db_step :: "node_event option \<Rightarrow> leaseDB \<Rightarrow> leaseDB \<Rightarrow> bool" where
  "db_step e db db' \<longleftrightarrow>
     lease_inv db' \<and>
     (db' = db \<or> (\<exists>r. added_row r db db') \<or>
      (\<exists>r r' q g new. row_step e r r' \<and> node_change r r' q g new db db'))"

lemma checked_tx_cases:
  assumes "checked_tx chk ctx f db = (r, db')"
  obtains (err) e where "r = Inl e" "db' = db"
  | (ok) p v where "r = Inr v" "chk = None" "tx_scope ctx = Some p" "f p db = Inr (v, db')"
proof (cases r)
  case (Inl e)
  have "db' = db"
  proof (cases chk)
    case None
    with assms Inl have "withScopedTx ctx f db = (Inl e, db')" by (simp add: checked_tx_def)
    then show ?thesis by (rule withScopedTx_err)
  qed (use assms in \<open>simp add: checked_tx_def\<close>)
  with Inl show ?thesis by (rule err)
next
  case (Inr v)
  then have c: "chk = None" using assms by (cases chk) (simp_all add: checked_tx_def)
  with assms Inr have "withScopedTx ctx f db = (Inr v, db')" by (simp add: checked_tx_def)
  then obtain p where "tx_scope ctx = Some p" "f p db = Inr (v, db')"
    unfolding withScopedTx_ok tx_scope_Some by blast
  with Inr c show ?thesis by (rule ok)
qed

lemma tx_effect_step:
  "tx_effect k R db db' \<Longrightarrow> (\<And>r r'. R r r' \<Longrightarrow> row_step e r r') \<Longrightarrow> db_step e db db'"
proof -
  assume T: "tx_effect k R db db'" and R: "\<And>r r'. R r r' \<Longrightarrow> row_step e r r'"
  obtain r r' q g new where "R r r'" "node_change r r' q g new db db'" "lease_inv db'"
    using T unfolding tx_effect_def by blast
  with R [of r r'] show ?thesis unfolding db_step_def by blast
qed

lemma outcome_step:
  assumes I: "lease_inv db" and "\<And>p v db'. f p db = Inr (v, db') \<Longrightarrow> chk = None \<Longrightarrow> db_step e db db'"
  shows "db_step e db (snd (outcome (checked_tx chk ctx f db)))"
proof (cases "checked_tx chk ctx f db")
  case (Pair r db')
  then show ?thesis
  proof (cases rule: checked_tx_cases)
    case err
    then show ?thesis using Pair I by (simp add: outcome_def db_step_def)
  next
    case ok
    then show ?thesis using Pair assms(2) by (simp add: outcome_def)
  qed
qed

lemma register_tx_step:
  assumes "lease_inv db" and "register_tx n now p db = Inr (u, db')"
  shows "db_step e db db'"
proof -
  have "db' = db\<lparr>db_runtime := db_runtime db @ [new_row p n now]\<rparr>" "node_row_ok (new_row p n now)"
    "\<forall>x\<in>set (db_runtime db). node_key (new_row p n now) \<noteq> node_key x"
    using assms(2) by (auto simp: register_tx_def sql_insert_or_nothing_one split: sum.splits if_splits prod.splits)
  then have "added_row (new_row p n now) db db'"
    by (auto simp: added_row_def node_row_ok_def Let_def lease_state_contract_def new_row_def)
  then show ?thesis using register_tx_inv [OF assms] by (auto simp: db_step_def)
qed

lemma lease_exec_step:
  assumes "lease_inv db"
  shows "db_step (event_of x) db (snd (lease_exec pg x db))"
proof (cases x)
  case (LRegister c r t)
  then show ?thesis unfolding LRegister lease_exec.simps Register_def
    by (intro outcome_step [OF assms] register_tx_step [OF assms])
next
  case (LClaim c ex rv nd owner dur r1 r2 t)
  then show ?thesis unfolding LClaim lease_exec.simps Claim_def
    by (intro outcome_step [OF assms] tx_effect_step [OF claim_tx_effect [OF assms]]) (auto simp: row_step_def)
next
  case (LRenew c l dur t)
  then show ?thesis unfolding LRenew lease_exec.simps Renew_def
    by (intro outcome_step [OF assms] tx_effect_step [OF renew_tx_effect [OF assms]]) (auto simp: row_step_def)
next
  case (LEffectStarted c l t)
  then show ?thesis unfolding LEffectStarted lease_exec.simps MarkEffectStarted_def
    by (intro outcome_step [OF assms] tx_effect_step [OF effect_started_tx_effect [OF assms]]) (auto simp: row_step_def)
next
  case (LEffectCommitted c l t)
  then show ?thesis unfolding LEffectCommitted lease_exec.simps MarkEffectCommitted_def
    by (intro outcome_step [OF assms] tx_effect_step [OF effect_committed_tx_effect [OF assms]]) (auto simp: row_step_def)
next
  case (LRelease c l t)
  then show ?thesis unfolding LRelease lease_exec.simps ReleaseBeforeEffect_def
    by (intro outcome_step [OF assms] tx_effect_step [OF release_tx_effect [OF assms]]) (auto simp: row_step_def)
next
  case (LComplete c l st cp t)
  then show ?thesis unfolding LComplete lease_exec.simps Complete_def
    by (intro outcome_step [OF assms] tx_effect_step [OF complete_tx_effect [OF assms]]) (auto simp: row_step_def)
next
  case (LStart c l b t)
  then show ?thesis unfolding LStart lease_exec.simps StartAttempt_def
    by (intro outcome_step [OF assms] tx_effect_step [OF start_tx_effect [OF assms]]) (auto simp: row_step_def)
next
  case (LRequeue c ex rv nd t)
  then show ?thesis unfolding LRequeue lease_exec.simps RequeueFailed_def
    by (intro outcome_step [OF assms] tx_effect_step [OF requeue_tx_effect [OF assms]]) (auto simp: row_step_def)
qed

lemma db_step_inv: "db_step e db db' \<Longrightarrow> lease_inv db'"
  by (simp add: db_step_def)

lemma lease_run_inv: "lease_inv db \<Longrightarrow> lease_inv (lease_run pg xs db)"
  by (induction xs arbitrary: db) (auto dest: lease_exec_step db_step_inv)

text \<open>What a step does to the row of a given node.\<close>

lemma db_step_row:
  assumes I: "lease_inv db" and S: "db_step e db db'" and r: "r \<in> set (db_runtime db)"
  shows "\<exists>r'\<in>set (db_runtime db'). node_key r' = node_key r \<and> row_step e r r'"
proof -
  consider "db' = db" | x where "added_row x db db'"
    | x x' q g new where "row_step e x x'" "node_change x x' q g new db db'"
    using S unfolding db_step_def by blast
  then show ?thesis
  proof cases
    case (3 x x' q g new)
    show ?thesis
    proof (cases "x = r")
      case True
      then have "x' \<in> set (db_runtime db')" using node_change_rows [OF 3(2) I] by simp
      with True 3(1) show ?thesis using row_step_key by blast
    next
      case False
      then have "r \<in> set (db_runtime db')" using node_change_rows [OF 3(2) I] r by simp
      then show ?thesis by (auto simp: row_step_def)
    qed
  qed (use r in \<open>auto simp: added_row_def row_step_def\<close>)
qed

lemma node_row_unique:
  "lease_inv db \<Longrightarrow> r \<in> set (db_runtime db) \<Longrightarrow> s \<in> set (db_runtime db) \<Longrightarrow> node_key r = node_key s \<Longrightarrow> r = s"
  using lease_invD(1) nk.unique_same by blast

section \<open>One live attempt\<close>

lemma filter_single:
  "distinct xs \<Longrightarrow> x \<in> set xs \<Longrightarrow> P x \<Longrightarrow> \<forall>y\<in>set xs. P y \<longrightarrow> y = x \<Longrightarrow> length (filter P xs) = Suc 0"
proof -
  assume d: "distinct xs" and x: "x \<in> set xs" "P x" and u: "\<forall>y\<in>set xs. P y \<longrightarrow> y = x"
  have "set (filter P xs) = {x}" unfolding set_filter using x u by blast
  then show ?thesis using distinct_card [of "filter P xs"] d by simp
qed

lemma node_inv_live_count:
  assumes "node_inv r as"
  shows "length (filter live as) = (if r_state r = NodeRunning then 1 else 0)"
proof (cases "r_state r = NodeRunning")
  case True
  then obtain a where a: "a \<in> set as" "live a" using assms by (auto simp: node_inv_def)
  have "\<forall>b\<in>set as. live b \<longrightarrow> b = a"
  proof (intro ballI impI)
    fix b assume b: "b \<in> set as" "live b"
    then have "aw_lease_fence b = aw_lease_fence a" using assms a by (simp add: node_inv_def attempt_agrees_def)
    then show "b = a" by (rule node_inv_same_fence [OF assms b(1) a(1)])
  qed
  moreover have "distinct as" using assms by (auto simp: node_inv_def distinct_map)
  ultimately have "length (filter live as) = Suc 0" using filter_single [of as a live] a by blast
  with True show ?thesis by simp
next
  case False
  then have "\<forall>a\<in>set as. \<not> live a" using assms by (auto simp: node_inv_def attempt_agrees_def)
  then show ?thesis using False by (simp add: filter_empty_conv)
qed

text \<open>C7: after any history that starts with empty tables, a running node has exactly one
  attempt that is pending or running and any other node has none, whoever claimed, lost,
  released, reclaimed, completed or requeued it; and that attempt carries the node's
  current fence and attempt number.\<close>

theorem one_live_attempt:
  assumes "r \<in> set (db_runtime (lease_run pg xs empty_db))"
  shows "length (filter live (attempts_of (node_key r) (db_attempts (lease_run pg xs empty_db)))) =
      (if r_state r = NodeRunning then 1 else 0) \<and>
    (\<forall>a\<in>set (attempts_of (node_key r) (db_attempts (lease_run pg xs empty_db))).
       live a \<longrightarrow> aw_lease_fence a = r_fence r \<and> aw_attempt_number a = r_number r)"
proof -
  have N: "node_inv r (attempts_of (node_key r) (db_attempts (lease_run pg xs empty_db)))"
    using lease_invD(5) [OF lease_run_inv [OF lease_inv_empty] assms] .
  then show ?thesis using node_inv_live_count [OF N] by (auto simp: node_inv_def attempt_agrees_def)
qed

section \<open>Fencing\<close>

lemma node_step_fence: "node_step e r r' \<Longrightarrow> r_fence r \<le> r_fence r'"
  by (induction rule: node_step.induct) simp_all

lemma lease_run_fence:
  assumes "lease_inv db" and "r \<in> set (db_runtime db)"
  shows "\<exists>r'\<in>set (db_runtime (lease_run pg xs db)). node_key r' = node_key r \<and> r_fence r \<le> r_fence r'"
  using assms
proof (induction xs arbitrary: db r)
  case (Cons x xs)
  let ?db = "snd (lease_exec pg x db)"
  obtain s where s: "s \<in> set (db_runtime ?db)" "node_key s = node_key r" "r_fence r \<le> r_fence s"
    using db_step_row [OF Cons.prems(1) lease_exec_step [OF Cons.prems(1)] Cons.prems(2)] node_step_fence
    unfolding row_step_def by blast
  then show ?case
    using Cons.IH [OF db_step_inv [OF lease_exec_step [OF Cons.prems(1)]] s(1)] by fastforce
qed auto

text \<open>A lease whose fence is older than the row's is refused by every operation.\<close>

lemma update_runtime_none:
  assumes "\<forall>x\<in>set (db_runtime db). \<not> P x"
  shows "update_runtime P f msg none db = Inl none"
proof -
  have "filter P (db_runtime db) = []" using assms by (simp add: filter_empty_conv)
  moreover have "\<not> list_ex (\<lambda>r. P r \<and> \<not> node_row_ok (f r)) (db_runtime db)" using assms by (auto simp: list_ex_iff)
  ultimately show ?thesis by (simp add: update_runtime_def update_one_def sql_update_def)
qed

lemma stale_lease_tx:
  assumes I: "lease_inv db" and r: "r \<in> set (db_runtime db)" "node_key r = lease_node p l" "nl_Fence l < r_fence r"
  shows "renew_tx pg l dur now p db = Inl ErrNodeLeaseLost"
    and "effect_started_tx l now p db = Inl ErrNodeLeaseLost"
    and "effect_committed_tx l now p db = Inl ErrNodeLeaseLost"
    and "release_tx l now p db = Inl ErrNodeLeaseLost"
    and "complete_tx pg l terminal c now p db = Inl ErrNodeLeaseLost"
    and "start_tx l b now p db = Inl ErrNodeLeaseLost"
proof -
  have held: "\<not> where_held p l now x" if "x \<in> set (db_runtime db)" for x
    using where_heldD [of p l now x] node_row_unique [OF I that r(1)] r(2,3) by auto
  have load: "loadNodeRuntime p (nl_ExecutionRef l) (nl_PlanRevision l) (nl_NodeRef l) db = Inr r"
  proof (cases "List.find (where_node p (nl_ExecutionRef l) (nl_PlanRevision l) (nl_NodeRef l)) (db_runtime db)")
    case None
    then show ?thesis using r(1,2) by (auto simp: find_None_iff where_node_key lease_node_def)
  next
    case (Some x)
    then have "x \<in> set (db_runtime db)" "node_key x = lease_node p l"
      by (auto simp: find_Some_iff where_node_key lease_node_def)
    then have "x = r" using node_row_unique [OF I _ r(1)] r(2) by simp
    with Some show ?thesis by (simp add: loadNodeRuntime_def sql_query_row_def)
  qed
  have own: "\<not> leaseOwnsRow r l now" using r(3) by (simp add: leaseOwnsRow_def)
  show "renew_tx pg l dur now p db = Inl ErrNodeLeaseLost" "effect_started_tx l now p db = Inl ErrNodeLeaseLost"
    "effect_committed_tx l now p db = Inl ErrNodeLeaseLost" "release_tx l now p db = Inl ErrNodeLeaseLost"
    "complete_tx pg l terminal c now p db = Inl ErrNodeLeaseLost" "start_tx l b now p db = Inl ErrNodeLeaseLost"
    using held own
    by (simp_all add: renew_tx_def effect_started_tx_def effect_committed_tx_def release_tx_def complete_tx_def
        start_tx_def load Let_def update_runtime_none)
qed

lemma checked_tx_Inl: "tx_scope ctx = Some p \<Longrightarrow> f p db = Inl e \<Longrightarrow> checked_tx None ctx f db = (Inl e, db)"
  by (simp add: checked_tx_def withScopedTx_scope)

definition valid_lease :: "NodeLease \<Rightarrow> bool" where
  "valid_lease l \<longleftrightarrow>
     nl_ExecutionRef l \<noteq> [] \<and> nl_PlanRevision l \<ge> 1 \<and> nl_NodeRef l \<noteq> [] \<and> TrimSpace (nl_OwnerWorkerID l) \<noteq> [] \<and>
     TrimSpace (nl_AttemptRef l) \<noteq> [] \<and> TrimSpace (nl_Token l) \<noteq> [] \<and> nl_AttemptNumber l \<ge> 1 \<and> nl_Fence l \<ge> 1"

definition lease_refused :: "pgDriver \<Rightarrow> pcontext \<Rightarrow> NodeLease \<Rightarrow> leaseDB \<Rightarrow> bool" where
  "lease_refused pg ctx l db \<longleftrightarrow>
     (\<forall>now dur. 0 < dur \<longrightarrow> Renew pg ctx l dur now db = (Inl ErrNodeLeaseLost, db)) \<and>
     (\<forall>now. MarkEffectStarted ctx l now db = (Inl ErrNodeLeaseLost, db) \<and>
            MarkEffectCommitted ctx l now db = (Inl ErrNodeLeaseLost, db) \<and>
            ReleaseBeforeEffect ctx l now db = (Inl ErrNodeLeaseLost, db)) \<and>
     (\<forall>now terminal c. validateAttemptCompletion terminal c = None \<longrightarrow>
            Complete pg ctx l terminal c now db = (Inl ErrNodeLeaseLost, db)) \<and>
     (\<forall>now b. validateAttemptBinding b = None \<longrightarrow> StartAttempt ctx l b now db = (Inl ErrNodeLeaseLost, db))"

lemma stale_lease_refused:
  assumes "lease_inv db" and "r \<in> set (db_runtime db)" and "node_key r = lease_node p l" and "nl_Fence l < r_fence r"
    and "tx_scope ctx = Some p" and "valid_lease l"
  shows "lease_refused pg ctx l db"
proof -
  note T = stale_lease_tx [OF assms(1-4)]
  have v: "validateLeaseAttempt l = None" "\<And>dur. 0 < dur \<Longrightarrow> validateHeldLease l dur = None" "TrimSpace (nl_AttemptRef l) \<noteq> []"
    using assms(6) TrimSpace_nonempty
    by (auto simp: valid_lease_def validateLeaseAttempt_def validateHeldLease_def validateLeaseIdentity_def)
  show ?thesis
    unfolding lease_refused_def Renew_def MarkEffectStarted_def MarkEffectCommitted_def ReleaseBeforeEffect_def
      Complete_def StartAttempt_def
    using v T assms(5) by (auto intro!: checked_tx_Inl)
qed

text \<open>What a claimed lease is.\<close>

lemma Claim_lease:
  assumes I: "lease_inv db" and C: "Claim pg ctx ex rv nd owner dur rnd1 rnd2 now db = (Inr l, db')"
  obtains p r r' where "tx_scope ctx = Some p" "r \<in> set (db_runtime db)" "r' \<in> set (db_runtime db')"
    "node_key r = (p_TenantID p, p_ProjectID p, ex, rv, nd)" "node_key r' = node_key r" "lease_node p l = node_key r"
    "r_fence r' = r_fence r + 1" "r_number r' = r_number r + 1" "lease_of_row l r'" "lease_inv db'"
    "validateLeaseIdentity ex rv nd owner dur = None"
    "claim_tx pg ex rv nd owner dur rnd1 rnd2 now p db = Inr (l, db')"
  using C unfolding Claim_def
proof (cases rule: checked_tx_cases)
  case (ok p v)
  then have T: "claim_tx pg ex rv nd owner dur rnd1 rnd2 now p db = Inr (l, db')" by simp
  from claim_tx_effect [OF I T] obtain r r' q g new where
    e: "node_key r = (p_TenantID p, p_ProjectID p, ex, rv, nd)" "node_step EClaim r r'" "r_fence r' = r_fence r + 1"
    "r_number r' = r_number r + 1" "lease_of_row l r'" "lease_node p l = node_key r"
    and c: "node_change r r' q g new db db'" and I': "lease_inv db'"
    unfolding tx_effect_def by blast
  have "r \<in> set (db_runtime db)" using c by (simp add: node_change_def)
  moreover have "r' \<in> set (db_runtime db')" using node_change_rows [OF c I] by simp
  ultimately show ?thesis using that [of p r r'] ok(2,3) e node_step_key [OF e(2)] I' T by blast
qed simp

lemma word_chars_no_space: "c \<in> set ''0123456789abcdefghijklmnopqrstuvwxyz_'' \<Longrightarrow> \<forall>p\<in>set space_runes. c \<notin> set p"
proof -
  have "list_all (\<lambda>c. list_all (\<lambda>p. c \<notin> set p) space_runes) ''0123456789abcdefghijklmnopqrstuvwxyz_''"
    by (simp add: space_runes_def)
  then show "c \<in> set ''0123456789abcdefghijklmnopqrstuvwxyz_'' \<Longrightarrow> ?thesis" unfolding list_all_iff by blast
qed

lemma hex_digit_word: "n < 16 \<Longrightarrow> hex_digit n \<in> set ''0123456789abcdefghijklmnopqrstuvwxyz_''"
proof -
  have "list_all (\<lambda>n. hex_digit n \<in> set ''0123456789abcdefghijklmnopqrstuvwxyz_'') [0..<16]" by code_simp
  then show "n < 16 \<Longrightarrow> ?thesis" by (simp add: list_all_iff)
qed

lemma hex_not_blank: "bs \<noteq> [] \<Longrightarrow> TrimSpace (hex_EncodeToString bs) \<noteq> []"
proof -
  assume "bs \<noteq> []"
  then obtain b cs where "bs = b # cs" by (cases bs) auto
  then have "hex_digit (of_char b mod 16) \<in> set (hex_EncodeToString bs)" by (simp add: hex_EncodeToString_def)
  moreover have "\<forall>p\<in>set space_runes. hex_digit (of_char b mod 16) \<notin> set p"
    by (rule word_chars_no_space, rule hex_digit_word) simp
  ultimately show ?thesis using TrimSpace_keeps by (metis empty_iff list.set(1))
qed

lemma attempt_ref_not_blank: "TrimSpace (''att_'' @ t) \<noteq> []"
proof -
  have "CHR ''a'' \<in> set (''att_'' @ t)" by simp
  moreover have "\<forall>p\<in>set space_runes. CHR ''a'' \<notin> set p" by (rule word_chars_no_space) simp
  ultimately show ?thesis using TrimSpace_keeps by (metis empty_iff list.set(1))
qed

lemma Claim_valid_lease:
  assumes I: "lease_inv db" and C: "Claim pg ctx ex rv nd owner dur (Inr bs) rnd2 now db = (Inr l, db')" and "bs \<noteq> []"
  shows "valid_lease l"
  using I C
proof (rule Claim_lease)
  fix p r r'
  assume r: "r \<in> set (db_runtime db)" "r_fence r' = r_fence r + 1" "r_number r' = r_number r + 1" "lease_of_row l r'"
    and V: "validateLeaseIdentity ex rv nd owner dur = None"
    and T: "claim_tx pg ex rv nd owner dur (Inr bs) rnd2 now p db = Inr (l, db')"
  have num: "nl_Fence l \<ge> 1" "nl_AttemptNumber l \<ge> 1"
    using node_row_ok_counters [OF lease_invD(3) [OF I r(1)]] r(2-4) by (auto simp: lease_of_row_def)
  obtain t where "nl_ExecutionRef l = ex" "nl_PlanRevision l = rv" "nl_NodeRef l = nd" "nl_OwnerWorkerID l = owner"
    "nl_Token l = hex_EncodeToString bs" "nl_AttemptRef l = ''att_'' @ t"
    using T by (rule claim_tx_steps) (auto simp: newLeaseToken_def newAttemptID_def split: sum.splits)
  then show ?thesis
    using num V hex_not_blank [OF assms(3)] attempt_ref_not_blank
    by (auto simp: valid_lease_def validateLeaseIdentity_def split: if_splits)
qed

text \<open>C3: fencing. Take any history, in it a claim of a node that gives a worker a lease, and
  later a second claim of the same node in the same tenant and project. From then on,
  whatever else happens, every operation under the first lease, renewing it, starting or
  completing its attempt, marking its effect or releasing it, at any database time, fails
  with the lease lost and changes nothing; and the second lease has the larger fence.\<close>

theorem stale_lease_fenced:
  assumes "bs \<noteq> []"
    and "Claim pg ctx1 ex rv nd owner1 dur1 (Inr bs) rnd2 now1 (lease_run pg zs empty_db) = (Inr l1, db1)"
    and "Claim pg ctx2 ex rv nd owner2 dur2 rnd3 rnd4 now2 (lease_run pg xs db1) = (Inr l2, db2)"
    and "tx_scope ctx1 = Some p1" and "tx_scope ctx2 = Some p2"
    and "p_TenantID p1 = p_TenantID p2" and "p_ProjectID p1 = p_ProjectID p2"
  shows "nl_Fence l1 < nl_Fence l2 \<and> lease_refused pg ctx1 l1 (lease_run pg ys db2)"
proof -
  have I0: "lease_inv (lease_run pg zs empty_db)" using lease_run_inv [OF lease_inv_empty] .
  obtain r1 where r1: "r1 \<in> set (db_runtime db1)" "node_key r1 = (p_TenantID p1, p_ProjectID p1, ex, rv, nd)"
    "lease_node p1 l1 = node_key r1" "r_fence r1 = nl_Fence l1" and I1: "lease_inv db1"
    using Claim_lease [OF I0 assms(2)] assms(4) unfolding lease_of_row_def by (metis option.inject)
  obtain r where r: "r \<in> set (db_runtime (lease_run pg xs db1))" "node_key r = node_key r1" "r_fence r1 \<le> r_fence r"
    using lease_run_fence [OF I1 r1(1)] by blast
  have I: "lease_inv (lease_run pg xs db1)" using lease_run_inv [OF I1] .
  obtain r2 r2' where r2: "r2 \<in> set (db_runtime (lease_run pg xs db1))" "r2' \<in> set (db_runtime db2)"
    "node_key r2 = (p_TenantID p2, p_ProjectID p2, ex, rv, nd)" "node_key r2' = node_key r2"
    "r_fence r2' = r_fence r2 + 1" "r_fence r2' = nl_Fence l2" and I2: "lease_inv db2"
    using Claim_lease [OF I assms(3)] assms(5) unfolding lease_of_row_def by (metis option.inject)
  have "r2 = r" using node_row_unique [OF I r2(1) r(1)] r(2) r1(2) r2(3) assms(6,7) by simp
  then have lt: "nl_Fence l1 < r_fence r2'" using r(3) r2(5) r1(4) by simp
  obtain s where s: "s \<in> set (db_runtime (lease_run pg ys db2))" "node_key s = node_key r2'" "r_fence r2' \<le> r_fence s"
    using lease_run_fence [OF I2 r2(2)] by blast
  have "node_key s = lease_node p1 l1" using s(2) r2(3,4) r1(2,3) assms(6,7) by simp
  then have "lease_refused pg ctx1 l1 (lease_run pg ys db2)"
    using stale_lease_refused [OF lease_run_inv [OF I2] s(1) _ _ assms(4) Claim_valid_lease [OF I0 assms(2,1)]] s(3) lt
    by simp
  with lt r2(6) show ?thesis by simp
qed

section \<open>The state machine of a node\<close>

lemma node_step_frozen:
  "node_step e r r' \<Longrightarrow>
   nr_EffectClass (row_record r') = nr_EffectClass (row_record r) \<and>
   nr_RetrySafe (row_record r') = nr_RetrySafe (row_record r) \<and> r_fence r \<le> r_fence r'"
  by (induction rule: node_step.induct) simp_all

lemma node_step_transition:
  "node_step e r r' \<Longrightarrow> e \<noteq> ERelease \<Longrightarrow> CanTransitionNode (r_state r) (r_state r')"
  by (induction rule: node_step.induct) (auto simp: CanTransitionNode_def nodeTransitions_def gomap_get_def)

inductive_cases node_step_release: "node_step ERelease r r'"

lemma lease_run_append: "lease_run pg (xs @ [x]) db = snd (lease_exec pg x (lease_run pg xs db))"
  by (induction xs arbitrary: db) simp_all

text \<open>C24: the node lifecycle. After any history from empty tables, whatever operation comes
  next, a node keeps its identity, its effect class and its retry safety, its fence does
  not fall, and its state changes only as the lifecycle table \<open>nodeTransitions\<close> permits,
  with one exception: a release may take a node from RUNNING back to READY, which the
  table does not permit.\<close>

theorem node_lifecycle:
  assumes "r \<in> set (db_runtime (lease_run pg xs empty_db))"
  shows "\<exists>r'\<in>set (db_runtime (lease_run pg (xs @ [x]) empty_db)).
    node_key r' = node_key r \<and> nr_EffectClass (row_record r') = nr_EffectClass (row_record r) \<and>
    nr_RetrySafe (row_record r') = nr_RetrySafe (row_record r) \<and> r_fence r \<le> r_fence r' \<and>
    (CanTransitionNode (r_state r) (r_state r') \<or>
     event_of x = Some ERelease \<and> r_state r = NodeRunning \<and> r_state r' = NodeReady \<and>
     \<not> CanTransitionNode NodeRunning NodeReady)"
proof -
  have I: "lease_inv (lease_run pg xs empty_db)" using lease_run_inv [OF lease_inv_empty] .
  obtain r' where r': "r' \<in> set (db_runtime (lease_run pg (xs @ [x]) empty_db))" "node_key r' = node_key r"
    and s: "row_step (event_of x) r r'"
    using db_step_row [OF I lease_exec_step [OF I] assms] unfolding lease_run_append by blast
  have no: "\<not> CanTransitionNode NodeRunning NodeReady" "CanTransitionNode st st" for st
    by (simp_all add: CanTransitionNode_def nodeTransitions_def gomap_get_def)
  have "CanTransitionNode (r_state r) (r_state r') \<or>
     event_of x = Some ERelease \<and> r_state r = NodeRunning \<and> r_state r' = NodeReady"
  proof (cases "r' = r")
    case False
    then obtain ev where ev: "event_of x = Some ev" "node_step ev r r'" using s by (auto simp: row_step_def)
    show ?thesis
    proof (cases "ev = ERelease")
      case True
      with ev show ?thesis by (auto elim!: node_step_release)
    qed (use node_step_transition [OF ev(2)] in blast)
  qed (simp add: no)
  moreover have "nr_EffectClass (row_record r') = nr_EffectClass (row_record r) \<and>
      nr_RetrySafe (row_record r') = nr_RetrySafe (row_record r) \<and> r_fence r \<le> r_fence r'"
    using s node_step_frozen by (auto simp: row_step_def)
  ultimately show ?thesis using r' no(1) by blast
qed

section \<open>Effects\<close>

lemma lease_run_keeps:
  assumes "lease_inv db" "r \<in> set (db_runtime db)"
  shows "\<exists>r'\<in>set (db_runtime (lease_run pg xs db)). node_key r' = node_key r \<and>
    nr_RetrySafe (row_record r') = nr_RetrySafe (row_record r)"
  using assms
proof (induction xs arbitrary: db r)
  case (Cons x xs)
  let ?db = "snd (lease_exec pg x db)"
  obtain r' where r': "r' \<in> set (db_runtime ?db)" "node_key r' = node_key r" "row_step (event_of x) r r'"
    using db_step_row [OF Cons.prems(1) lease_exec_step [OF Cons.prems(1)] Cons.prems(2)] by blast
  have "lease_inv ?db" using lease_run_inv [of db pg "[x]"] Cons.prems(1) by simp
  from Cons.IH [OF this r'(1)] r' node_step_frozen show ?case by (fastforce simp: row_step_def)
qed auto

text \<open>The node an operation is about, when its context gives it a scope.\<close>

fun starts_effect :: "pgDriver \<Rightarrow> node_key \<Rightarrow> lease_op \<Rightarrow> leaseDB \<Rightarrow> bool" where
  "starts_effect pg k (LEffectStarted c l t) db =
     (fst (lease_exec pg (LEffectStarted c l t) db) \<and>
      (case tx_scope c of Some p \<Rightarrow> lease_node p l = k | None \<Rightarrow> False))"
| "starts_effect pg k _ db = False"

fun effect_starts :: "pgDriver \<Rightarrow> node_key \<Rightarrow> lease_op list \<Rightarrow> leaseDB \<Rightarrow> nat" where
  "effect_starts pg k [] db = 0"
| "effect_starts pg k (x # xs) db =
     (if starts_effect pg k x db then 1 else 0) + effect_starts pg k xs (snd (lease_exec pg x db))"

text \<open>A node that may not be retried and whose effect has started is never ready again.\<close>

definition used_up :: "nodeRuntimeRow \<Rightarrow> bool" where
  "used_up r \<longleftrightarrow> \<not> nr_RetrySafe (row_record r) \<and> r_started r \<noteq> None \<and> r_state r \<noteq> NodeReady"

lemma node_step_used_up: "node_step e r r' \<Longrightarrow> used_up r \<Longrightarrow> used_up r'"
  by (induction rule: node_step.induct) (auto simp: used_up_def)

lemma starts_effect_row:
  assumes I: "lease_inv db" and S: "starts_effect pg k x db"
  shows "\<exists>r\<in>set (db_runtime db). \<exists>r'\<in>set (db_runtime (snd (lease_exec pg x db))).
    node_key r = k \<and> node_key r' = k \<and> r_started r = None \<and> r_started r' \<noteq> None \<and> r_state r' = NodeRunning \<and>
    nr_RetrySafe (row_record r') = nr_RetrySafe (row_record r)"
proof -
  obtain c l t where x: "x = LEffectStarted c l t" using S by (cases x) auto
  obtain res db' where M: "MarkEffectStarted c l t db = (res, db')" by fastforce
  have ok: "\<not> isl res" and k: "\<And>p. tx_scope c = Some p \<Longrightarrow> lease_node p l = k"
    using S M by (auto simp: x outcome_def split: option.splits)
  from M show ?thesis unfolding MarkEffectStarted_def
  proof (cases rule: checked_tx_cases)
    case (ok p v)
    from effect_started_tx_effect [OF I ok(4)] obtain r r' q g new where
      e: "node_key r = lease_node p l" "node_step EStarted r r'" "where_held p l t r" "r_started r = None" "r_started r' = Some t"
      and c: "node_change r r' q g new db db'" unfolding tx_effect_def by blast
    have "r \<in> set (db_runtime db)" using c by (simp add: node_change_def)
    moreover have "r' \<in> set (db_runtime db')" using node_change_rows [OF c I] by simp
    moreover have "r_state r' = NodeRunning" using e(2) by (auto elim: node_step.cases)
    moreover have "node_key r' = node_key r" using node_step_key [OF e(2)] .
    moreover have "nr_RetrySafe (row_record r') = nr_RetrySafe (row_record r)" using node_step_frozen [OF e(2)] by simp
    moreover have "snd (lease_exec pg x db) = db'" using M by (simp add: x outcome_def)
    ultimately show ?thesis using e(1,4,5) k [OF ok(3)] by (metis option.distinct(1))
  qed (use ok in simp)
qed

lemma used_up_no_start:
  assumes "lease_inv db" "r \<in> set (db_runtime db)" "used_up r" "node_key r = k"
  shows "effect_starts pg k xs db = 0"
  using assms
proof (induction xs arbitrary: db r)
  case (Cons x xs)
  let ?db = "snd (lease_exec pg x db)"
  have "\<not> starts_effect pg k x db"
  proof
    assume "starts_effect pg k x db"
    from starts_effect_row [OF Cons.prems(1) this] obtain r0 where
      "r0 \<in> set (db_runtime db)" "node_key r0 = k" "r_started r0 = None" by blast
    with node_row_unique [OF Cons.prems(1)] Cons.prems(2,4) have "r_started r = None" by metis
    then show False using Cons.prems(3) by (simp add: used_up_def)
  qed
  moreover obtain r' where r': "r' \<in> set (db_runtime ?db)" "node_key r' = node_key r" "row_step (event_of x) r r'"
    using db_step_row [OF Cons.prems(1) lease_exec_step [OF Cons.prems(1)] Cons.prems(2)] by blast
  moreover have "used_up r'" using r'(3) Cons.prems(3) node_step_used_up by (auto simp: row_step_def)
  moreover have "lease_inv ?db" using lease_run_inv [of db pg "[x]"] Cons.prems(1) by simp
  ultimately show ?case using Cons.IH [of ?db r'] Cons.prems(4) by simp
qed simp

lemma effect_starts_le_one:
  assumes "lease_inv db" "\<And>r. r \<in> set (db_runtime (lease_run pg xs db)) \<Longrightarrow> node_key r = k \<Longrightarrow> \<not> nr_RetrySafe (row_record r)"
  shows "effect_starts pg k xs db \<le> 1"
  using assms
proof (induction xs arbitrary: db)
  case (Cons x xs)
  let ?db = "snd (lease_exec pg x db)"
  have I: "lease_inv ?db" using lease_run_inv [of db pg "[x]"] Cons.prems(1) by simp
  show ?case
  proof (cases "starts_effect pg k x db")
    case True
    from starts_effect_row [OF Cons.prems(1) True] obtain r' where
      r': "r' \<in> set (db_runtime ?db)" "node_key r' = k" "r_started r' \<noteq> None" "r_state r' = NodeRunning" by blast
    obtain r2 where "r2 \<in> set (db_runtime (lease_run pg xs ?db))" "node_key r2 = k"
      "nr_RetrySafe (row_record r2) = nr_RetrySafe (row_record r')"
      using lease_run_keeps [OF I r'(1)] r'(2) by blast
    then have "used_up r'" using Cons.prems(2) r' by (auto simp: used_up_def)
    then show ?thesis using used_up_no_start [OF I r'(1) _ r'(2)] True by simp
  next
    case False
    then show ?thesis using Cons.IH [OF I] Cons.prems(2) by simp
  qed
qed simp

text \<open>C2: at most one effect. Over any history of operations from empty tables, a node that is not retry
  safe has its external effect started at most once: however many attempts are claimed,
  released, expired, completed or requeued, at most one \<open>MarkEffectStarted\<close> on the node succeeds.\<close>

theorem effect_started_at_most_once:
  assumes "r \<in> set (db_runtime (lease_run pg xs empty_db))" "\<not> nr_RetrySafe (row_record r)"
  shows "effect_starts pg (node_key r) xs empty_db \<le> 1"
  using effect_starts_le_one [OF lease_inv_empty] node_row_unique [OF lease_run_inv [OF lease_inv_empty] assms(1)] assms(2)
  by metis

end
