(* ===== verification/Lease_Scenarios.thy ===== *)
theory Lease_Scenarios
  imports Lease_Safety
begin

text \<open>
  One history of the lease repository run on concrete values. Two workers of one project share a
  node: the first registers it, claims it and marks its effect started, the second
  claims it after the lease has expired. The theorems about all histories are applied to it.
\<close>

definition demo_principal :: Principal where
  "demo_principal =
     \<lparr>p_Type = PrincipalUser, p_SubjectID = ''u'', p_TenantID = ''t'', p_ProjectID = ''p'', p_Roles = [],
      p_Capabilities = [], p_AuthnMethod = ''oidc'', p_Issuer = [], p_SessionID = [], p_Purpose = []\<rparr>"

abbreviation demo_ctx :: pcontext where
  "demo_ctx \<equiv> Some demo_principal"

definition demo_pg :: pgDriver where
  "demo_pg = \<lparr>pg_time = (\<lambda>t. t), pg_numeric = Some\<rparr>"

definition demo_record :: "EffectClass \<Rightarrow> bool \<Rightarrow> NodeRuntimeRecord" where
  "demo_record ec safe =
     \<lparr>nr_ExecutionRef = ''x'', nr_PlanRevision = 1, nr_NodeRef = ''n'', nr_State = NodeReady,
      nr_EffectClass = ec, nr_RetrySafe = safe, nr_IdempotencyKey = ''k'', nr_AttemptNumber = 0,
      nr_LeaseFence = 0, nr_EffectStartedAt = None, nr_EffectCommittedAt = None, nr_UpdatedAt = 0\<rparr>"

definition demo_register :: "EffectClass \<Rightarrow> bool \<Rightarrow> lease_op" where
  "demo_register ec safe = LRegister demo_ctx (demo_record ec safe) 1"

definition demo_claim1 :: lease_op where
  "demo_claim1 = LClaim demo_ctx ''x'' 1 ''n'' ''w1'' 10 (Inr ''A'') (Inr ''B'') 5"

definition demo_binding :: AttemptBinding where
  "demo_binding =
     \<lparr>ab_TargetRef = ''tg'', ab_TargetRevision = 1, ab_TargetSnapshot = ''s'', ab_PolicyDecisionRef = ''d'',
      ab_BudgetReservationRef = ''b''\<rparr>"

definition demo_db0 :: leaseDB where
  "demo_db0 = lease_run demo_pg [demo_register EffectIdempotentMutation True] empty_db"

definition demo_first :: "(goerr + NodeLease) \<times> leaseDB" where
  "demo_first = Claim demo_pg demo_ctx ''x'' 1 ''n'' ''w1'' 10 (Inr ''A'') (Inr ''B'') 5 demo_db0"

definition demo_second :: "(goerr + NodeLease) \<times> leaseDB" where
  "demo_second = Claim demo_pg demo_ctx ''x'' 1 ''n'' ''w2'' 10 (Inr ''C'') (Inr ''D'') 20
     (lease_run demo_pg [LStart demo_ctx (projr (fst demo_first)) demo_binding 6, LEffectStarted demo_ctx (projr (fst demo_first)) 7] (snd demo_first))"

lemma demo_scope: "tx_scope demo_ctx = Some demo_principal"
  by code_simp

lemma demo_claims: "\<not> isl (fst demo_first)" "\<not> isl (fst demo_second)"
  by code_simp+

lemma demo_registered: "\<exists>r\<in>set (db_runtime demo_db0). r_state r = NodeReady"
  by code_simp

lemma demo_running:
  "\<exists>r\<in>set (db_runtime (lease_run demo_pg [demo_register EffectIdempotentMutation True, demo_claim1] empty_db)).
     r_state r = NodeRunning"
  by code_simp

lemma one_live_attempt_witness:
  "\<exists>r\<in>set (db_runtime (lease_run demo_pg [demo_register EffectIdempotentMutation True, demo_claim1] empty_db)).
     length (filter live (attempts_of (node_key r) (db_attempts
       (lease_run demo_pg [demo_register EffectIdempotentMutation True, demo_claim1] empty_db)))) = 1"
  using demo_running one_live_attempt [of _ demo_pg "[demo_register EffectIdempotentMutation True, demo_claim1]"] by auto

lemma stale_lease_fenced_witness:
  "nl_Fence (projr (fst demo_first)) < nl_Fence (projr (fst demo_second)) \<and>
   lease_refused demo_pg demo_ctx (projr (fst demo_first)) (lease_run demo_pg [demo_claim1] (snd demo_second))"
proof -
  have "demo_first = (Inr (projr (fst demo_first)), snd demo_first)" "demo_second = (Inr (projr (fst demo_second)), snd demo_second)"
    using demo_claims by (metis prod.collapse sum.collapse(2))+
  then show ?thesis
    by (intro stale_lease_fenced [OF _ _ _ demo_scope demo_scope refl refl,
          of "''A''" demo_pg "''x''" 1 "''n''" "''w1''" 10 "Inr ''B''" 5 "[demo_register EffectIdempotentMutation True]" _ "snd demo_first"
             "''w2''" 10 "Inr ''C''" "Inr ''D''" 20 "[LStart demo_ctx (projr (fst demo_first)) demo_binding 6, LEffectStarted demo_ctx (projr (fst demo_first)) 7]" _ "snd demo_second"])
       (simp_all add: demo_first_def demo_second_def demo_db0_def)
qed

lemma node_lifecycle_witness:
  "\<exists>r\<in>set (db_runtime demo_db0). \<exists>r'\<in>set (db_runtime (lease_run demo_pg [demo_register EffectIdempotentMutation True, demo_claim1] empty_db)).
     node_key r' = node_key r \<and> CanTransitionNode (r_state r) (r_state r')"
proof -
  obtain r where r: "r \<in> set (db_runtime demo_db0)"
    using demo_registered by blast
  have "event_of demo_claim1 \<noteq> Some ERelease" by (simp add: demo_claim1_def)
  then show ?thesis
    using node_lifecycle [OF r [unfolded demo_db0_def], of demo_claim1] r unfolding append.simps by blast
qed

text \<open>A node that may not be retried: the worker starts its effect, and tries to start it again.\<close>

definition demo_twice :: "lease_op list" where
  "demo_twice =
     (let c = demo_register EffectNonIdempotentMutation False;
          l = projr (fst (Claim demo_pg demo_ctx ''x'' 1 ''n'' ''w1'' 10 (Inr ''A'') (Inr ''B'') 5
                (lease_run demo_pg [c] empty_db)))
      in [c, demo_claim1, LStart demo_ctx l demo_binding 6, LEffectStarted demo_ctx l 7, LEffectStarted demo_ctx l 8])"

lemma demo_twice_row:
  "\<exists>r\<in>set (db_runtime (lease_run demo_pg demo_twice empty_db)). \<not> nr_RetrySafe (row_record r) \<and> r_started r = Some 7"
  by code_simp

lemma effect_started_at_most_once_witness:
  "\<exists>r\<in>set (db_runtime (lease_run demo_pg demo_twice empty_db)).
     r_started r = Some 7 \<and> effect_starts demo_pg (node_key r) demo_twice empty_db \<le> 1"
  using demo_twice_row effect_started_at_most_once [of _ demo_pg demo_twice] by blast

end
