(* ===== verification/Lease_Isolation.thy ===== *)
theory Lease_Isolation
  imports Lease_Scenarios
begin

text \<open>
  Tenants and projects do not interfere. The rows a transaction can see are those of its scope;
  every transaction of the repository computes its answer from them alone and leaves
  the rest of the tables alone. For histories: what the calls of one scope answer, and
  what its tables hold, is the same with and without the calls of all other scopes.
\<close>

section \<open>Local transactions\<close>

type_synonym scope = "string \<times> string"

definition scope_of :: "Principal \<Rightarrow> scope" where
  "scope_of p = (p_TenantID p, p_ProjectID p)"

definition view :: "scope \<Rightarrow> leaseDB \<Rightarrow> leaseDB" where
  "view s db = \<lparr>db_runtime = filter (\<lambda>r. (row_tenant r, row_project r) = s) (db_runtime db),
     db_attempts = filter (\<lambda>a. (aw_tenant a, aw_project a) = s) (db_attempts db)\<rparr>"

definition local_db :: "scope \<Rightarrow> (leaseDB \<Rightarrow> goerr + leaseDB) \<Rightarrow> bool" where
  "local_db s F \<longleftrightarrow>
     (\<forall>db. F (view s db) = map_sum id (view s) (F db) \<and>
       (\<forall>db' s'. F db = Inr db' \<longrightarrow> s' \<noteq> s \<longrightarrow> view s' db' = view s' db))"

definition local_tx :: "scope \<Rightarrow> (leaseDB \<Rightarrow> goerr + 'a \<times> leaseDB) \<Rightarrow> bool" where
  "local_tx s F \<longleftrightarrow>
     (\<forall>db. F (view s db) = map_sum id (map_prod id (view s)) (F db) \<and>
       (\<forall>v db' s'. F db = Inr (v, db') \<longrightarrow> s' \<noteq> s \<longrightarrow> view s' db' = view s' db))"

lemma local_dbI:
  assumes "\<And>db. F (view s db) = map_sum id (view s) (F db)"
    and "\<And>db db' s'. F db = Inr db' \<Longrightarrow> s' \<noteq> s \<Longrightarrow> view s' db' = view s' db"
  shows "local_db s F"
  using assms unfolding local_db_def by blast

lemma local_dbD:
  assumes "local_db s F"
  shows "F (view s db) = map_sum id (view s) (F db)"
    and "F db = Inr db' \<Longrightarrow> s' \<noteq> s \<Longrightarrow> view s' db' = view s' db"
  using assms unfolding local_db_def by blast+

lemma local_txD:
  assumes "local_tx s F"
  shows "F (view s db) = map_sum id (map_prod id (view s)) (F db)"
    and "F db = Inr (v, db') \<Longrightarrow> s' \<noteq> s \<Longrightarrow> view s' db' = view s' db"
  using assms unfolding local_tx_def by blast+

lemma local_tx_bind_db:
  assumes "local_db s F" "local_tx s G"
  shows "local_tx s (\<lambda>db. sum_bind (F db) G)"
  unfolding local_tx_def
proof (intro allI conjI impI)
  fix db
  have F: "F (view s db) = map_sum id (view s) (F db)" using assms(1) by (simp add: local_db_def)
  show "sum_bind (F (view s db)) G = map_sum id (map_prod id (view s)) (sum_bind (F db) G)"
    unfolding F using assms(2) by (cases "F db") (auto simp: local_tx_def)
  fix v db' s' assume s: "sum_bind (F db) G = Inr (v, db')" and ne: "s' \<noteq> s"
  then obtain db1 where "F db = Inr db1" "G db1 = Inr (v, db')" by (cases "F db") auto
  then show "view s' db' = view s' db" using local_dbD(2) [OF assms(1) _ ne] local_txD(2) [OF assms(2) _ ne] by metis
qed

lemma local_tx_bind_query:
  assumes "\<And>db. q (view s db) = q db" and "\<And>v. local_tx s (F v)"
  shows "local_tx s (\<lambda>db. sum_bind (q db) (\<lambda>v. F v db))"
  unfolding local_tx_def
proof (intro allI conjI impI)
  fix db
  show "sum_bind (q (view s db)) (\<lambda>v. F v (view s db)) =
      map_sum id (map_prod id (view s)) (sum_bind (q db) (\<lambda>v. F v db))"
    unfolding assms(1) using assms(2) by (cases "q db") (auto simp: local_tx_def)
  fix v db' s' assume "sum_bind (q db) (\<lambda>v. F v db) = Inr (v, db')" and ne: "s' \<noteq> s"
  then show "view s' db' = view s' db" using local_txD(2) [OF assms(2) _ ne] by (cases "q db") auto
qed

lemma local_tx_return: "local_tx s (\<lambda>db. Inr (v, db))" "local_tx s (\<lambda>db. Inl e)"
  by (simp_all add: local_tx_def)

lemma local_tx_if: "local_tx s F \<Longrightarrow> local_tx s G \<Longrightarrow> local_tx s (\<lambda>db. if b then F db else G db)"
  by (cases b) simp_all

lemma local_db_if: "local_db s F \<Longrightarrow> local_db s G \<Longrightarrow> local_db s (\<lambda>db. if b then F db else G db)"
  by (cases b) simp_all

lemma local_db_const: "local_db s Inr" "local_db s (\<lambda>db. Inl e)"
  by (simp_all add: local_db_def)

section \<open>Statements\<close>

lemma find_filter: "(\<And>x. p x \<Longrightarrow> v x) \<Longrightarrow> List.find p (filter v xs) = List.find p xs"
  by (induction xs) auto

lemma list_ex_filter: "(\<And>x. p x \<Longrightarrow> v x) \<Longrightarrow> list_ex p (filter v xs) = list_ex p xs"
  by (induction xs) auto

lemma sql_set_filter:
  assumes "\<And>x. p x \<Longrightarrow> v (f x) = v x"
  shows "filter v (sql_set p f t) = sql_set p f (filter v t)"
  using assms by (induction t) (auto simp: sql_set_def)

lemma sql_set_none: "(\<And>x. x \<in> set t \<Longrightarrow> \<not> p x) \<Longrightarrow> sql_set p f t = t"
  by (auto simp: sql_set_def intro: map_idI)

lemma update_one_filter:
  assumes "\<And>x. p x \<Longrightarrow> v x" "\<And>x. p x \<Longrightarrow> v (f x)"
  shows "update_one check p f msg none (filter v t) = map_sum id (filter v) (update_one check p f msg none t)"
proof -
  have "filter (\<lambda>x. v x \<and> p x) t = filter p t" using assms(1) by (metis (mono_tags, lifting))
  moreover have "list_ex (\<lambda>r. p r \<and> \<not> check (f r)) (filter v t) = list_ex (\<lambda>r. p r \<and> \<not> check (f r)) t"
    using assms(1) by (intro list_ex_filter) blast
  moreover have "filter v (sql_set p f t) = sql_set p f (filter v t)"
    using assms by (intro sql_set_filter) blast
  ultimately show ?thesis by (simp add: update_one_def sql_update_def conj_commute)
qed

lemma update_one_others:
  assumes "update_one check p f msg none t = Inr t'" "\<And>x. p x \<Longrightarrow> \<not> w x \<and> \<not> w (f x)"
  shows "filter w t' = filter w t"
proof -
  have "t' = sql_set p f t" using assms(1) by (auto simp: update_one_def sql_update_def split: if_splits)
  then have "filter w t' = sql_set p f (filter w t)" using sql_set_filter [of p w f] assms(2) by simp
  then show ?thesis using sql_set_none [of "filter w t" p f] assms(2) by auto
qed

lemma local_update_runtime:
  assumes "\<And>r. p r \<Longrightarrow> (row_tenant r, row_project r) = s"
    and "\<And>r. row_tenant (f r) = row_tenant r \<and> row_project (f r) = row_project r"
  shows "local_db s (update_runtime p f msg none)"
proof (rule local_dbI)
  fix db
  show "update_runtime p f msg none (view s db) = map_sum id (view s) (update_runtime p f msg none db)"
    using update_one_filter [of p "\<lambda>r. (row_tenant r, row_project r) = s" f node_row_ok msg none "db_runtime db"] assms
    by (cases "update_one node_row_ok p f msg none (db_runtime db)") (simp_all add: update_runtime_def view_def)
  fix db' s' assume u: "update_runtime p f msg none db = Inr db'" and ne: "s' \<noteq> s"
  from u obtain t where t: "update_one node_row_ok p f msg none (db_runtime db) = Inr t" "db' = db\<lparr>db_runtime := t\<rparr>"
    by (auto simp: update_runtime_def split: sum.splits)
  have "filter (\<lambda>r. (row_tenant r, row_project r) = s') t = filter (\<lambda>r. (row_tenant r, row_project r) = s') (db_runtime db)"
    using assms ne by (intro update_one_others [OF t(1)]) metis
  then show "view s' db' = view s' db" by (simp add: t(2) view_def)
qed

lemma local_update_attempts:
  assumes "\<And>a. p a \<Longrightarrow> (aw_tenant a, aw_project a) = s"
    and "\<And>a. aw_tenant (f a) = aw_tenant a \<and> aw_project (f a) = aw_project a"
  shows "local_db s (update_attempts p f msg)"
proof (rule local_dbI)
  fix db
  let ?u = "update_one attempt_row_ok p f msg ErrAttemptStateConflict"
  show "update_attempts p f msg (view s db) = map_sum id (view s) (update_attempts p f msg db)"
    using update_one_filter [of p "\<lambda>a. (aw_tenant a, aw_project a) = s" f attempt_row_ok msg ErrAttemptStateConflict "db_attempts db"] assms
    by (cases "?u (db_attempts db)") (simp_all add: update_attempts_def view_def)
  fix db' s' assume u: "update_attempts p f msg db = Inr db'" and ne: "s' \<noteq> s"
  from u obtain t where t: "?u (db_attempts db) = Inr t" "db' = db\<lparr>db_attempts := t\<rparr>"
    by (auto simp: update_attempts_def split: sum.splits)
  have "filter (\<lambda>a. (aw_tenant a, aw_project a) = s') t = filter (\<lambda>a. (aw_tenant a, aw_project a) = s') (db_attempts db)"
    using assms ne by (intro update_one_others [OF t(1)]) metis
  then show "view s' db' = view s' db" by (simp add: t(2) view_def)
qed

lemma local_insertPendingAttemptTx:
  "local_db (scope_of p) (insertPendingAttemptTx p aid ex rv nd num fence owner key now)"
proof (rule local_dbI)
  fix db
  let ?a = "pending_attempt p aid ex rv nd num fence owner key now"
  have a: "(aw_tenant ?a, aw_project ?a) = scope_of p" by (simp add: pending_attempt_def scope_of_def)
  have "list_ex (attempt_conflict ?a) (db_attempts (view (scope_of p) db)) = list_ex (attempt_conflict ?a) (db_attempts db)"
    unfolding view_def attemptRow.simps leaseDB.simps
    using a by (intro list_ex_filter) (auto simp: attempt_conflict_def attempt_key_def attempt_node_def)
  then show "insertPendingAttemptTx p aid ex rv nd num fence owner key now (view (scope_of p) db) =
      map_sum id (view (scope_of p)) (insertPendingAttemptTx p aid ex rv nd num fence owner key now db)"
    using a by (simp add: insertPendingAttemptTx_def sql_insert_def) (simp add: view_def)
  fix db' s' assume "insertPendingAttemptTx p aid ex rv nd num fence owner key now db = Inr db'" "s' \<noteq> scope_of p"
  then show "view s' db' = view s' db"
    using a by (auto simp: insertPendingAttemptTx_def sql_insert_def view_def split: if_splits)
qed

lemma visible_scope: "visible p r \<longleftrightarrow> (row_tenant r, row_project r) = scope_of p"
  "attempt_visible p a \<longleftrightarrow> (aw_tenant a, aw_project a) = scope_of p"
  by (simp_all add: visible_def attempt_visible_def scope_of_def)

lemma where_scope:
  "where_node p ex rv nd r \<Longrightarrow> (row_tenant r, row_project r) = scope_of p"
  "where_held p l now r \<Longrightarrow> (row_tenant r, row_project r) = scope_of p"
  "where_attempt p ex rv nd a \<Longrightarrow> (aw_tenant a, aw_project a) = scope_of p"
  "where_lease_attempt p l a \<Longrightarrow> (aw_tenant a, aw_project a) = scope_of p"
  by (simp_all add: where_node_def where_held_def where_attempt_def where_lease_attempt_def visible_scope)

lemma load_view:
  "loadNodeRuntime p ex rv nd (view (scope_of p) db) = loadNodeRuntime p ex rv nd db"
  "loadCurrentAttemptIDTx p ex rv nd num fence (view (scope_of p) db) = loadCurrentAttemptIDTx p ex rv nd num fence db"
  "loadAttemptTx p aid (view (scope_of p) db) = loadAttemptTx p aid db"
proof -
  show "loadNodeRuntime p ex rv nd (view (scope_of p) db) = loadNodeRuntime p ex rv nd db"
    using find_filter [of "where_node p ex rv nd", OF where_scope(1)]
    by (simp add: loadNodeRuntime_def sql_query_row_def view_def)
  show "loadCurrentAttemptIDTx p ex rv nd num fence (view (scope_of p) db) = loadCurrentAttemptIDTx p ex rv nd num fence db"
    using find_filter [of "\<lambda>a. where_attempt p ex rv nd a \<and> aw_attempt_number a = num \<and> aw_lease_fence a = fence"
        "\<lambda>a. (aw_tenant a, aw_project a) = scope_of p" "db_attempts db"] where_scope(3) [of p ex rv nd]
    by (simp add: loadCurrentAttemptIDTx_def sql_query_row_def view_def)
  show "loadAttemptTx p aid (view (scope_of p) db) = loadAttemptTx p aid db"
    using find_filter [of "\<lambda>a. attempt_visible p a \<and> aw_attempt_id a = aid"
        "\<lambda>a. (aw_tenant a, aw_project a) = scope_of p"] visible_scope(2)
    by (simp add: loadAttemptTx_def sql_query_row_def view_def)
qed

lemmas local_tx_load =
  local_tx_bind_query [where q = "loadNodeRuntime p ex rv nd" and s = "scope_of p" for p ex rv nd, OF load_view(1)]
  local_tx_bind_query [where q = "loadCurrentAttemptIDTx p ex rv nd num fence" and s = "scope_of p" for p ex rv nd num fence,
    OF load_view(2)]
  local_tx_bind_query [where q = "loadAttemptTx p aid" and s = "scope_of p" for p aid, OF load_view(3)]

lemma local_tx_const: "(\<And>v. local_tx s (F v)) \<Longrightarrow> local_tx s (\<lambda>db. sum_bind c (\<lambda>v. F v db))"
  by (rule local_tx_bind_query [where q = "\<lambda>db. c"]) simp_all

lemma local_attempt_updates:
  "local_db (scope_of p) (abandonAttemptTx p ex rv nd num fence now)"
  "local_db (scope_of p) (updateAttemptEffectStartedTx p l now)"
  "local_db (scope_of p) (updateAttemptEffectCommittedTx p l now)"
  "local_db (scope_of p) (completeAttemptTx pg p l c now)"
proof -
  show "local_db (scope_of p) (abandonAttemptTx p ex rv nd num fence now)"
    unfolding abandonAttemptTx_def by (rule local_update_attempts) (use where_scope in auto)
  show "local_db (scope_of p) (updateAttemptEffectStartedTx p l now)"
    unfolding updateAttemptEffectStartedTx_def by (rule local_update_attempts) (use where_scope in auto)
  show "local_db (scope_of p) (updateAttemptEffectCommittedTx p l now)"
    unfolding updateAttemptEffectCommittedTx_def by (rule local_update_attempts) (use where_scope in auto)
  show "local_db (scope_of p) (completeAttemptTx pg p l c now)"
  proof (cases "pg_numeric pg (us_Cost (cp_Usage c))")
    case None
    then show ?thesis unfolding completeAttemptTx_def by (simp add: local_db_const)
  next
    case (Some cost)
    then show ?thesis unfolding completeAttemptTx_def
      by simp (rule local_update_attempts, use where_scope in auto)
  qed
qed

section \<open>Transactions\<close>

lemma local_register_tx: "local_tx (scope_of p) (register_tx r now p)"
proof -
  let ?r = "new_row p r now"
  have a: "(row_tenant ?r, row_project ?r) = scope_of p" by (simp add: new_row_def scope_of_def)
  have "list_ex (\<lambda>b. node_key ?r = node_key b) (db_runtime (view (scope_of p) db)) =
      list_ex (\<lambda>b. node_key ?r = node_key b) (db_runtime db)" for db
    unfolding view_def leaseDB.simps using a by (intro list_ex_filter) (auto simp: node_key_def)
  then show ?thesis
    unfolding local_tx_def using a
    by (auto simp: register_tx_def sql_insert_or_nothing_def view_def split: if_splits)
qed

lemma local_claim_tx: "local_tx (scope_of p) (claim_tx pg ex rv nd owner dur r1 r2 now p)"
  unfolding claim_tx_def Let_def
  apply (rule local_tx_load(1))
  apply (rule local_tx_const)
  apply (rule local_tx_bind_db)
   apply (rule local_db_if [OF local_attempt_updates(1) local_db_const(1)])
  apply (rule local_tx_const)
  apply (rule local_tx_const)
  apply (rule local_tx_bind_db)
   apply (rule local_update_runtime [OF where_scope(1)])
    apply assumption
   apply (simp add: claim_row_def)
  apply (rule local_tx_bind_db [OF local_insertPendingAttemptTx local_tx_return(1)])
  done

lemma local_held_tx:
  "local_tx (scope_of p) (renew_tx pg l dur now p)"
  "local_tx (scope_of p) (effect_started_tx l now p)"
  "local_tx (scope_of p) (effect_committed_tx l now p)"
  "local_tx (scope_of p) (release_tx l now p)"
  unfolding renew_tx_def effect_started_tx_def effect_committed_tx_def release_tx_def Let_def
  by (intro local_tx_bind_db local_update_runtime local_attempt_updates local_tx_return;
      use where_scope(2) in \<open>auto simp: clear_lease_def set_state_def\<close>)+

lemma local_complete_tx: "local_tx (scope_of p) (complete_tx pg l st c now p)"
  unfolding complete_tx_def
  by (intro local_tx_load local_tx_if local_tx_bind_db local_update_runtime
      local_attempt_updates local_tx_return;
      use where_scope(2) in \<open>auto simp: clear_lease_def set_state_def\<close>)

lemma local_requeue_tx: "local_tx (scope_of p) (requeue_tx ex rv nd now p)"
  unfolding requeue_tx_def
  by (intro local_tx_load local_tx_if local_tx_bind_db local_update_runtime
      local_attempt_updates local_tx_return;
      use where_scope(1) in \<open>auto simp: clear_lease_def set_state_def\<close>)

lemma local_start_tx: "local_tx (scope_of p) (start_tx l b now p)"
  unfolding start_tx_def
  apply (rule local_tx_load(1))
  apply (rule local_tx_if [OF local_tx_return(2)])
  apply (rule local_tx_bind_db)
   apply (rule local_update_attempts)
    apply (use where_scope(4) in blast)
   apply simp
  apply (rule local_tx_load(3) [OF local_tx_return(1)])
  done

lemma local_get_tx: "local_tx (scope_of p) (get_tx ex rv nd p)"
  unfolding get_tx_def Let_def
  apply (rule local_tx_load(1))
  subgoal for row
    by (cases "row_leaseToken row") (simp_all add: local_tx_return local_tx_load(2) [OF local_tx_return(1)])
  done

lemma local_read_tx:
  "local_tx (scope_of p) (\<lambda>db. sum_bind (loadAttemptTx p aid db) (\<lambda>rec. Inr (rec, db)))"
  "local_tx (scope_of p) (\<lambda>db. Inr (map scanAttempt (sort_key aw_attempt_number
     (filter (where_attempt p ex rv nd) (db_attempts db))), db))"
proof -
  show "local_tx (scope_of p) (\<lambda>db. sum_bind (loadAttemptTx p aid db) (\<lambda>rec. Inr (rec, db)))"
    by (rule local_tx_load(3) [OF local_tx_return(1)])
  have "filter (where_attempt p ex rv nd) (db_attempts (view (scope_of p) db)) =
      filter (where_attempt p ex rv nd) (db_attempts db)" for db
    using where_scope(3) by (auto simp: view_def intro!: filter_cong)
  then show "local_tx (scope_of p) (\<lambda>db. Inr (map scanAttempt (sort_key aw_attempt_number
     (filter (where_attempt p ex rv nd) (db_attempts db))), db))"
    by (simp add: local_tx_def)
qed

section \<open>Histories of all calls\<close>

datatype lease_value =
    VUnit | VLease NodeLease | VAttempt AttemptRecord | VNode "NodeRuntimeRecord \<times> NodeLease option"
  | VAttempts "AttemptRecord list"

datatype lease_call =
    Do lease_op
  | DoGet pcontext ExecutionID int NodeID
  | DoGetAttempt pcontext AttemptID
  | DoList pcontext ExecutionID int NodeID

fun lease_call_exec :: "pgDriver \<Rightarrow> lease_call \<Rightarrow> leaseDB \<Rightarrow> (goerr + lease_value) \<times> leaseDB" where
  "lease_call_exec pg (Do (LRegister c r t)) db = apfst (map_sum id (\<lambda>_. VUnit)) (Register c r t db)"
| "lease_call_exec pg (Do (LClaim c ex rv nd owner dur r1 r2 t)) db =
     apfst (map_sum id VLease) (Claim pg c ex rv nd owner dur r1 r2 t db)"
| "lease_call_exec pg (Do (LRenew c l dur t)) db = apfst (map_sum id VLease) (Renew pg c l dur t db)"
| "lease_call_exec pg (Do (LEffectStarted c l t)) db = apfst (map_sum id (\<lambda>_. VUnit)) (MarkEffectStarted c l t db)"
| "lease_call_exec pg (Do (LEffectCommitted c l t)) db = apfst (map_sum id (\<lambda>_. VUnit)) (MarkEffectCommitted c l t db)"
| "lease_call_exec pg (Do (LRelease c l t)) db = apfst (map_sum id (\<lambda>_. VUnit)) (ReleaseBeforeEffect c l t db)"
| "lease_call_exec pg (Do (LComplete c l st cp t)) db = apfst (map_sum id (\<lambda>_. VUnit)) (Complete pg c l st cp t db)"
| "lease_call_exec pg (Do (LStart c l b t)) db = apfst (map_sum id VAttempt) (StartAttempt c l b t db)"
| "lease_call_exec pg (Do (LRequeue c ex rv nd t)) db = apfst (map_sum id (\<lambda>_. VUnit)) (RequeueFailed c ex rv nd t db)"
| "lease_call_exec pg (DoGet c ex rv nd) db = apfst (map_sum id VNode) (lease_Get c ex rv nd db)"
| "lease_call_exec pg (DoGetAttempt c aid) db = apfst (map_sum id VAttempt) (GetAttempt c aid db)"
| "lease_call_exec pg (DoList c ex rv nd) db = apfst (map_sum id VAttempts) (ListAttempts c ex rv nd db)"

fun call_context :: "lease_call \<Rightarrow> pcontext" where
  "call_context (Do (LRegister c r t)) = c"
| "call_context (Do (LClaim c ex rv nd owner dur r1 r2 t)) = c"
| "call_context (Do (LRenew c l dur t)) = c"
| "call_context (Do (LEffectStarted c l t)) = c"
| "call_context (Do (LEffectCommitted c l t)) = c"
| "call_context (Do (LRelease c l t)) = c"
| "call_context (Do (LComplete c l st cp t)) = c"
| "call_context (Do (LStart c l b t)) = c"
| "call_context (Do (LRequeue c ex rv nd t)) = c"
| "call_context (DoGet c ex rv nd) = c"
| "call_context (DoGetAttempt c aid) = c"
| "call_context (DoList c ex rv nd) = c"

definition in_scope :: "scope \<Rightarrow> lease_call \<Rightarrow> bool" where
  "in_scope s x \<longleftrightarrow> (case tx_scope (call_context x) of None \<Rightarrow> False | Some p \<Rightarrow> scope_of p = s)"

text \<open>The answers the calls of one scope get in a history, and the tables it leaves.\<close>

fun scope_history :: "pgDriver \<Rightarrow> scope \<Rightarrow> lease_call list \<Rightarrow> leaseDB \<Rightarrow> (goerr + lease_value) list \<times> leaseDB" where
  "scope_history pg s [] db = ([], db)"
| "scope_history pg s (x # xs) db =
     (let (res, db1) = lease_call_exec pg x db;
          (out, db2) = scope_history pg s xs db1
      in (if in_scope s x then res # out else out, db2))"

definition isolated :: "pcontext \<Rightarrow> (leaseDB \<Rightarrow> 'a \<times> leaseDB) \<Rightarrow> bool" where
  "isolated ctx g \<longleftrightarrow>
     (case tx_scope ctx of
        None \<Rightarrow> \<forall>db. snd (g db) = db
      | Some p \<Rightarrow> \<forall>db. g (view (scope_of p) db) = apsnd (view (scope_of p)) (g db) \<and>
          (\<forall>s'. s' \<noteq> scope_of p \<longrightarrow> view s' (snd (g db)) = view s' db))"

lemma isolated_apfst: "isolated ctx g \<Longrightarrow> isolated ctx (\<lambda>db. apfst h (g db))"
  by (auto simp: isolated_def apsnd_apfst_commute simp del: split_paired_All split: option.splits)

lemma isolated_eq: "(\<And>db. g db = h db) \<Longrightarrow> isolated ctx h \<Longrightarrow> isolated ctx g"
  by (drule ext) simp

lemma isolated_checked_tx:
  assumes "\<And>p. local_tx (scope_of p) (f p)"
  shows "isolated ctx (checked_tx chk ctx f)"
proof (cases "tx_scope ctx")
  case (Some p)
  have "checked_tx chk ctx f (view (scope_of p) db) = apsnd (view (scope_of p)) (checked_tx chk ctx f db) \<and>
      (\<forall>s'. s' \<noteq> scope_of p \<longrightarrow> view s' (snd (checked_tx chk ctx f db)) = view s' db)" for db
  proof (cases "f p db")
    case (Inr y)
    obtain v db' where y: "y = (v, db')" by (cases y)
    show ?thesis using local_txD(1) [OF assms, of p db] local_txD(2) [OF assms, of p db v db'] Inr y Some
      by (auto simp: checked_tx_def withScopedTx_scope split: option.splits)
  qed (use local_txD(1) [OF assms, of p db] Some in \<open>simp add: checked_tx_def withScopedTx_scope split: option.splits\<close>)
  then show ?thesis using Some by (simp add: isolated_def)
qed (auto simp: isolated_def checked_tx_def withScopedTx_scope split: option.splits sum.splits)

lemmas isolated_op =
  isolated_apfst [OF isolated_checked_tx [OF local_register_tx]]
  isolated_apfst [OF isolated_checked_tx [OF local_claim_tx]]
  isolated_apfst [OF isolated_checked_tx [OF local_held_tx(1)]]
  isolated_apfst [OF isolated_checked_tx [OF local_held_tx(2)]]
  isolated_apfst [OF isolated_checked_tx [OF local_held_tx(3)]]
  isolated_apfst [OF isolated_checked_tx [OF local_held_tx(4)]]
  isolated_apfst [OF isolated_checked_tx [OF local_complete_tx]]
  isolated_apfst [OF isolated_checked_tx [OF local_start_tx]]
  isolated_apfst [OF isolated_checked_tx [OF local_requeue_tx]]
  isolated_apfst [OF isolated_checked_tx [OF local_get_tx, where chk = None, unfolded checked_tx_def option.case]]
  isolated_apfst [OF isolated_checked_tx [OF local_read_tx(1)]]
  isolated_apfst [OF isolated_checked_tx [OF local_read_tx(2)]]

lemmas lease_call_defs = lease_call_exec.simps call_context.simps Register_def Claim_def Renew_def MarkEffectStarted_def
  MarkEffectCommitted_def ReleaseBeforeEffect_def Complete_def StartAttempt_def RequeueFailed_def lease_Get_def
  GetAttempt_def ListAttempts_def

lemma isolated_call: "isolated (call_context x) (lease_call_exec pg x)"
proof (cases x)
  case (Do y)
  show ?thesis unfolding Do
    by (cases y; simp only: call_context.simps;
        (rule isolated_eq, unfold lease_call_defs, rule refl, rule isolated_op))
qed (simp only: call_context.simps, rule isolated_eq, unfold lease_call_defs, rule refl, rule isolated_op)+

lemma call_in_scope:
  "in_scope s x \<Longrightarrow> lease_call_exec pg x (view s db) = apsnd (view s) (lease_call_exec pg x db)"
  "\<not> in_scope s x \<Longrightarrow> view s (snd (lease_call_exec pg x db)) = view s db"
  using isolated_call [of x pg] by (auto simp: isolated_def in_scope_def simp del: split_paired_All split: option.splits)

text \<open>C4: tenants do not interfere. In any history of calls, reads included, of any number of
  tenants and projects, the calls of one scope get the answers, and its rows end as, they
  would if nobody else had called and the tables held no other rows.\<close>

theorem tenant_noninterference:
  "scope_history pg s (filter (in_scope s) xs) (view s db) = apsnd (view s) (scope_history pg s xs db)"
proof (induction xs arbitrary: db)
  case (Cons x xs)
  obtain res db1 where e: "lease_call_exec pg x db = (res, db1)" by fastforce
  obtain out db2 where h: "scope_history pg s xs db1 = (out, db2)" by fastforce
  show ?case
  proof (cases "in_scope s x")
    case True
    then show ?thesis using Cons.IH [of db1] call_in_scope(1) [OF True, of pg db] by (simp add: e h)
  next
    case False
    then show ?thesis using Cons.IH [of db1] call_in_scope(2) [OF False, of pg db] by (simp add: e h)
  qed
qed simp

end
