(* ===== verification/Exec_Worker.thy ===== *)
theory Exec_Worker
  imports Exec_Runner
begin

text \<open>
  The persistent worker (execution/persistent_worker.go): it claims one prepared node, reserves
  its budget, starts the attempt, marks the effect, invokes the target, settles
  and completes. Its collaborators are interfaces, so they are records of functions on
  an arbitrary state \<^typ>\<open>'s\<close>; the theorems about the order of calls hold for all of them.
\<close>

section \<open>Types\<close>

record 's AttemptExecutionCoordinator =
  co_Claim :: "ExecutionID \<Rightarrow> int \<Rightarrow> NodeID \<Rightarrow> string \<Rightarrow> duration \<Rightarrow> 's \<Rightarrow> (goerr + NodeLease) \<times> 's"
  co_StartAttempt :: "NodeLease \<Rightarrow> AttemptBinding \<Rightarrow> 's \<Rightarrow> (goerr + AttemptRecord) \<times> 's"
  co_MarkEffectStarted :: "NodeLease \<Rightarrow> 's \<Rightarrow> goerr option \<times> 's"
  co_MarkEffectCommitted :: "NodeLease \<Rightarrow> 's \<Rightarrow> goerr option \<times> 's"
  co_ReleaseBeforeEffect :: "NodeLease \<Rightarrow> 's \<Rightarrow> goerr option \<times> 's"
  co_Complete :: "NodeLease \<Rightarrow> NodeState \<Rightarrow> AttemptCompletion \<Rightarrow> 's \<Rightarrow> goerr option \<times> 's"

record 's BudgetCoordinator =
  bc_Reserve :: "string \<Rightarrow> ExecutionID \<Rightarrow> NodeID \<Rightarrow> BudgetEstimate \<Rightarrow> 's \<Rightarrow> (goerr + BudgetReservation) \<times> 's"
  bc_Settle :: "string \<Rightarrow> BudgetEstimate \<Rightarrow> 's \<Rightarrow> goerr option \<times> 's"
  bc_Release :: "string \<Rightarrow> 's \<Rightarrow> goerr option \<times> 's"

type_synonym 's worker_invoker =
  "Execution \<Rightarrow> ExecutionNode \<Rightarrow> ExecutionTarget \<Rightarrow> 's \<Rightarrow> (InvocationResult \<times> goerr option) \<times> 's"

record 's PersistentWorker =
  pw_workerID :: string
  pw_leaseTTL :: duration
  pw_coordinator :: "'s AttemptExecutionCoordinator option"
  pw_budget :: "'s BudgetCoordinator option"
  pw_invoker :: "'s worker_invoker option"

record WorkerExecutionResult =
  wr_Lease :: NodeLease
  wr_ReservationRef :: string
  wr_Invocation :: InvocationResult

definition NodeLease_zero :: NodeLease where
  "NodeLease_zero =
     \<lparr>nl_ExecutionRef = [], nl_PlanRevision = 0, nl_NodeRef = [], nl_AttemptRef = [], nl_OwnerWorkerID = [],
      nl_Token = [], nl_Fence = 0, nl_AttemptNumber = 0, nl_ClaimedAt = 0, nl_HeartbeatAt = 0, nl_ExpiresAt = 0\<rparr>"

definition WorkerExecutionResult_zero :: WorkerExecutionResult where
  "WorkerExecutionResult_zero =
     \<lparr>wr_Lease = NodeLease_zero, wr_ReservationRef = [], wr_Invocation = InvocationResult_zero\<rparr>"

definition ErrPersistentWorkerConfig :: goerr where
  "ErrPersistentWorkerConfig = ErrNew ''persistent worker configuration is invalid''"

definition ErrPreparedNodeInvalid :: goerr where
  "ErrPreparedNodeInvalid = ErrNew ''prepared node is invalid''"

definition ErrEffectResolutionRequired :: goerr where
  "ErrEffectResolutionRequired = ErrNew ''mutation effect requires recovery resolution''"

fun EffectDisposition_str :: "EffectDisposition \<Rightarrow> string" where
  "EffectDisposition_str EffectDispositionNotApplicable = []"
| "EffectDisposition_str EffectDispositionNotApplied = ''NOT_APPLIED''"
| "EffectDisposition_str EffectDispositionCommitted = ''COMMITTED''"
| "EffectDisposition_str EffectDispositionUnknown = ''UNKNOWN''"
| "EffectDisposition_str (EffectDispositionOther s) = s"

section \<open>Operations\<close>

definition NewPersistentWorker ::
  "string \<Rightarrow> duration \<Rightarrow> 's AttemptExecutionCoordinator option \<Rightarrow> 's BudgetCoordinator option
     \<Rightarrow> 's worker_invoker option \<Rightarrow> 's PersistentWorker" where
  "NewPersistentWorker workerID leaseTTL coordinator budget invoker =
     \<lparr>pw_workerID = workerID, pw_leaseTTL = leaseTTL, pw_coordinator = coordinator, pw_budget = budget,
      pw_invoker = invoker\<rparr>"

definition isMutationEffect :: "EffectClass \<Rightarrow> bool" where
  "isMutationEffect e \<longleftrightarrow> e = EffectIdempotentMutation \<or> e = EffectNonIdempotentMutation"

definition worker_validate :: "'s PersistentWorker option \<Rightarrow> Execution \<Rightarrow> PreparedNode \<Rightarrow> goerr option" where
  "worker_validate pw ex c =
     (let invalid = \<lambda>m. Some (Errorf (''%w: '' @ m) [ErrPreparedNodeInvalid]);
          policy = pn_Policy c; rev = pr_Revision (ex_PlanRef ex); target = pn_Target c
      in
      if (case pw of None \<Rightarrow> True
          | Some w \<Rightarrow> TrimSpace (pw_workerID w) = [] \<or> pw_leaseTTL w \<le> 0 \<or> pw_coordinator w = None \<or>
              pw_budget w = None \<or> pw_invoker w = None)
        then Some ErrPersistentWorkerConfig
      else if ex_ID ex = [] \<or> rev < 1 \<or> nd_ID (pn_Node c) = []
        then invalid ''execution, plan revision and node are required''
      else if pd_ID policy = [] \<or> pd_Decision policy \<noteq> PolicyAllow
        then invalid ''an ALLOW policy decision with id is required''
      else if pd_ExecutionRef policy \<noteq> [] \<and> pd_ExecutionRef policy \<noteq> ex_ID ex
        then invalid ''policy execution mismatch''
      else if pd_PlanRevision policy > 0 \<and> pd_PlanRevision policy \<noteq> rev
        then invalid ''policy plan revision mismatch''
      else if pd_NodeRef policy \<noteq> [] \<and> pd_NodeRef policy \<noteq> nd_ID (pn_Node c)
        then invalid ''policy node mismatch''
      else if tg_ID target = [] \<or> tg_Revision target < 1 \<or> TrimSpace (ts_Digest (tg_Snapshot target)) = []
        then invalid ''target id, revision and immutable snapshot digest are required''
      else None)"

definition succeeded_completion :: "Usage \<Rightarrow> AttemptCompletion" where
  "succeeded_completion u = \<lparr>cp_Status = AttemptSucceeded, cp_ErrorClass = ErrorClassOther [], cp_Usage = u\<rparr>"

definition failed_completion :: "ErrorClass \<Rightarrow> Usage \<Rightarrow> AttemptCompletion" where
  "failed_completion c u = \<lparr>cp_Status = AttemptFailed, cp_ErrorClass = c, cp_Usage = u\<rparr>"

definition finishReadOnly ::
  "'s AttemptExecutionCoordinator \<Rightarrow> NodeLease \<Rightarrow> WorkerExecutionResult \<Rightarrow> goerr option \<Rightarrow> 's
     \<Rightarrow> (WorkerExecutionResult \<times> goerr option) \<times> 's" where
  "finishReadOnly co lease result invokeErr s =
     (let usage = ir_Usage (wr_Invocation result) in
      case invokeErr of
        None \<Rightarrow>
          (case co_Complete co lease NodeSucceeded (succeeded_completion usage) s of
             (Some e, s1) \<Rightarrow> ((result, Some e), s1)
           | (None, s1) \<Rightarrow> ((result, None), s1))
      | Some ie \<Rightarrow>
          (case co_Complete co lease NodeFailed (failed_completion (classifyInvocationError invokeErr) usage) s of
             (Some e, s1) \<Rightarrow> ((result, errors_Join [Some ie, Some e]), s1)
           | (None, s1) \<Rightarrow> ((result, Some ie), s1)))"

definition finishMutation ::
  "'s AttemptExecutionCoordinator \<Rightarrow> NodeLease \<Rightarrow> PreparedNode \<Rightarrow> WorkerExecutionResult \<Rightarrow> goerr option \<Rightarrow> 's
     \<Rightarrow> (WorkerExecutionResult \<times> goerr option) \<times> 's" where
  "finishMutation co lease c result invokeErr s =
     (let usage = ir_Usage (wr_Invocation result); disp = ir_EffectDisposition (wr_Invocation result) in
      case disp of
        EffectDispositionCommitted \<Rightarrow>
          (case co_MarkEffectCommitted co lease s of
             (Some e, s1) \<Rightarrow> ((result, errors_Join [Some ErrEffectResolutionRequired, Some e]), s1)
           | (None, s1) \<Rightarrow>
               (case invokeErr of
                  Some ie \<Rightarrow> ((result, errors_Join [Some ErrEffectResolutionRequired, Some ie]), s1)
                | None \<Rightarrow>
                    (case co_Complete co lease NodeSucceeded (succeeded_completion usage) s1 of
                       (Some e, s2) \<Rightarrow> ((result, Some e), s2)
                     | (None, s2) \<Rightarrow> ((result, None), s2))))
      | EffectDispositionNotApplied \<Rightarrow>
          (case invokeErr of
             None \<Rightarrow> ((result, Some (Errorf ''%w: target reported NOT_APPLIED without an invocation error''
                         [ErrEffectResolutionRequired])), s)
           | Some ie \<Rightarrow>
               (case co_Complete co lease NodeFailed (failed_completion (classifyInvocationError invokeErr) usage) s of
                  (Some e, s1) \<Rightarrow> ((result, errors_Join [Some ie, Some e]), s1)
                | (None, s1) \<Rightarrow> ((result, Some ie), s1)))
      | EffectDispositionOther _ \<Rightarrow>
          ((result, Some (Errorf (''%w: unknown effect disposition '' @ quoted (EffectDisposition_str disp) @
              '' for node '' @ nd_ID (pn_Node c)) [ErrEffectResolutionRequired])), s)
      | _ \<Rightarrow>
          (case invokeErr of
             Some ie \<Rightarrow> ((result, errors_Join [Some ErrEffectResolutionRequired, Some ie]), s)
           | None \<Rightarrow> ((result, Some ErrEffectResolutionRequired), s)))"

definition attempt_binding :: "PreparedNode \<Rightarrow> BudgetReservation \<Rightarrow> AttemptBinding" where
  "attempt_binding c r =
     \<lparr>ab_TargetRef = tg_ID (pn_Target c), ab_TargetRevision = tg_Revision (pn_Target c),
      ab_TargetSnapshot = ts_Digest (tg_Snapshot (pn_Target c)), ab_PolicyDecisionRef = pd_ID (pn_Policy c),
      ab_BudgetReservationRef = br_ID r\<rparr>"

text \<open>From the invocation on, and from the claim on.\<close>

definition invoke_and_finish ::
  "'s AttemptExecutionCoordinator \<Rightarrow> 's BudgetCoordinator \<Rightarrow> 's worker_invoker \<Rightarrow> Execution \<Rightarrow> PreparedNode
     \<Rightarrow> NodeLease \<Rightarrow> WorkerExecutionResult \<Rightarrow> 's \<Rightarrow> (WorkerExecutionResult \<times> goerr option) \<times> 's" where
  "invoke_and_finish co bu iv ex c lease result s =
     (case iv ex (pn_Node c) (pn_Target c) s of
        ((invocation, invokeErr), s1) \<Rightarrow>
          let result1 = result\<lparr>wr_Invocation := invocation\<rparr> in
          case bc_Settle bu (wr_ReservationRef result)
                 (actualBudgetForInvocation (pn_Target c) (ir_Usage invocation)) s1 of
            (Some e, s2) \<Rightarrow> ((result1, Some (Errorf ''settle attempt budget: %w'' [e])), s2)
          | (None, s2) \<Rightarrow>
              if isMutationEffect (ef_Class (nd_Effect (pn_Node c)))
              then finishMutation co lease c result1 invokeErr s2
              else finishReadOnly co lease result1 invokeErr s2)"

definition run_claimed ::
  "'s AttemptExecutionCoordinator \<Rightarrow> 's BudgetCoordinator \<Rightarrow> 's worker_invoker \<Rightarrow> Execution \<Rightarrow> PreparedNode
     \<Rightarrow> NodeLease \<Rightarrow> 's \<Rightarrow> (WorkerExecutionResult \<times> goerr option) \<times> 's" where
  "run_claimed co bu iv ex c lease s =
     (let result = WorkerExecutionResult_zero\<lparr>wr_Lease := lease\<rparr> in
      case bc_Reserve bu (''attempt/'' @ nl_AttemptRef lease) (ex_ID ex) (nd_ID (pn_Node c)) (pn_Estimate c) s of
        (Inl e, s1) \<Rightarrow>
          (case co_ReleaseBeforeEffect co lease s1 of
             (cleanupErr, s2) \<Rightarrow> ((result, errors_Join [Some e, cleanupErr]), s2))
      | (Inr reservation, s1) \<Rightarrow>
          let result1 = result\<lparr>wr_ReservationRef := br_ID reservation\<rparr> in
          case co_StartAttempt co lease (attempt_binding c reservation) s1 of
            (Inl e, s2) \<Rightarrow>
              (case bc_Release bu (br_ID reservation) s2 of
                 (budgetErr, s3) \<Rightarrow>
                   (case co_ReleaseBeforeEffect co lease s3 of
                      (leaseErr, s4) \<Rightarrow> ((result1, errors_Join [Some e, budgetErr, leaseErr]), s4)))
          | (Inr _, s2) \<Rightarrow>
              if isMutationEffect (ef_Class (nd_Effect (pn_Node c)))
              then
                (case co_MarkEffectStarted co lease s2 of
                   (Some e, s3) \<Rightarrow>
                     (case bc_Settle bu (br_ID reservation)
                             \<lparr>be_Cost = Fin 0, be_NodeAttempts = 1, be_FrontierCalls = 0, be_ToolCalls = 0\<rparr> s3 of
                        (settleErr, s4) \<Rightarrow>
                          (case co_Complete co lease NodeFailed (failed_completion ErrorUnknown Usage_zero) s4 of
                             (completeErr, s5) \<Rightarrow> ((result1, errors_Join [Some e, settleErr, completeErr]), s5)))
                 | (None, s3) \<Rightarrow> invoke_and_finish co bu iv ex c lease result1 s3)
              else invoke_and_finish co bu iv ex c lease result1 s2)"

definition worker_Execute ::
  "'s PersistentWorker option \<Rightarrow> Execution \<Rightarrow> PreparedNode \<Rightarrow> 's \<Rightarrow> (WorkerExecutionResult \<times> goerr option) \<times> 's" where
  "worker_Execute pw ex c s =
     (case worker_validate pw ex c of
        Some e \<Rightarrow> ((WorkerExecutionResult_zero, Some e), s)
      | None \<Rightarrow>
          (case Option.bind pw (\<lambda>w. Option.bind (pw_coordinator w) (\<lambda>co. Option.bind (pw_budget w) (\<lambda>bu.
                  map_option (\<lambda>iv. (w, co, bu, iv)) (pw_invoker w)))) of
             Some (w, co, bu, iv) \<Rightarrow>
               (case co_Claim co (ex_ID ex) (pr_Revision (ex_PlanRef ex)) (nd_ID (pn_Node c))
                       (pw_workerID w) (pw_leaseTTL w) s of
                  (Inl e, s1) \<Rightarrow> ((WorkerExecutionResult_zero, Some e), s1)
                | (Inr lease, s1) \<Rightarrow> run_claimed co bu iv ex c lease s1)
           | None \<Rightarrow> ((WorkerExecutionResult_zero, Some ErrPersistentWorkerConfig), s)))"

text \<open>A worker that passes the validation has all its parts, so the last branch is never taken.\<close>

definition worker_parts ::
  "'s PersistentWorker option \<Rightarrow> 's PersistentWorker \<Rightarrow> 's AttemptExecutionCoordinator \<Rightarrow> 's BudgetCoordinator
     \<Rightarrow> 's worker_invoker \<Rightarrow> bool" where
  "worker_parts pw w co bu iv \<longleftrightarrow>
     pw = Some w \<and> pw_coordinator w = Some co \<and> pw_budget w = Some bu \<and> pw_invoker w = Some iv"

lemma worker_validate_parts: "worker_validate pw ex c = None \<Longrightarrow> \<exists>w co bu iv. worker_parts pw w co bu iv"
  by (cases pw) (auto simp: worker_validate_def worker_parts_def Let_def split: if_splits)

lemma worker_Execute_parts:
  "worker_parts pw w co bu iv \<Longrightarrow> worker_validate pw ex c = None \<Longrightarrow>
   worker_Execute pw ex c s =
     (case co_Claim co (ex_ID ex) (pr_Revision (ex_PlanRef ex)) (nd_ID (pn_Node c)) (pw_workerID w) (pw_leaseTTL w) s of
        (Inl e, s1) \<Rightarrow> ((WorkerExecutionResult_zero, Some e), s1)
      | (Inr lease, s1) \<Rightarrow> run_claimed co bu iv ex c lease s1)"
  by (simp add: worker_Execute_def worker_parts_def)

section \<open>The order of the calls\<close>

text \<open>The collaborators, with every call and its success written to a log.\<close>

datatype worker_event =
    WClaim bool | WReserve "string option" | WStart bool | WEffectStarted bool | WInvoke
  | WSettle string bool | WRelease string bool | WReleaseLease bool | WEffectCommitted bool
  | WComplete NodeState bool

type_synonym 's logged = "'s \<times> worker_event list"

definition logging :: "('r \<Rightarrow> worker_event) \<Rightarrow> ('s \<Rightarrow> 'r \<times> 's) \<Rightarrow> 's logged \<Rightarrow> 'r \<times> 's logged" where
  "logging ev f sl = (case f (fst sl) of (r, s) \<Rightarrow> (r, (s, snd sl @ [ev r])))"

definition log_coordinator :: "'s AttemptExecutionCoordinator \<Rightarrow> 's logged AttemptExecutionCoordinator" where
  "log_coordinator co =
     \<lparr>co_Claim = (\<lambda>ex rv nd owner ttl. logging (\<lambda>r. WClaim (\<not> isl r)) (co_Claim co ex rv nd owner ttl)),
      co_StartAttempt = (\<lambda>l b. logging (\<lambda>r. WStart (\<not> isl r)) (co_StartAttempt co l b)),
      co_MarkEffectStarted = (\<lambda>l. logging (\<lambda>r. WEffectStarted (r = None)) (co_MarkEffectStarted co l)),
      co_MarkEffectCommitted = (\<lambda>l. logging (\<lambda>r. WEffectCommitted (r = None)) (co_MarkEffectCommitted co l)),
      co_ReleaseBeforeEffect = (\<lambda>l. logging (\<lambda>r. WReleaseLease (r = None)) (co_ReleaseBeforeEffect co l)),
      co_Complete = (\<lambda>l st cp. logging (\<lambda>r. WComplete st (r = None)) (co_Complete co l st cp))\<rparr>"

definition log_budget :: "'s BudgetCoordinator \<Rightarrow> 's logged BudgetCoordinator" where
  "log_budget bu =
     \<lparr>bc_Reserve = (\<lambda>i ex nd est. logging (\<lambda>r. WReserve (case r of Inl _ \<Rightarrow> None | Inr v \<Rightarrow> Some (br_ID v)))
        (bc_Reserve bu i ex nd est)),
      bc_Settle = (\<lambda>i a. logging (\<lambda>r. WSettle i (r = None)) (bc_Settle bu i a)),
      bc_Release = (\<lambda>i. logging (\<lambda>r. WRelease i (r = None)) (bc_Release bu i))\<rparr>"

definition log_invoker :: "'s worker_invoker \<Rightarrow> 's logged worker_invoker" where
  "log_invoker iv ex n t = logging (\<lambda>_. WInvoke) (iv ex n t)"

definition log_worker :: "'s PersistentWorker \<Rightarrow> 's logged PersistentWorker" where
  "log_worker w =
     \<lparr>pw_workerID = pw_workerID w, pw_leaseTTL = pw_leaseTTL w,
      pw_coordinator = map_option log_coordinator (pw_coordinator w),
      pw_budget = map_option log_budget (pw_budget w), pw_invoker = map_option log_invoker (pw_invoker w)\<rparr>"

text \<open>What the log of one execution of a node obeys; the calls before the invocation are \<open>before\<close>.\<close>

definition worker_protocol :: "bool \<Rightarrow> worker_event list \<Rightarrow> bool" where
  "worker_protocol mutation tr \<longleftrightarrow>
     (let before = takeWhile (\<lambda>e. e \<noteq> WInvoke) tr in
      count_list tr WInvoke \<le> 1 \<and>
      (WInvoke \<in> set tr \<longrightarrow>
         (\<exists>i. before = WClaim True # WReserve (Some i) # WStart True #
            (if mutation then [WEffectStarted True] else []))) \<and>
      (\<forall>i. WReserve (Some i) \<in> set tr \<longrightarrow> (\<exists>b. WSettle i b \<in> set tr \<or> WRelease i b \<in> set tr)) \<and>
      (\<forall>b. WComplete NodeSucceeded b \<in> set tr \<longrightarrow>
         WInvoke \<in> set tr \<and> (mutation \<longrightarrow> WEffectCommitted True \<in> set tr)) \<and>
      (\<forall>b. WReleaseLease b \<in> set tr \<longrightarrow> WInvoke \<notin> set tr \<and> WEffectStarted True \<notin> set tr) \<and>
      (\<forall>b. WComplete NodeFailed b \<in> set tr \<longrightarrow> WEffectCommitted True \<notin> set tr))"

lemmas log_simps = log_coordinator_def log_budget_def log_invoker_def logging_def

lemma finishReadOnly_log:
  "finishReadOnly (log_coordinator co) lease r e (s, tr) = (x, (s', tr')) \<Longrightarrow>
   \<exists>b. tr' = tr @ [WComplete (if e = None then NodeSucceeded else NodeFailed) b]"
  by (auto simp: finishReadOnly_def log_simps Let_def split: option.splits prod.splits)

lemma finishMutation_log:
  "finishMutation (log_coordinator co) lease c r e (s, tr) = (x, (s', tr')) \<Longrightarrow>
   \<exists>us b. tr' = tr @ us \<and> us \<in> {[], [WEffectCommitted b], [WEffectCommitted True, WComplete NodeSucceeded b],
     [WComplete NodeFailed b]}"
  by (auto simp: finishMutation_def log_simps Let_def split: option.splits prod.splits EffectDisposition.splits)

lemma invoke_and_finish_log:
  assumes "invoke_and_finish (log_coordinator co) (log_budget bu) (log_invoker iv) ex c lease r (s, tr) = (x, (s', tr'))"
  shows "\<exists>us b b'. tr' = tr @ WInvoke # WSettle (wr_ReservationRef r) b # us \<and>
     us \<in> {[], [WComplete NodeFailed b']} \<union>
       (if isMutationEffect (ef_Class (nd_Effect (pn_Node c)))
        then {[WEffectCommitted b'], [WEffectCommitted True, WComplete NodeSucceeded b']}
        else {[WComplete NodeSucceeded b']})"
proof -
  obtain inv ie s1 where i: "iv ex (pn_Node c) (pn_Target c) s = ((inv, ie), s1)" by (metis prod.exhaust)
  obtain e s2 where e: "bc_Settle bu (wr_ReservationRef r) (actualBudgetForInvocation (pn_Target c) (ir_Usage inv)) s1 = (e, s2)"
    by fastforce
  let ?r = "r\<lparr>wr_Invocation := inv\<rparr>"
  let ?tr = "tr @ [WInvoke, WSettle (wr_ReservationRef r) True]"
  note defs = invoke_and_finish_def log_budget_def log_invoker_def logging_def
  show ?thesis
  proof (cases e)
    case None
    show ?thesis
    proof (cases "isMutationEffect (ef_Class (nd_Effect (pn_Node c)))")
      case True
      then have "finishMutation (log_coordinator co) lease c ?r ie (s2, ?tr) = (x, (s', tr'))"
        using assms i e None by (simp add: defs)
      from finishMutation_log [OF this] show ?thesis using True by auto
    next
      case False
      then have "finishReadOnly (log_coordinator co) lease ?r ie (s2, ?tr) = (x, (s', tr'))"
        using assms i e None by (simp add: defs)
      from finishReadOnly_log [OF this] show ?thesis using False by auto
    qed
  qed (use assms i e in \<open>auto simp: invoke_and_finish_def log_budget_def log_invoker_def logging_def\<close>)
qed

lemma run_claimed_log:
  assumes "run_claimed (log_coordinator co) (log_budget bu) (log_invoker iv) ex c lease (s, [WClaim True]) = (x, (s', tr))"
  shows "worker_protocol (isMutationEffect (ef_Class (nd_Effect (pn_Node c)))) tr"
proof -
  let ?m = "isMutationEffect (ef_Class (nd_Effect (pn_Node c)))"
  let ?i = "''attempt/'' @ nl_AttemptRef lease"
  obtain rv s1 where r: "bc_Reserve bu ?i (ex_ID ex) (nd_ID (pn_Node c)) (pn_Estimate c) s = (rv, s1)" by fastforce
  show ?thesis
  proof (cases rv)
    case (Inl e)
    then show ?thesis using assms r
      by (auto simp: run_claimed_def log_simps Let_def worker_protocol_def split: prod.splits)
  next
    case (Inr v)
    obtain st s2 where st: "co_StartAttempt co lease (attempt_binding c v) s1 = (st, s2)" by fastforce
    show ?thesis
    proof (cases st)
      case (Inl e)
      then show ?thesis using assms r Inr st
        by (auto simp: run_claimed_def log_simps Let_def worker_protocol_def split: prod.splits)
    next
      case (Inr at)
      let ?res = "WorkerExecutionResult_zero\<lparr>wr_Lease := lease, wr_ReservationRef := br_ID v\<rparr>"
      show ?thesis
      proof (cases "?m \<and> fst (co_MarkEffectStarted co lease s2) \<noteq> None")
        case True
        then show ?thesis using assms r \<open>rv = Inr v\<close> st Inr
          by (auto simp: run_claimed_def log_simps Let_def worker_protocol_def split: prod.splits)
      next
        case False
        then obtain s3 where "invoke_and_finish (log_coordinator co) (log_budget bu) (log_invoker iv) ex c lease ?res
            (s3, [WClaim True, WReserve (Some (br_ID v)), WStart True] @ (if ?m then [WEffectStarted True] else [])) = (x, (s', tr))"
          using assms r \<open>rv = Inr v\<close> st Inr
          by (auto simp: run_claimed_def log_coordinator_def log_budget_def logging_def Let_def split: prod.splits if_splits)
        from invoke_and_finish_log [OF this] show ?thesis
          by (auto simp: worker_protocol_def Let_def split: if_splits)
      qed
    qed
  qed
qed

text \<open>Logging changes nothing else.\<close>

lemma logging_erase: "map_prod id fst (logging ev f sl) = f (fst sl)"
  by (simp add: logging_def split: prod.splits)

lemma log_calls:
  "co_StartAttempt (log_coordinator co) l b = logging (\<lambda>r. WStart (\<not> isl r)) (co_StartAttempt co l b)"
  "co_MarkEffectStarted (log_coordinator co) l = logging (\<lambda>r. WEffectStarted (r = None)) (co_MarkEffectStarted co l)"
  "co_ReleaseBeforeEffect (log_coordinator co) l = logging (\<lambda>r. WReleaseLease (r = None)) (co_ReleaseBeforeEffect co l)"
  "co_Complete (log_coordinator co) l st cp = logging (\<lambda>r. WComplete st (r = None)) (co_Complete co l st cp)"
  "bc_Reserve (log_budget bu) i ex nd est = logging (\<lambda>r. WReserve (case r of Inl _ \<Rightarrow> None | Inr v \<Rightarrow> Some (br_ID v)))
     (bc_Reserve bu i ex nd est)"
  "bc_Settle (log_budget bu) i a = logging (\<lambda>r. WSettle i (r = None)) (bc_Settle bu i a)"
  "bc_Release (log_budget bu) i = logging (\<lambda>r. WRelease i (r = None)) (bc_Release bu i)"
  by (simp_all add: log_coordinator_def log_budget_def)

lemma finish_erase:
  "map_prod id fst (finishReadOnly (log_coordinator co) lease r e sl) = finishReadOnly co lease r e (fst sl)"
  "map_prod id fst (finishMutation (log_coordinator co) lease c r e sl) = finishMutation co lease c r e (fst sl)"
  by (auto simp: finishReadOnly_def finishMutation_def log_simps Let_def
      split: option.splits prod.splits EffectDisposition.splits)

lemma invoke_and_finish_erase:
  "map_prod id fst (invoke_and_finish (log_coordinator co) (log_budget bu) (log_invoker iv) ex c lease r sl) =
   invoke_and_finish co bu iv ex c lease r (fst sl)"
  by (auto simp: invoke_and_finish_def log_calls log_invoker_def logging_def finish_erase Let_def
      split: option.splits prod.splits)

lemma run_claimed_erase:
  "map_prod id fst (run_claimed (log_coordinator co) (log_budget bu) (log_invoker iv) ex c lease sl) =
   run_claimed co bu iv ex c lease (fst sl)"
  by (auto simp: run_claimed_def log_calls logging_def Let_def invoke_and_finish_erase
      split: option.splits prod.splits sum.splits)

lemma worker_validate_log: "worker_validate (Some (log_worker w)) ex c = worker_validate (Some w) ex c"
  by (simp add: worker_validate_def log_worker_def)

text \<open>C5: the order of the calls, for every coordinator, budget and invoker. Logging the calls
  does not change the outcome. One execution
  of a node invokes the target at most once, and only directly after it has claimed the node,
  reserved the budget, started the attempt and, for a mutation, marked the effect
  started, each with success. Every reservation is settled or released. A node is completed
  as succeeded only after an invocation and, for a mutation, after its effect
  was marked committed. The lease is given back only when nothing was invoked
  and no effect was marked started, and a committed effect is never completed as failed.\<close>

theorem worker_call_order:
  assumes "worker_Execute (Some (log_worker w)) ex c (s, []) = (r, (s', tr))"
  shows "worker_protocol (isMutationEffect (ef_Class (nd_Effect (pn_Node c)))) tr \<and> worker_Execute (Some w) ex c s = (r, s')"
proof (cases "worker_validate (Some (log_worker w)) ex c")
  case None
  obtain co bu iv where p: "worker_parts (Some (log_worker w)) (log_worker w) (log_coordinator co) (log_budget bu) (log_invoker iv)"
    "worker_parts (Some w) w co bu iv"
    using worker_validate_parts [OF None] by (auto simp: worker_parts_def log_worker_def)
  have V: "worker_validate (Some w) ex c = None" using None by (simp add: worker_validate_log)
  obtain cl s1 where cl: "co_Claim co (ex_ID ex) (pr_Revision (ex_PlanRef ex)) (nd_ID (pn_Node c)) (pw_workerID w) (pw_leaseTTL w) s = (cl, s1)"
    by fastforce
  have w: "pw_workerID (log_worker w) = pw_workerID w" "pw_leaseTTL (log_worker w) = pw_leaseTTL w"
    by (simp_all add: log_worker_def)
  have c: "co_Claim (log_coordinator co) (ex_ID ex) (pr_Revision (ex_PlanRef ex)) (nd_ID (pn_Node c)) (pw_workerID w) (pw_leaseTTL w) (s, []) =
      (cl, (s1, [WClaim (\<not> isl cl)]))"
    using cl by (simp add: log_coordinator_def logging_def)
  show ?thesis
  proof (cases cl)
    case (Inl e)
    then show ?thesis using assms c cl
      by (auto simp: worker_Execute_parts [OF p(1) None] worker_Execute_parts [OF p(2) V] w worker_protocol_def)
  next
    case (Inr lease)
    then have R: "run_claimed (log_coordinator co) (log_budget bu) (log_invoker iv) ex c lease (s1, [WClaim True]) = (r, (s', tr))"
      using assms c by (simp add: worker_Execute_parts [OF p(1) None] w)
    show ?thesis using run_claimed_log [OF R] run_claimed_erase [of co bu iv ex c lease "(s1, [WClaim True])"] R cl Inr
      by (simp add: worker_Execute_parts [OF p(2) V])
  qed
qed (use assms worker_validate_log [of w ex c] in \<open>auto simp: worker_Execute_def worker_protocol_def\<close>)

section \<open>Relies of the worker\<close>

text \<open>A relation every call of a coordinator keeps is kept by the end of an execution.\<close>

locale coordinator_rely =
  fixes co :: "'s AttemptExecutionCoordinator" and R :: "'s \<Rightarrow> 's \<Rightarrow> bool"
  assumes R_refl: "R s s" and R_trans: "R s t \<Longrightarrow> R t u \<Longrightarrow> R s u"
    and R_start: "co_StartAttempt co l b s = (x, s') \<Longrightarrow> R s s'"
    and R_started: "co_MarkEffectStarted co l s = (e, s') \<Longrightarrow> R s s'"
    and R_committed: "co_MarkEffectCommitted co l s = (e, s') \<Longrightarrow> R s s'"
    and R_release: "co_ReleaseBeforeEffect co l s = (e, s') \<Longrightarrow> R s s'"
    and R_complete: "co_Complete co l st cp s = (e, s') \<Longrightarrow> R s s'"
begin

lemma R_finishReadOnly: "finishReadOnly co l r e s = (x, s') \<Longrightarrow> R s s'"
  by (auto simp: finishReadOnly_def Let_def split: option.splits prod.splits dest: R_complete)

lemma R_finishMutation: "finishMutation co l c r e s = (x, s') \<Longrightarrow> R s s'"
  by (auto simp: finishMutation_def Let_def split: option.splits prod.splits EffectDisposition.splits
      dest!: R_complete R_committed intro: R_refl R_trans)

text \<open>Without an error the last call was a completion with success.\<close>

lemma finishReadOnly_ok:
  "finishReadOnly co l r e s = ((x, None), s') \<Longrightarrow>
   \<exists>t cp. R s t \<and> co_Complete co l NodeSucceeded cp t = (None, s')"
  by (auto simp: finishReadOnly_def Let_def split: option.splits prod.splits intro: R_refl)

lemma finishMutation_ok:
  "finishMutation co l c r e s = ((x, None), s') \<Longrightarrow>
   \<exists>t cp. R s t \<and> co_Complete co l NodeSucceeded cp t = (None, s')"
  by (auto simp: finishMutation_def Let_def split: option.splits prod.splits EffectDisposition.splits
      dest: R_committed)

end

text \<open>The budget keeps it too, and marking an effect started with success pays for one invocation.\<close>

locale worker_rely = coordinator_rely co R for co :: "'s AttemptExecutionCoordinator" and R :: "'s \<Rightarrow> 's \<Rightarrow> bool" +
  fixes bu :: "'s BudgetCoordinator" and iv :: "'s worker_invoker" and P :: "'s \<Rightarrow> 's \<Rightarrow> bool" and own :: "NodeLease \<Rightarrow> bool"
  assumes R_reserve: "bc_Reserve bu i exid nd est s = (v, s') \<Longrightarrow> R s s'"
    and R_settle: "bc_Settle bu i a s = (e, s') \<Longrightarrow> R s s'"
    and R_budget_release: "bc_Release bu i s = (e, s') \<Longrightarrow> R s s'"
    and pays: "own l \<Longrightarrow> co_MarkEffectStarted co l s = (None, s') \<Longrightarrow> P s s'"
    and paid: "P s t \<Longrightarrow> iv exn n tg t = (y, u) \<Longrightarrow> R s u"
begin

lemma R_invoke_and_finish:
  assumes "P s t" "invoke_and_finish co bu iv ex c l r t = (x, u)"
  shows "R s u \<and> (snd x = None \<longrightarrow> (\<exists>v cp. R s v \<and> co_Complete co l NodeSucceeded cp v = (None, u)))"
proof -
  obtain y e t1 where i: "iv ex (pn_Node c) (pn_Target c) t = ((y, e), t1)" by (metis prod.exhaust)
  have 1: "R s t1" using paid [OF assms(1) i] .
  obtain e2 t2 where st: "bc_Settle bu (wr_ReservationRef r) (actualBudgetForInvocation (pn_Target c) (ir_Usage y)) t1 = (e2, t2)"
    by fastforce
  have 2: "R s t2" using R_trans [OF 1 R_settle [OF st]] .
  let ?r = "r\<lparr>wr_Invocation := y\<rparr>"
  show ?thesis
  proof (cases e2)
    case None
    then have f: "(if isMutationEffect (ef_Class (nd_Effect (pn_Node c))) then finishMutation co l c ?r e t2
        else finishReadOnly co l ?r e t2) = (x, u)"
      using assms(2) i st by (simp add: invoke_and_finish_def Let_def)
    then have "R t2 u" using R_finishMutation R_finishReadOnly by (auto split: if_splits)
    moreover have "\<exists>v cp. R t2 v \<and> co_Complete co l NodeSucceeded cp v = (None, u)" if "snd x = None"
      using f that finishMutation_ok [of l c ?r e t2 "fst x" u] finishReadOnly_ok [of l ?r e t2 "fst x" u]
      by (cases x) (auto split: if_splits)
    ultimately show ?thesis using R_trans [OF 2] by blast
  next
    case (Some ee)
    then show ?thesis using assms(2) i st 2 by (auto simp: invoke_and_finish_def Let_def)
  qed
qed

lemma R_run_claimed:
  assumes "isMutationEffect (ef_Class (nd_Effect (pn_Node c))) \<or> (\<forall>s. P s s)" "own l"
    and "run_claimed co bu iv ex c l s = (x, u)"
  shows "R s u \<and> (snd x = None \<longrightarrow> (\<exists>v cp. R s v \<and> co_Complete co l NodeSucceeded cp v = (None, u)))"
proof -
  let ?m = "isMutationEffect (ef_Class (nd_Effect (pn_Node c)))"
  obtain rv s1 where r: "bc_Reserve bu (''attempt/'' @ nl_AttemptRef l) (ex_ID ex) (nd_ID (pn_Node c)) (pn_Estimate c) s = (rv, s1)"
    by fastforce
  note 1 = R_reserve [OF r]
  show ?thesis
  proof (cases rv)
    case (Inl e)
    then show ?thesis using assms(3) r 1
      by (auto simp: run_claimed_def Let_def split: prod.splits dest!: R_release intro: R_trans)
  next
    case (Inr v)
    obtain st s2 where st: "co_StartAttempt co l (attempt_binding c v) s1 = (st, s2)" by fastforce
    have 2: "R s s2" using R_trans [OF 1 R_start [OF st]] .
    show ?thesis
    proof (cases st)
      case (Inl e)
      then show ?thesis using assms(3) r st \<open>rv = Inr v\<close> 2
        by (auto simp: run_claimed_def Let_def split: prod.splits dest!: R_release R_budget_release intro: R_trans)
    next
      case (Inr at)
      let ?res = "WorkerExecutionResult_zero\<lparr>wr_Lease := l, wr_ReservationRef := br_ID v\<rparr>"
      obtain e s3 where e: "co_MarkEffectStarted co l s2 = (e, s3)" by fastforce
      show ?thesis
      proof (cases "?m \<and> e \<noteq> None")
        case True
        then have "R s3 u \<and> snd x \<noteq> None" using assms(3) r st \<open>rv = Inr v\<close> Inr e
          by (auto simp: run_claimed_def Let_def split: prod.splits dest!: R_settle R_complete intro: R_trans)
        then show ?thesis using R_trans [OF 2] R_trans [OF R_started [OF e]] by blast
      next
        case False
        let ?s = "if ?m then s3 else s2"
        have "invoke_and_finish co bu iv ex c l ?res ?s = (x, u)"
          using assms(3) r st \<open>rv = Inr v\<close> Inr e False by (auto simp: run_claimed_def Let_def split: if_splits)
        moreover have "P s2 ?s" using pays [OF assms(2)] e False assms(1) by auto
        ultimately have "R s2 u \<and> (snd x = None \<longrightarrow> (\<exists>v cp. R s2 v \<and> co_Complete co l NodeSucceeded cp v = (None, u)))"
          by (rule R_invoke_and_finish [rotated])
        then show ?thesis using R_trans [OF 2] by blast
      qed
    qed
  qed
qed

end

end
