(* ===== verification/Lease_Liveness.thy ===== *)
theory Lease_Liveness
  imports Lease_Scenarios
begin

text \<open>
  Progress of the lease repository: a node that is ready, or whose worker died before committing
  its effect and which may be retried, can be claimed, and reading it back gives the
  lease that was claimed.
\<close>

definition claimable :: "nodeRuntimeRow \<Rightarrow> gotime \<Rightarrow> bool" where
  "claimable r now \<longleftrightarrow>
     r_state r = NodeReady \<or>
     r_state r = NodeRunning \<and> nr_RetrySafe (row_record r) \<and> r_committed r = None \<and> \<not> lease_unexpired r now"

lemma claim_guard_claimable:
  assumes "claimable r now" "node_row_ok r"
  shows "claim_guard r now = Inr (r_state r = NodeRunning)"
  using assms by (auto simp: claimable_def claim_guard_def NodeRuntimeRecord_Terminal_def node_row_ok_def
      lease_state_contract_def Let_def)

lemma loadNodeRuntime_row:
  assumes "nk.unique (db_runtime db)" "r \<in> set (db_runtime db)" "where_node p ex rv nd r"
  shows "loadNodeRuntime p ex rv nd db = Inr r"
proof (cases "List.find (where_node p ex rv nd) (db_runtime db)")
  case None
  then show ?thesis using assms(2,3) by (auto simp: find_None_iff)
next
  case (Some s)
  then have s: "s \<in> set (db_runtime db)" "where_node p ex rv nd s" by (auto simp: find_Some_iff)
  have "s = r" using nk.unique_same [OF assms(1) s(1) assms(2)] s(2) assms(3) by (simp add: where_node_key)
  then show ?thesis using Some by (simp add: loadNodeRuntime_def sql_query_row_def)
qed

lemma update_runtime_node:
  assumes "nk.unique (db_runtime db)" "r \<in> set (db_runtime db)" "where_node p ex rv nd r" "node_row_ok (f r)"
  shows "update_runtime (where_node p ex rv nd) f msg none db =
     Inr (db\<lparr>db_runtime := sql_set (where_node p ex rv nd) f (db_runtime db)\<rparr>)"
proof -
  have one: "length (filter (where_node p ex rv nd) (db_runtime db)) = Suc 0"
    using nk.affected_one [of _ "where_node p ex rv nd" "node_key r", OF assms(1) _ assms(2,3)] assms(3)
    by (simp add: where_node_key)
  have "x = r" if "x \<in> set (db_runtime db)" "where_node p ex rv nd x" for x
    using nk.unique_same [OF assms(1) that(1) assms(2)] that(2) assms(3) by (simp add: where_node_key)
  then have "\<not> list_ex (\<lambda>x. where_node p ex rv nd x \<and> \<not> node_row_ok (f x)) (db_runtime db)"
    using assms(4) by (auto simp: list_ex_iff)
  with one show ?thesis by (simp add: update_runtime_def update_one_def sql_update_def)
qed

lemma abandon_live:
  assumes I: "lease_inv db" and r: "r \<in> set (db_runtime db)" "where_node p ex rv nd r" "r_state r = NodeRunning"
  shows "abandonAttemptTx p ex rv nd (r_number r) (r_fence r) now db =
     Inr (db\<lparr>db_attempts := sql_set (\<lambda>a. where_attempt p ex rv nd a \<and> aw_attempt_number a = r_number r \<and>
       aw_lease_fence a = r_fence r \<and> live a) (abandon now) (db_attempts db)\<rparr>)"
proof -
  let ?q = "\<lambda>a. where_attempt p ex rv nd a \<and> aw_attempt_number a = r_number r \<and> aw_lease_fence a = r_fence r \<and> live a"
  let ?as = "attempts_of (node_key r) (db_attempts db)"
  have N: "node_inv r ?as" using lease_invD(5) [OF I r(1)] .
  then have "length (filter live ?as) = 1" using node_inv_live_count [OF N] r(3) by simp
  moreover have "filter ?q (db_attempts db) = filter live ?as"
  proof -
    have "?q a \<longleftrightarrow> live a" if "a \<in> set ?as" for a
      using that N r(2) by (auto simp: node_inv_def attempt_agrees_def set_attempts_of where_attempt_node where_node_key)
    then have "filter ?q ?as = filter live ?as" by (rule filter_cong [OF refl])
    moreover have "filter ?q ?as = filter ?q (db_attempts db)"
      using r(2) by (auto simp: attempts_of_def where_attempt_node where_node_key intro: filter_cong)
    ultimately show ?thesis by simp
  qed
  moreover have "\<not> list_ex (\<lambda>a. ?q a \<and> \<not> attempt_row_ok (abandon now a)) (db_attempts db)"
  proof -
    have "attempt_row_ok (abandon now a)" if "a \<in> set (db_attempts db)" for a
      using lease_invD(4) [OF I that] by (auto simp: attempt_row_ok_def abandon_def attempt_lifecycle_def target_complete_def)
    then show ?thesis by (auto simp: list_ex_iff)
  qed
  ultimately show ?thesis
    by (simp add: abandonAttemptTx_def update_attempts_def update_one_def sql_update_def abandon_def [abs_def])
qed

lemma claim_row_ok:
  assumes "node_row_ok r" "r_number r + 1 < 2 ^ 31" "r_fence r + 1 < 2 ^ 63" "now < pg_time pg e"
  shows "node_row_ok (claim_row pg (r_number r + 1) owner token (r_fence r + 1) now e r)"
  using assms by (auto simp: node_row_ok_def claim_row_def lease_state_contract_def Let_def)

lemma pending_attempt_ok:
  "1 \<le> rv \<Longrightarrow> 1 \<le> num \<Longrightarrow> num < 2 ^ 31 \<Longrightarrow> 1 \<le> fence \<Longrightarrow>
   attempt_row_ok (pending_attempt p aid ex rv nd num fence owner key now)"
  by (simp add: attempt_row_ok_def pending_attempt_def attempt_lifecycle_def)

lemma pending_attempt_simps [simp]:
  "attempt_key (pending_attempt p aid ex rv nd num fence owner key now) = (p_TenantID p, p_ProjectID p, aid)"
  "attempt_node (pending_attempt p aid ex rv nd num fence owner key now) = (p_TenantID p, p_ProjectID p, ex, rv, nd)"
  "aw_attempt_number (pending_attempt p aid ex rv nd num fence owner key now) = num"
  "aw_lease_fence (pending_attempt p aid ex rv nd num fence owner key now) = fence"
  "aw_attempt_id (pending_attempt p aid ex rv nd num fence owner key now) = aid"
  by (simp_all add: pending_attempt_def attempt_key_def attempt_node_def)

lemma abandon_id: "aw_attempt_id (abandon now a) = aw_attempt_id a"
  by (simp add: abandon_def)

definition claimed_lease ::
  "ExecutionID \<Rightarrow> int \<Rightarrow> NodeID \<Rightarrow> AttemptID \<Rightarrow> string \<Rightarrow> string \<Rightarrow> int \<Rightarrow> int \<Rightarrow> gotime \<Rightarrow> gotime \<Rightarrow> NodeLease" where
  "claimed_lease ex rv nd aid owner tok fence num now e =
     \<lparr>nl_ExecutionRef = ex, nl_PlanRevision = rv, nl_NodeRef = nd, nl_AttemptRef = aid, nl_OwnerWorkerID = owner,
      nl_Token = tok, nl_Fence = fence, nl_AttemptNumber = num, nl_ClaimedAt = now, nl_HeartbeatAt = now,
      nl_ExpiresAt = e\<rparr>"

lemma leaseDB_eta: "db\<lparr>db_attempts := a, db_runtime := u\<rparr> = \<lparr>db_runtime = u, db_attempts = a\<rparr>" for db :: leaseDB
  by (cases db) simp

lemma claim_tx_succeeds:
  assumes I: "lease_inv db" and r: "r \<in> set (db_runtime db)" "node_key r = (p_TenantID p, p_ProjectID p, ex, rv, nd)"
    and c: "claimable r now" and b: "r_number r + 1 < 2 ^ 31" "r_fence r + 1 < 2 ^ 63" "now < pg_time pg (time_Add now dur)"
    and fresh: "\<forall>a\<in>set (db_attempts db). aw_attempt_id a \<noteq> ''att_'' @ hex_EncodeToString cs"
  shows "\<exists>aid tok t. claim_tx pg ex rv nd owner dur (Inr bs) (Inr cs) now p db =
      Inr (claimed_lease ex rv nd aid owner tok (r_fence r + 1) (r_number r + 1) now (time_Add now dur),
        \<lparr>db_runtime = sql_set (where_node p ex rv nd)
           (\<lambda>_. claim_row pg (r_number r + 1) owner tok (r_fence r + 1) now (time_Add now dur) r) (db_runtime db),
         db_attempts = t @ [pending_attempt p aid ex rv nd (r_number r + 1) (r_fence r + 1) owner
          (nr_IdempotencyKey (row_record r)) now]\<rparr>) \<and>
    (\<forall>a\<in>set t. attempt_node a = node_key r \<longrightarrow> aw_attempt_number a < r_number r + 1)"
proof -
  let ?aid = "''att_'' @ hex_EncodeToString cs"
  let ?tok = "hex_EncodeToString bs"
  let ?f = "claim_row pg (r_number r + 1) owner ?tok (r_fence r + 1) now (time_Add now dur)"
  let ?new = "pending_attempt p ?aid ex rv nd (r_number r + 1) (r_fence r + 1) owner (nr_IdempotencyKey (row_record r)) now"
  have w: "where_node p ex rv nd r" using r(2) by (simp add: where_node_key)
  have ok: "node_row_ok r" using lease_invD(3) [OF I r(1)] .
  have rng: "0 \<le> r_number r" "0 \<le> r_fence r" "1 \<le> nr_PlanRevision (row_record r)" using ok by (simp_all add: node_row_ok_def Let_def)
  then have wrap: "wrap64 (r_number r + 1) = r_number r + 1" "wrap64 (r_fence r + 1) = r_fence r + 1"
    using b by (simp_all add: wrap64_id i64_ok_def)
  define q where "q = (\<lambda>a. r_state r = NodeRunning \<and> where_attempt p ex rv nd a \<and> aw_attempt_number a = r_number r \<and>
       aw_lease_fence a = r_fence r \<and> live a)"
  define t where "t = sql_set q (abandon now) (db_attempts db)"
  have A: "(if r_state r = NodeRunning then abandonAttemptTx p ex rv nd (r_number r) (r_fence r) now db else Inr db) =
      Inr (db\<lparr>db_attempts := t\<rparr>)"
    using abandon_live [OF I r(1) w] by (simp add: t_def q_def)
  have U: "update_runtime (where_node p ex rv nd) ?f ''claim execution node: %w'' ErrNodeLeaseLost (db\<lparr>db_attempts := t\<rparr>) =
      Inr (db\<lparr>db_attempts := t, db_runtime := sql_set (where_node p ex rv nd) ?f (db_runtime db)\<rparr>)"
    using update_runtime_node [of "db\<lparr>db_attempts := t\<rparr>" r p ex rv nd ?f] lease_invD(1) [OF I] r(1) w
      claim_row_ok [OF ok b(1,2)] b(3) by simp
  have old: "aw_attempt_id a \<noteq> ?aid \<and> (attempt_node a = node_key r \<longrightarrow>
      aw_attempt_number a < r_number r + 1 \<and> aw_lease_fence a < r_fence r + 1)" if mem: "a \<in> set t" for a
  proof -
    obtain x where x: "x \<in> set (db_attempts db)" "a = (if q x then abandon now x else x)"
      using mem unfolding t_def set_sql_set by blast
    have "attempt_node x = node_key r \<longrightarrow> aw_attempt_number x \<le> r_number r \<and> aw_lease_fence x \<le> r_fence r"
      using lease_invD(5) [OF I r(1)] x(1) by (simp add: node_inv_def attempt_agrees_def set_attempts_of)
    then show ?thesis using fresh x by (simp add: abandon_id)
  qed
  have "\<not> attempt_conflict ?new a" if "a \<in> set t" for a
    using old [OF that] r(2) by (auto simp: attempt_conflict_def attempt_key_def [of a])
  then have "\<not> list_ex (attempt_conflict ?new) t" by (simp add: list_ex_iff)
  moreover have "attempt_row_ok ?new" using rng b(1) r(2) by (intro pending_attempt_ok) (simp_all add: node_key_def)
  ultimately have P: "insertPendingAttemptTx p ?aid ex rv nd (r_number r + 1) (r_fence r + 1) owner
      (nr_IdempotencyKey (row_record r)) now (db\<lparr>db_attempts := t, db_runtime := u\<rparr>) =
      Inr (db\<lparr>db_attempts := t @ [?new], db_runtime := u\<rparr>)" for u
    by (simp add: insertPendingAttemptTx_def sql_insert_def)
  have S: "sql_set (where_node p ex rv nd) ?f (db_runtime db) = sql_set (where_node p ex rv nd) (\<lambda>_. ?f r) (db_runtime db)"
    using nk.unique_same [OF lease_invD(1) [OF I] _ r(1)] r(2) by (auto simp: sql_set_def where_node_key)
  have "claim_tx pg ex rv nd owner dur (Inr bs) (Inr cs) now p db =
      Inr (claimed_lease ex rv nd ?aid owner ?tok (r_fence r + 1) (r_number r + 1) now (time_Add now dur),
       \<lparr>db_runtime = sql_set (where_node p ex rv nd) (\<lambda>_. ?f r) (db_runtime db), db_attempts = t @ [?new]\<rparr>)"
    using U P by (simp add: claim_tx_def loadNodeRuntime_row [OF lease_invD(1) [OF I] r(1) w]
        claim_guard_claimable [OF c ok] A newLeaseToken_def newAttemptID_def wrap S claimed_lease_def Let_def leaseDB_eta)
  then show ?thesis using old by blast
qed

lemma get_tx_row:
  assumes U: "nk.unique (db_runtime db)" and r: "r \<in> set (db_runtime db)" "where_node p ex rv nd r" "row_leaseToken r = Some token"
    and a: "db_attempts db = t @ [a]" "where_attempt p ex rv nd a" "aw_attempt_number a = r_number r" "aw_lease_fence a = r_fence r"
    and o: "\<forall>x\<in>set t. attempt_node x = node_key r \<longrightarrow> aw_attempt_number x < r_number r"
  shows "get_tx ex rv nd p db = Inr ((row_record r, Some
     \<lparr>nl_ExecutionRef = ex, nl_PlanRevision = rv, nl_NodeRef = nd, nl_AttemptRef = aw_attempt_id a,
      nl_OwnerWorkerID = or_zero [] (row_leaseOwner r), nl_Token = token, nl_Fence = r_fence r,
      nl_AttemptNumber = r_number r, nl_ClaimedAt = or_zero 0 (row_claimedAt r),
      nl_HeartbeatAt = or_zero 0 (row_heartbeatAt r), nl_ExpiresAt = or_zero 0 (row_leaseExpiresAt r)\<rparr>), db)"
proof -
  let ?q = "\<lambda>a. where_attempt p ex rv nd a \<and> aw_attempt_number a = r_number r \<and> aw_lease_fence a = r_fence r"
  have "\<not> ?q x" if "x \<in> set t" for x
    using o that r(2) by (auto simp: where_attempt_node where_node_key)
  then have "List.find ?q (t @ [a]) = Some a" using a(2-4) by (induction t) auto
  then have "loadCurrentAttemptIDTx p ex rv nd (r_number r) (r_fence r) db = Inr (aw_attempt_id a)"
    by (simp add: loadCurrentAttemptIDTx_def sql_query_row_def a(1))
  then show ?thesis by (simp add: get_tx_def Let_def loadNodeRuntime_row [OF U r(1,2)] r(3))
qed

text \<open>C23: recovery. After any history, a node that is ready, or that is running under an
  expired lease, is retry safe and has not committed its effect, can be claimed: the
  claim succeeds with the next fence and attempt number, and reading the node afterwards
  gives it as running under just that lease, with the expiry as the database stores it.
  The hypotheses are that the counters are below the limits of their columns, the
  lease time does not vanish in the database's rounding, and the random attempt
  id is new.\<close>

theorem claim_recovers:
  assumes "r \<in> set (db_runtime (lease_run pg xs empty_db))"
    and "tx_scope ctx = Some p" and "node_key r = (p_TenantID p, p_ProjectID p, ex, rv, nd)"
    and "validateLeaseIdentity ex rv nd owner dur = None" and "claimable r now"
    and "r_number r + 1 < 2 ^ 31" and "r_fence r + 1 < 2 ^ 63" and "now < pg_time pg (time_Add now dur)"
    and "\<forall>a\<in>set (db_attempts (lease_run pg xs empty_db)). aw_attempt_id a \<noteq> ''att_'' @ hex_EncodeToString cs"
  shows "\<exists>l db' n. Claim pg ctx ex rv nd owner dur (Inr bs) (Inr cs) now (lease_run pg xs empty_db) = (Inr l, db') \<and>
    nl_Fence l = r_fence r + 1 \<and> nl_AttemptNumber l = r_number r + 1 \<and> nl_OwnerWorkerID l = owner \<and>
    lease_Get ctx ex rv nd db' = (Inr (n, Some (l\<lparr>nl_ExpiresAt := pg_time pg (nl_ExpiresAt l)\<rparr>)), db') \<and>
    nr_State n = NodeRunning"
proof -
  let ?db = "lease_run pg xs empty_db"
  have I: "lease_inv ?db" using lease_run_inv [OF lease_inv_empty] .
  obtain aid tok t where T: "claim_tx pg ex rv nd owner dur (Inr bs) (Inr cs) now p ?db =
      Inr (claimed_lease ex rv nd aid owner tok (r_fence r + 1) (r_number r + 1) now (time_Add now dur),
        \<lparr>db_runtime = sql_set (where_node p ex rv nd)
           (\<lambda>_. claim_row pg (r_number r + 1) owner tok (r_fence r + 1) now (time_Add now dur) r) (db_runtime ?db),
         db_attempts = t @ [pending_attempt p aid ex rv nd (r_number r + 1) (r_fence r + 1) owner
          (nr_IdempotencyKey (row_record r)) now]\<rparr>)" (is "_ = Inr (?l, ?db')")
    and o: "\<forall>a\<in>set t. attempt_node a = node_key r \<longrightarrow> aw_attempt_number a < r_number r + 1"
    using claim_tx_succeeds [OF I assms(1,3,5-9)] by blast
  let ?r = "claim_row pg (r_number r + 1) owner tok (r_fence r + 1) now (time_Add now dur) r"
  have I': "lease_inv ?db'" using claim_tx_effect [OF I T] by (simp only: tx_effect_def)
  have k: "node_key ?r = node_key r" by (simp add: claim_row_def node_key_def)
  have w: "where_node p ex rv nd ?r" using k assms(3) by (simp only: where_node_key)
  have m: "?r \<in> set (db_runtime ?db')" using assms(1,3) by (auto simp: set_sql_set where_node_key)
  have C: "Claim pg ctx ex rv nd owner dur (Inr bs) (Inr cs) now ?db = (Inr ?l, ?db')"
    by (simp add: Claim_def checked_tx_def assms(2,4) withScopedTx_scope T)
  have "get_tx ex rv nd p ?db' = Inr ((row_record ?r, Some (?l\<lparr>nl_ExpiresAt := pg_time pg (nl_ExpiresAt ?l)\<rparr>)), ?db')"
    using o k assms(3)
    by (subst get_tx_row [OF lease_invD(1) [OF I'] m w, of tok t])
       (simp_all add: where_attempt_node or_zero_def claimed_lease_def, simp_all add: claim_row_def)
  then have "lease_Get ctx ex rv nd ?db' = (Inr (row_record ?r, Some (?l\<lparr>nl_ExpiresAt := pg_time pg (nl_ExpiresAt ?l)\<rparr>)), ?db')"
    by (simp add: lease_Get_def withScopedTx_scope assms(2))
  moreover have "nl_Fence ?l = r_fence r + 1 \<and> nl_AttemptNumber ?l = r_number r + 1 \<and> nl_OwnerWorkerID ?l = owner"
    by (simp add: claimed_lease_def)
  ultimately show ?thesis using C claim_row_simps(1) by blast
qed

lemma demo_expired:
  "\<exists>r\<in>set (db_runtime (lease_run demo_pg [demo_register EffectIdempotentMutation True, demo_claim1] empty_db)).
     node_key r = (''t'', ''p'', ''x'', 1, ''n'') \<and> claimable r 20 \<and> r_state r = NodeRunning \<and> r_number r = 1 \<and> r_fence r = 1"
  "list_all (\<lambda>a. aw_attempt_id a \<noteq> ''att_'' @ hex_EncodeToString ''D'')
     (db_attempts (lease_run demo_pg [demo_register EffectIdempotentMutation True, demo_claim1] empty_db))"
  "validateLeaseIdentity ''x'' 1 ''n'' ''w2'' 10 = None"
  by code_simp+

lemma claim_recovers_witness:
  "\<exists>l db'. Claim demo_pg demo_ctx ''x'' 1 ''n'' ''w2'' 10 (Inr ''C'') (Inr ''D'') 20
      (lease_run demo_pg [demo_register EffectIdempotentMutation True, demo_claim1] empty_db) = (Inr l, db') \<and> nl_Fence l = 2"
proof -
  obtain r where r: "r \<in> set (db_runtime (lease_run demo_pg [demo_register EffectIdempotentMutation True, demo_claim1] empty_db))"
    "node_key r = (''t'', ''p'', ''x'', 1, ''n'')" "claimable r 20" "r_number r = 1" "r_fence r = 1"
    using demo_expired(1) by blast
  have "node_key r = (p_TenantID demo_principal, p_ProjectID demo_principal, ''x'', 1, ''n'')"
    using r(2) by (simp add: demo_principal_def)
  from claim_recovers [OF r(1) demo_scope this demo_expired(3) r(3) _ _ _ demo_expired(2) [unfolded list_all_iff], of "''C''"]
  show ?thesis using r(4,5) by (fastforce simp: demo_pg_def time_Add_def)
qed

end
