(* ===== verification/Worker_Lease.thy ===== *)
theory Worker_Lease
  imports Exec_Worker Lease_Liveness
begin

text \<open>
  The worker on the lease repository and the budget ledger. The repository's calls are those of
  \<open>PostgresExecutionNodeLeases\<close>; between any two calls of the worker the environment, that is
  every other worker and tenant, performs arbitrary operations on the repository. Under
  every such interleaving a target is invoked at most once for a node that may not be
  retried, a reservation never stays open, and a result without error is a node that
  has succeeded.
\<close>

section \<open>The world of a worker\<close>

record world =
  wd_db :: leaseDB
  wd_ledger :: BudgetLedger
  wd_tick :: nat
  wd_log :: "lease_op list"
  wd_calls :: nat

text \<open>The operations of the others before each call, the database time of the call and the random
  bytes it draws.\<close>

record environment =
  en_ops :: "nat \<Rightarrow> lease_op list"
  en_time :: "nat \<Rightarrow> gotime"
  en_rnd1 :: "nat \<Rightarrow> goerr + char list"
  en_rnd2 :: "nat \<Rightarrow> goerr + char list"

definition repo_call ::
  "pgDriver \<Rightarrow> environment \<Rightarrow> (nat \<Rightarrow> gotime \<Rightarrow> leaseDB \<Rightarrow> (goerr + 'a) \<times> leaseDB) \<Rightarrow> (nat \<Rightarrow> gotime \<Rightarrow> lease_op)
     \<Rightarrow> world \<Rightarrow> (goerr + 'a) \<times> world" where
  "repo_call pg en f op w =
     (let k = wd_tick w; now = en_time en k in
      case f k now (lease_run pg (en_ops en k) (wd_db w)) of
        (r, db) \<Rightarrow> (r, w\<lparr>wd_db := db, wd_tick := Suc k, wd_log := wd_log w @ en_ops en k @ [op k now]\<rparr>))"

definition err_only :: "(goerr + unit) \<times> 's \<Rightarrow> goerr option \<times> 's" where
  "err_only x = (case fst x of Inl e \<Rightarrow> Some e | Inr _ \<Rightarrow> None, snd x)"

definition lease_coordinator :: "pgDriver \<Rightarrow> environment \<Rightarrow> pcontext \<Rightarrow> world AttemptExecutionCoordinator" where
  "lease_coordinator pg en ctx =
     \<lparr>co_Claim = (\<lambda>ex rv nd owner ttl. repo_call pg en
        (\<lambda>k. Claim pg ctx ex rv nd owner ttl (en_rnd1 en k) (en_rnd2 en k))
        (\<lambda>k. LClaim ctx ex rv nd owner ttl (en_rnd1 en k) (en_rnd2 en k))),
      co_StartAttempt = (\<lambda>l b. repo_call pg en (\<lambda>k. StartAttempt ctx l b) (\<lambda>k. LStart ctx l b)),
      co_MarkEffectStarted = (\<lambda>l w. err_only (repo_call pg en (\<lambda>k. MarkEffectStarted ctx l) (\<lambda>k. LEffectStarted ctx l) w)),
      co_MarkEffectCommitted = (\<lambda>l w. err_only (repo_call pg en (\<lambda>k. MarkEffectCommitted ctx l) (\<lambda>k. LEffectCommitted ctx l) w)),
      co_ReleaseBeforeEffect = (\<lambda>l w. err_only (repo_call pg en (\<lambda>k. ReleaseBeforeEffect ctx l) (\<lambda>k. LRelease ctx l) w)),
      co_Complete = (\<lambda>l st cp w. err_only (repo_call pg en (\<lambda>k. Complete pg ctx l st cp) (\<lambda>k. LComplete ctx l st cp) w))\<rparr>"

definition on_ledger :: "(BudgetLedger option \<Rightarrow> 'r \<times> BudgetLedger option) \<Rightarrow> world \<Rightarrow> 'r \<times> world" where
  "on_ledger f w = (case f (Some (wd_ledger w)) of (r, l) \<Rightarrow> (r, case l of None \<Rightarrow> w | Some l' \<Rightarrow> w\<lparr>wd_ledger := l'\<rparr>))"

definition ledger_coordinator :: "world BudgetCoordinator" where
  "ledger_coordinator =
     \<lparr>bc_Reserve = (\<lambda>i ex nd est. on_ledger (coord_Reserve i ex nd est)),
      bc_Settle = (\<lambda>i a. on_ledger (coord_Settle i a)),
      bc_Release = (\<lambda>i. on_ledger (coord_Release i))\<rparr>"

definition counted :: "TargetInvoker \<Rightarrow> world worker_invoker" where
  "counted f ex n t w = (f ex n t, w\<lparr>wd_calls := Suc (wd_calls w)\<rparr>)"

definition lease_worker ::
  "pgDriver \<Rightarrow> environment \<Rightarrow> pcontext \<Rightarrow> TargetInvoker \<Rightarrow> string \<Rightarrow> duration \<Rightarrow> world PersistentWorker" where
  "lease_worker pg en ctx f workerID ttl =
     NewPersistentWorker workerID ttl (Some (lease_coordinator pg en ctx)) (Some ledger_coordinator) (Some (counted f))"

lemma lease_worker_parts:
  "worker_parts (Some (lease_worker pg en ctx f workerID ttl)) (lease_worker pg en ctx f workerID ttl)
     (lease_coordinator pg en ctx) ledger_coordinator (counted f)"
  by (simp add: worker_parts_def lease_worker_def NewPersistentWorker_def)

section \<open>What each call does to the world\<close>

lemma lease_run_concat: "lease_run pg (xs @ ys) db = lease_run pg ys (lease_run pg xs db)"
  by (induction xs arbitrary: db) simp_all

lemma effect_starts_append:
  "effect_starts pg k (xs @ ys) db = effect_starts pg k xs db + effect_starts pg k ys (lease_run pg xs db)"
  by (induction xs arbitrary: db) simp_all

text \<open>The database is the one the log of all operations leads to, and there were no more
  invocations than successful effect starts.\<close>

definition world_ok :: "pgDriver \<Rightarrow> world \<Rightarrow> bool" where
  "world_ok pg w \<longleftrightarrow> wd_db w = lease_run pg (wd_log w) empty_db"

lemma repo_call_world:
  assumes "repo_call pg en f op w = (r, w')" "world_ok pg w"
    and "\<And>k now db. snd (lease_exec pg (op k now) db) = snd (f k now db)"
  shows "world_ok pg w'" "wd_ledger w' = wd_ledger w" "wd_calls w' = wd_calls w"
    "\<exists>ops k now. wd_log w' = wd_log w @ ops @ [op k now] \<and>
       f k now (lease_run pg (wd_log w @ ops) empty_db) = (r, wd_db w')"
proof -
  let ?k = "wd_tick w"
  obtain db where f: "f ?k (en_time en ?k) (lease_run pg (en_ops en ?k) (wd_db w)) = (r, db)"
    and w': "w' = w\<lparr>wd_db := db, wd_tick := Suc ?k, wd_log := wd_log w @ en_ops en ?k @ [op ?k (en_time en ?k)]\<rparr>"
    using assms(1) by (auto simp: repo_call_def Let_def split: prod.splits)
  show "world_ok pg w'"
    using assms(2) assms(3) [of ?k "en_time en ?k" "lease_run pg (en_ops en ?k) (wd_db w)"] f
    by (simp add: w' world_ok_def lease_run_concat)
  show "wd_ledger w' = wd_ledger w" "wd_calls w' = wd_calls w" by (simp_all add: w')
  show "\<exists>ops k now. wd_log w' = wd_log w @ ops @ [op k now] \<and>
       f k now (lease_run pg (wd_log w @ ops) empty_db) = (r, wd_db w')"
    using f assms(2) by (intro exI [of _ "en_ops en ?k"] exI [of _ ?k] exI [of _ "en_time en ?k"])
      (simp add: w' world_ok_def lease_run_concat)
qed

definition potential :: "pgDriver \<Rightarrow> node_key \<Rightarrow> world \<Rightarrow> int" where
  "potential pg k w = int (effect_starts pg k (wd_log w) empty_db) - int (wd_calls w)"

definition no_loss :: "pgDriver \<Rightarrow> node_key \<Rightarrow> int \<Rightarrow> world \<Rightarrow> world \<Rightarrow> bool" where
  "no_loss pg k n w w' \<longleftrightarrow> world_ok pg w \<longrightarrow> world_ok pg w' \<and> potential pg k w + n \<le> potential pg k w'"

lemma repo_call_no_loss:
  assumes "repo_call pg en f op w = (r, w')"
    and "\<And>k now db. snd (lease_exec pg (op k now) db) = snd (f k now db)"
  shows "no_loss pg k 0 w w'"
  unfolding no_loss_def
proof
  assume "world_ok pg w"
  note R = repo_call_world [OF assms(1) this assms(2)]
  obtain ops i now where "wd_log w' = wd_log w @ ops @ [op i now]" using R(4) by blast
  then show "world_ok pg w' \<and> potential pg k w + 0 \<le> potential pg k w'"
    using R(1,3) by (simp add: potential_def effect_starts_append)
qed

lemma outcome_snd: "snd (outcome x) = snd x"
  by (simp add: outcome_def)

lemma err_only_eq: "err_only x = (e, s) \<longleftrightarrow> (\<exists>r. x = (r, s) \<and> e = (case r of Inl y \<Rightarrow> Some y | Inr _ \<Rightarrow> None))"
  by (cases x) (auto simp: err_only_def)

lemma on_ledger_same: "on_ledger f w = (x, w') \<Longrightarrow> wd_db w' = wd_db w \<and> wd_log w' = wd_log w \<and> wd_calls w' = wd_calls w"
  by (auto simp: on_ledger_def split: prod.splits option.splits)

lemma on_ledger_no_loss: "on_ledger f w = (x, w') \<Longrightarrow> no_loss pg k 0 w w'"
  using on_ledger_same [of f w x w'] by (simp add: no_loss_def world_ok_def potential_def)

lemma started_gains:
  assumes "tx_scope ctx = Some p" "lease_node p l = k"
    and "co_MarkEffectStarted (lease_coordinator pg en ctx) l w = (None, w')"
  shows "no_loss pg k 1 w w'"
  unfolding no_loss_def
proof
  assume W: "world_ok pg w"
  obtain y where y: "repo_call pg en (\<lambda>_. MarkEffectStarted ctx l) (\<lambda>_. LEffectStarted ctx l) w = (y, w')"
      "(case y of Inl e \<Rightarrow> Some e | Inr _ \<Rightarrow> None) = None"
    using assms(3) by (auto simp: lease_coordinator_def err_only_eq)
  then obtain r where c: "repo_call pg en (\<lambda>_. MarkEffectStarted ctx l) (\<lambda>_. LEffectStarted ctx l) w = (Inr r, w')"
    by (cases y) auto
  have "snd (lease_exec pg (LEffectStarted ctx l now) db) = snd (MarkEffectStarted ctx l now db)" for now db
    by (simp add: outcome_snd)
  note R = repo_call_world [OF c W this]
  obtain ops now where l: "wd_log w' = wd_log w @ ops @ [LEffectStarted ctx l now]"
    and f: "MarkEffectStarted ctx l now (lease_run pg (wd_log w @ ops) empty_db) = (Inr r, wd_db w')" using R(4) by blast
  have "starts_effect pg k (LEffectStarted ctx l now) (lease_run pg (wd_log w @ ops) empty_db)"
    using f assms(1,2) by (simp add: outcome_def)
  then show "world_ok pg w' \<and> potential pg k w + 1 \<le> potential pg k w'"
    using R(1,3) by (simp add: l potential_def effect_starts_append lease_run_concat)
qed

interpretation lease_rely: worker_rely "lease_coordinator pg en ctx" "no_loss pg k 0" ledger_coordinator "counted f"
  "no_loss pg k 1" "\<lambda>l. \<exists>p. tx_scope ctx = Some p \<and> lease_node p l = k"
proof
  show "no_loss pg k 0 w w" for w by (simp add: no_loss_def)
  show "no_loss pg k 0 s t \<Longrightarrow> no_loss pg k 0 t u \<Longrightarrow> no_loss pg k 0 s u" for s t u by (auto simp: no_loss_def)
  show "co_StartAttempt (lease_coordinator pg en ctx) l b s = (x, s') \<Longrightarrow> no_loss pg k 0 s s'" for l b s x s'
    by (rule repo_call_no_loss) (auto simp: lease_coordinator_def outcome_snd)
  show "co_MarkEffectStarted (lease_coordinator pg en ctx) l s = (e, s') \<Longrightarrow> no_loss pg k 0 s s'" for l s e s'
    by (auto simp: lease_coordinator_def err_only_eq outcome_snd elim!: repo_call_no_loss)
  show "co_MarkEffectCommitted (lease_coordinator pg en ctx) l s = (e, s') \<Longrightarrow> no_loss pg k 0 s s'" for l s e s'
    by (auto simp: lease_coordinator_def err_only_eq outcome_snd elim!: repo_call_no_loss)
  show "co_ReleaseBeforeEffect (lease_coordinator pg en ctx) l s = (e, s') \<Longrightarrow> no_loss pg k 0 s s'" for l s e s'
    by (auto simp: lease_coordinator_def err_only_eq outcome_snd elim!: repo_call_no_loss)
  show "co_Complete (lease_coordinator pg en ctx) l st cp s = (e, s') \<Longrightarrow> no_loss pg k 0 s s'" for l st cp s e s'
    by (auto simp: lease_coordinator_def err_only_eq outcome_snd elim!: repo_call_no_loss)
  show "bc_Reserve ledger_coordinator i ex nd est s = (y, s') \<Longrightarrow> no_loss pg k 0 s s'" for i ex nd est s y s'
    by (auto simp: ledger_coordinator_def dest: on_ledger_no_loss)
  show "bc_Settle ledger_coordinator i a s = (e, s') \<Longrightarrow> no_loss pg k 0 s s'" for i a s e s'
    by (auto simp: ledger_coordinator_def dest: on_ledger_no_loss)
  show "bc_Release ledger_coordinator i s = (e, s') \<Longrightarrow> no_loss pg k 0 s s'" for i s e s'
    by (auto simp: ledger_coordinator_def dest: on_ledger_no_loss)
  show "\<exists>p. tx_scope ctx = Some p \<and> lease_node p l = k \<Longrightarrow>
      co_MarkEffectStarted (lease_coordinator pg en ctx) l s = (None, s') \<Longrightarrow> no_loss pg k 1 s s'" for l s s'
    using started_gains by blast
  show "no_loss pg k 1 s t \<Longrightarrow> counted f ex n tg t = (z, u) \<Longrightarrow> no_loss pg k 0 s u" for s t ex n tg z u
    by (auto simp: counted_def no_loss_def world_ok_def potential_def)
qed

section \<open>At most one invocation\<close>

text \<open>One execution of a node by a worker, and any number of them in any order.\<close>

record job =
  jb_ctx :: pcontext
  jb_target :: TargetInvoker
  jb_worker :: string
  jb_ttl :: duration
  jb_execution :: Execution
  jb_node :: PreparedNode

definition run_job :: "pgDriver \<Rightarrow> environment \<Rightarrow> job \<Rightarrow> world \<Rightarrow> (WorkerExecutionResult \<times> goerr option) \<times> world" where
  "run_job pg en j =
     worker_Execute (Some (lease_worker pg en (jb_ctx j) (jb_target j) (jb_worker j) (jb_ttl j))) (jb_execution j) (jb_node j)"

fun run_jobs :: "pgDriver \<Rightarrow> environment \<Rightarrow> job list \<Rightarrow> world \<Rightarrow> world" where
  "run_jobs pg en [] w = w"
| "run_jobs pg en (j # js) w = run_jobs pg en js (snd (run_job pg en j w))"

definition job_key :: "job \<Rightarrow> node_key option" where
  "job_key j =
     (case tx_scope (jb_ctx j) of
        None \<Rightarrow> None
      | Some p \<Rightarrow> Some (p_TenantID p, p_ProjectID p, ex_ID (jb_execution j),
          pr_Revision (ex_PlanRef (jb_execution j)), nd_ID (pn_Node (jb_node j))))"

definition new_world :: "BudgetLedger \<Rightarrow> world" where
  "new_world l = \<lparr>wd_db = empty_db, wd_ledger = l, wd_tick = 0, wd_log = [], wd_calls = 0\<rparr>"

lemma Claim_lease_node:
  assumes "Claim pg ctx ex rv nd owner dur r1 r2 now db = (Inr l, db')"
  shows "\<exists>p. tx_scope ctx = Some p \<and> lease_node p l = (p_TenantID p, p_ProjectID p, ex, rv, nd)"
  using assms unfolding Claim_def
proof (cases rule: checked_tx_cases)
  case (ok p v)
  then show ?thesis by (auto simp: claim_tx_def sum_bind_Inr Let_def lease_node_def)
qed simp

lemma run_job_no_loss:
  assumes J: "run_job pg en j w = (x, w')" and m: "isMutationEffect (ef_Class (nd_Effect (pn_Node (jb_node j))))"
    and k: "job_key j = None \<or> job_key j = Some k"
  shows "no_loss pg k 0 w w'"
proof -
  let ?w = "lease_worker pg en (jb_ctx j) (jb_target j) (jb_worker j) (jb_ttl j)"
  let ?co = "lease_coordinator pg en (jb_ctx j)"
  let ?ex = "jb_execution j" and ?c = "jb_node j"
  show ?thesis
  proof (cases "worker_validate (Some ?w) ?ex ?c")
    case None
    obtain cl w1 where cl: "co_Claim ?co (ex_ID ?ex) (pr_Revision (ex_PlanRef ?ex)) (nd_ID (pn_Node ?c)) (pw_workerID ?w) (pw_leaseTTL ?w) w = (cl, w1)"
      by fastforce
    have R1: "no_loss pg k 0 w w1" using cl
      by (auto simp: lease_coordinator_def outcome_snd elim!: repo_call_no_loss)
    show ?thesis
    proof (cases cl)
      case (Inl e)
      then show ?thesis using J cl R1 by (simp add: run_job_def worker_Execute_parts [OF lease_worker_parts None])
    next
      case (Inr l)
      then have run: "run_claimed ?co ledger_coordinator (counted (jb_target j)) ?ex ?c l w1 = (x, w')"
        using J cl by (simp add: run_job_def worker_Execute_parts [OF lease_worker_parts None])
      obtain now dbx dby a b where "Claim pg (jb_ctx j) (ex_ID ?ex) (pr_Revision (ex_PlanRef ?ex)) (nd_ID (pn_Node ?c)) (pw_workerID ?w) (pw_leaseTTL ?w) a b now dbx = (Inr l, dby)"
        using cl Inr by (auto simp: lease_coordinator_def repo_call_def Let_def split: prod.splits)
      from Claim_lease_node [OF this] k have "\<exists>p. tx_scope (jb_ctx j) = Some p \<and> lease_node p l = k"
        by (auto simp: job_key_def)
      from lease_rely.R_run_claimed [OF disjI1 [OF m] this run] R1 show ?thesis using lease_rely.R_trans by blast
    qed
  next
    case (Some e)
    then show ?thesis using J by (simp add: run_job_def worker_Execute_def no_loss_def)
  qed
qed

lemma run_jobs_no_loss:
  assumes "\<forall>j\<in>set js. isMutationEffect (ef_Class (nd_Effect (pn_Node (jb_node j)))) \<and> (job_key j = None \<or> job_key j = Some k)"
  shows "no_loss pg k 0 w (run_jobs pg en js w)"
  using assms
proof (induction js arbitrary: w)
  case (Cons j js)
  have "no_loss pg k 0 w (snd (run_job pg en j w))"
    using run_job_no_loss [of pg en j w "fst (run_job pg en j w)" "snd (run_job pg en j w)" k] Cons.prems by simp
  moreover have "no_loss pg k 0 (snd (run_job pg en j w)) (run_jobs pg en js (snd (run_job pg en j w)))"
    using Cons by simp
  ultimately show ?case using lease_rely.R_trans [of pg k w "snd (run_job pg en j w)"] by simp
qed (simp add: no_loss_def)

text \<open>C1: no duplicate effect. Any number of workers execute one mutating node, and before
  every call of a worker everybody else may do anything to the repository. If the node may not
  be retried, its target is invoked at most once in total.\<close>

theorem target_invoked_at_most_once:
  assumes "\<forall>j\<in>set js. isMutationEffect (ef_Class (nd_Effect (pn_Node (jb_node j)))) \<and> job_key j = Some (node_key r)"
    and "r \<in> set (db_runtime (wd_db (run_jobs pg en js (new_world l))))" and "\<not> nr_RetrySafe (row_record r)"
  shows "wd_calls (run_jobs pg en js (new_world l)) \<le> 1"
proof -
  let ?w = "run_jobs pg en js (new_world l)"
  have "no_loss pg (node_key r) 0 (new_world l) ?w" using assms(1) by (intro run_jobs_no_loss) blast
  moreover have "world_ok pg (new_world l)" by (simp add: world_ok_def new_world_def)
  ultimately have W: "world_ok pg ?w" "int (wd_calls ?w) \<le> int (effect_starts pg (node_key r) (wd_log ?w) empty_db)"
    by (auto simp: no_loss_def potential_def new_world_def)
  have "r \<in> set (db_runtime (lease_run pg (wd_log ?w) empty_db))" using assms(2) W(1) by (simp add: world_ok_def)
  then have "effect_starts pg (node_key r) (wd_log ?w) empty_db \<le> 1"
    using effect_starts_le_one [OF lease_inv_empty] node_row_unique [OF lease_run_inv [OF lease_inv_empty]] assms(3) by metis
  then show ?thesis using W(2) by linarith
qed

section \<open>Success\<close>

interpretation world_rely: worker_rely "lease_coordinator pg en ctx" "\<lambda>w w'. world_ok pg w \<longrightarrow> world_ok pg w'"
  ledger_coordinator "counted f" "\<lambda>w w'. world_ok pg w \<longrightarrow> world_ok pg w'" "\<lambda>l. True"
proof
  note R = lease_rely.R_start lease_rely.R_started lease_rely.R_committed lease_rely.R_release lease_rely.R_complete
    lease_rely.R_reserve lease_rely.R_settle lease_rely.R_budget_release
  show "co_StartAttempt (lease_coordinator pg en ctx) l b s = (x, s') \<Longrightarrow> world_ok pg s \<longrightarrow> world_ok pg s'" for l b s x s'
    using R(1) [of pg en ctx l b s x s'] by (simp add: no_loss_def)
  show "co_MarkEffectStarted (lease_coordinator pg en ctx) l s = (e, s') \<Longrightarrow> world_ok pg s \<longrightarrow> world_ok pg s'" for l s e s'
    using R(2) [of pg en ctx l s e s'] by (simp add: no_loss_def)
  show "co_MarkEffectCommitted (lease_coordinator pg en ctx) l s = (e, s') \<Longrightarrow> world_ok pg s \<longrightarrow> world_ok pg s'" for l s e s'
    using R(3) [of pg en ctx l s e s'] by (simp add: no_loss_def)
  show "co_ReleaseBeforeEffect (lease_coordinator pg en ctx) l s = (e, s') \<Longrightarrow> world_ok pg s \<longrightarrow> world_ok pg s'" for l s e s'
    using R(4) [of pg en ctx l s e s'] by (simp add: no_loss_def)
  show "co_Complete (lease_coordinator pg en ctx) l st cp s = (e, s') \<Longrightarrow> world_ok pg s \<longrightarrow> world_ok pg s'" for l st cp s e s'
    using R(5) [of pg en ctx l st cp s e s'] by (simp add: no_loss_def)
  show "bc_Reserve ledger_coordinator i ex nd est s = (y, s') \<Longrightarrow> world_ok pg s \<longrightarrow> world_ok pg s'" for i ex nd est s y s'
    using R(6) [of i ex nd est s y s' pg] by (simp add: no_loss_def)
  show "bc_Settle ledger_coordinator i a s = (e, s') \<Longrightarrow> world_ok pg s \<longrightarrow> world_ok pg s'" for i a s e s'
    using R(7) [of i a s e s' pg] by (simp add: no_loss_def)
  show "bc_Release ledger_coordinator i s = (e, s') \<Longrightarrow> world_ok pg s \<longrightarrow> world_ok pg s'" for i s e s'
    using R(8) [of i s e s' pg] by (simp add: no_loss_def)
  show "co_MarkEffectStarted (lease_coordinator pg en ctx) l s = (None, s') \<Longrightarrow> world_ok pg s \<longrightarrow> world_ok pg s'" for l s s'
    using R(2) [of pg en ctx l s None s'] by (simp add: no_loss_def)
  show "world_ok pg s \<longrightarrow> world_ok pg t \<Longrightarrow> counted f ex n tg t = (z, u) \<Longrightarrow> world_ok pg s \<longrightarrow> world_ok pg u" for s t ex n tg z u
    by (auto simp: counted_def world_ok_def)
qed auto

lemma Complete_row:
  assumes "lease_inv db" "Complete pg ctx l terminal cp now db = (Inr v, db')" "tx_scope ctx = Some p"
  shows "\<exists>r\<in>set (db_runtime db'). node_key r = lease_node p l \<and> r_state r = terminal \<and>
    (terminal = NodeSucceeded \<longrightarrow> isMutation (nr_EffectClass (row_record r)) \<longrightarrow> r_committed r \<noteq> None)"
  using assms(2) unfolding Complete_def
proof (cases rule: checked_tx_cases)
  case (ok p' u)
  then have c: "validateAttemptCompletion terminal cp = None" by (auto split: option.splits)
  have T: "complete_tx pg l terminal cp now p db = Inr (u, db')" using ok(3,4) assms(3) by simp
  from complete_tx_effect [OF assms(1) T c] obtain r r' q g new where
    e: "node_key r = lease_node p l" "node_step EComplete r r'" "r_state r' = terminal" "node_change r r' q g new db db'"
    by (auto simp: tx_effect_def)
  have "r' \<in> set (db_runtime db')" using node_change_rows [OF e(4) assms(1)] by simp
  moreover have "terminal = NodeSucceeded \<longrightarrow> isMutation (nr_EffectClass (row_record r')) \<longrightarrow> r_committed r' \<noteq> None"
    using e(2,3) by (cases rule: node_step.cases) auto
  ultimately show ?thesis using e node_step_key [OF e(2)] by metis
qed simp

text \<open>C8: a worker that reports success tells the truth. Whatever the others do in between,
  when an execution of a node returns no error the node is recorded as succeeded, and if it is
  registered as a mutation, its effect is recorded as committed.\<close>

theorem worker_success_recorded:
  assumes "world_ok pg w" and "run_job pg en j w = ((res, None), w')"
  shows "\<exists>r\<in>set (db_runtime (wd_db w')). Some (node_key r) = job_key j \<and> r_state r = NodeSucceeded \<and>
    (isMutation (nr_EffectClass (row_record r)) \<longrightarrow> r_committed r \<noteq> None)"
proof -
  let ?w = "lease_worker pg en (jb_ctx j) (jb_target j) (jb_worker j) (jb_ttl j)"
  let ?co = "lease_coordinator pg en (jb_ctx j)"
  let ?ex = "jb_execution j" and ?c = "jb_node j"
  have V: "worker_validate (Some ?w) ?ex ?c = None"
    using assms(2) by (auto simp: run_job_def worker_Execute_def split: option.splits)
  obtain cl w1 where cl: "co_Claim ?co (ex_ID ?ex) (pr_Revision (ex_PlanRef ?ex)) (nd_ID (pn_Node ?c)) (pw_workerID ?w) (pw_leaseTTL ?w) w = (cl, w1)"
    by fastforce
  then obtain l where l: "cl = Inr l" and run: "run_claimed ?co ledger_coordinator (counted (jb_target j)) ?ex ?c l w1 = ((res, None), w')"
    using assms(2) by (cases cl) (auto simp: run_job_def worker_Execute_parts [OF lease_worker_parts V])
  obtain now dbx dby a b where "Claim pg (jb_ctx j) (ex_ID ?ex) (pr_Revision (ex_PlanRef ?ex)) (nd_ID (pn_Node ?c)) (pw_workerID ?w) (pw_leaseTTL ?w) a b now dbx = (Inr l, dby)"
    using cl l by (auto simp: lease_coordinator_def repo_call_def Let_def split: prod.splits)
  from Claim_lease_node [OF this] obtain p where p: "tx_scope (jb_ctx j) = Some p" "Some (lease_node p l) = job_key j"
    by (auto simp: job_key_def)
  have W1: "world_ok pg w1" using repo_call_no_loss [of pg en _ _ w cl w1] cl assms(1)
    by (auto simp: lease_coordinator_def outcome_snd no_loss_def)
  from world_rely.R_run_claimed [OF disjI2 _ run] obtain v cp where
    v: "world_ok pg v" "co_Complete ?co l NodeSucceeded cp v = (None, w')" using W1 by auto
  obtain y where y: "repo_call pg en (\<lambda>_. Complete pg (jb_ctx j) l NodeSucceeded cp) (\<lambda>_. LComplete (jb_ctx j) l NodeSucceeded cp) v = (y, w')"
      "(case y of Inl e \<Rightarrow> Some e | Inr _ \<Rightarrow> None) = None"
    using v(2) by (auto simp: lease_coordinator_def err_only_eq)
  then obtain u where "y = Inr u" by (cases y) auto
  with y(1) obtain ops t where C: "Complete pg (jb_ctx j) l NodeSucceeded cp t (lease_run pg ops empty_db) = (Inr u, wd_db w')"
    using repo_call_world(4) [of pg en "\<lambda>_. Complete pg (jb_ctx j) l NodeSucceeded cp" "\<lambda>_. LComplete (jb_ctx j) l NodeSucceeded cp" v y w'] v(1)
    by (auto simp: outcome_snd)
  from Complete_row [OF lease_run_inv [OF lease_inv_empty] C p(1)] p(2) show ?thesis by metis
qed

section \<open>The budget\<close>

lemma repo_call_ledger: "repo_call pg en f op w = (r, w') \<Longrightarrow> wd_ledger w' = wd_ledger w"
  by (auto simp: repo_call_def Let_def split: prod.splits)

interpretation ledger_rely: coordinator_rely "lease_coordinator pg en ctx" "\<lambda>w w'. wd_ledger w' = wd_ledger w"
  by unfold_locales (auto simp: lease_coordinator_def err_only_eq dest: repo_call_ledger)

lemma on_ledger_coord:
  "on_ledger (coord_Reserve i ex nd est) w = (case Reserve i ex nd est (wd_ledger w) of (r, l) \<Rightarrow> (r, w\<lparr>wd_ledger := l\<rparr>))"
  "on_ledger (coord_Settle i a) w = (case Settle i a (wd_ledger w) of (e, l) \<Rightarrow> (e, w\<lparr>wd_ledger := l\<rparr>))"
  "on_ledger (coord_Release i) w = (case Release i (wd_ledger w) of (e, l) \<Rightarrow> (e, w\<lparr>wd_ledger := l\<rparr>))"
  by (simp_all add: on_ledger_def coord_Reserve_def coord_Settle_def coord_Release_def split: prod.splits)

text \<open>An open reservation \<open>v\<close> on top of what was open before.\<close>

definition holds :: "(BudgetEstimate \<Rightarrow> int) \<Rightarrow> int \<Rightarrow> BudgetReservation \<Rightarrow> BudgetLedger \<Rightarrow> bool" where
  "holds b n v l \<longleftrightarrow>
     gomap_get (lg_reservations l) (br_ID v) = Some v \<and> \<not> br_Closed v \<and> open_sum b l = n + b (br_Estimate v)"

lemma Reserve_holds:
  assumes "Reserve i ex nd est l = (Inr v, l')"
  shows "holds b (open_sum b l) v l'"
proof -
  have "br_ID v = i" using assms by (auto simp: Reserve_def Let_def split: if_splits option.splits)
  then show ?thesis using Reserve_cases [OF assms] open_sum_put_new [of l i l' v b] by (auto simp: holds_def)
qed

lemma Settle_holds:
  assumes "holds b n v l" "\<not> negative_estimate a" "Settle (br_ID v) a l = (e, l')"
  shows "e = None \<and> open_sum b l' = n"
  using assms Settle_open [of l "br_ID v" v a] Settle_cases [of "br_ID v" a l e l'] open_sum_close [of l "br_ID v" v l' b]
  by (auto simp: holds_def)

lemma Release_holds: "holds b n v l \<Longrightarrow> Release (br_ID v) l = (e, l') \<Longrightarrow> open_sum b l' = n"
  using Release_cases [of "br_ID v" l e l'] open_sum_close [of l "br_ID v" v l' b]
  by (auto simp: holds_def Release_def)

lemma invoke_and_finish_closes:
  assumes H: "holds b n v (wd_ledger w)" and r: "wr_ReservationRef r = br_ID v"
    and u: "\<not> f64_lt (us_Cost (ir_Usage (fst (f ex (pn_Node c) (pn_Target c))))) (Fin 0)"
    and I: "invoke_and_finish (lease_coordinator pg en ctx) ledger_coordinator (counted f) ex c l r w = (x, w')"
  shows "open_sum b (wd_ledger w') = n"
proof -
  obtain y e where f: "f ex (pn_Node c) (pn_Target c) = (y, e)" by fastforce
  let ?a = "actualBudgetForInvocation (pn_Target c) (ir_Usage y)"
  let ?co = "lease_coordinator pg en ctx"
  obtain e2 l2 where s: "Settle (br_ID v) ?a (wd_ledger w) = (e2, l2)" by fastforce
  have "\<not> negative_estimate ?a" using u f by (simp add: actualBudgetForInvocation_def negative_estimate_def)
  from Settle_holds [OF H this s] have 2: "e2 = None" "open_sum b l2 = n" by simp_all
  let ?w = "w\<lparr>wd_calls := Suc (wd_calls w), wd_ledger := l2\<rparr>"
  have "(if isMutationEffect (ef_Class (nd_Effect (pn_Node c))) then finishMutation ?co l c (r\<lparr>wr_Invocation := y\<rparr>) e ?w
      else finishReadOnly ?co l (r\<lparr>wr_Invocation := y\<rparr>) e ?w) = (x, w')"
    using I f s 2(1) r by (simp add: invoke_and_finish_def Let_def counted_def ledger_coordinator_def on_ledger_coord)
  then have "wd_ledger w' = l2"
    using ledger_rely.R_finishMutation [of pg en ctx l c _ e ?w x w'] ledger_rely.R_finishReadOnly [of pg en ctx l _ e ?w x w']
    by (auto split: if_splits)
  then show ?thesis using 2(2) by simp
qed

lemma run_claimed_closes:
  assumes u: "\<not> f64_lt (us_Cost (ir_Usage (fst (f ex (pn_Node c) (pn_Target c))))) (Fin 0)"
    and run: "run_claimed (lease_coordinator pg en ctx) ledger_coordinator (counted f) ex c l w = (x, w')"
  shows "open_sum b (wd_ledger w') = open_sum b (wd_ledger w)"
proof -
  let ?m = "isMutationEffect (ef_Class (nd_Effect (pn_Node c)))"
  let ?co = "lease_coordinator pg en ctx" and ?i = "''attempt/'' @ nl_AttemptRef l" and ?n = "open_sum b (wd_ledger w)"
  note defs = run_claimed_def Let_def ledger_coordinator_def on_ledger_coord
  obtain rv l1 where r: "Reserve ?i (ex_ID ex) (nd_ID (pn_Node c)) (pn_Estimate c) (wd_ledger w) = (rv, l1)" by fastforce
  show ?thesis
  proof (cases rv)
    case (Inl e)
    then have "wd_ledger w' = l1" "l1 = wd_ledger w" using run r Reserve_cases [OF r]
      by (auto simp: defs split: prod.splits dest: ledger_rely.R_release)
    then show ?thesis by simp
  next
    case (Inr v)
    note H = Reserve_holds [OF r [unfolded Inr], of b]
    obtain st w2 where st: "co_StartAttempt ?co l (attempt_binding c v) (w\<lparr>wd_ledger := l1\<rparr>) = (st, w2)" by fastforce
    have 2: "wd_ledger w2 = l1" using ledger_rely.R_start [OF st] by simp
    show ?thesis
    proof (cases st)
      case (Inl e)
      then show ?thesis using run r st Inr 2 Release_holds [OF H]
        by (auto simp: defs split: prod.splits dest!: ledger_rely.R_release)
    next
      case (Inr at)
      let ?res = "WorkerExecutionResult_zero\<lparr>wr_Lease := l, wr_ReservationRef := br_ID v\<rparr>"
      obtain e w3 where e: "co_MarkEffectStarted ?co l w2 = (e, w3)" by fastforce
      have 3: "wd_ledger w3 = l1" using ledger_rely.R_started [OF e] 2 by simp
      show ?thesis
      proof (cases "?m \<and> e \<noteq> None")
        case True
        let ?a = "\<lparr>be_Cost = Fin 0, be_NodeAttempts = 1, be_FrontierCalls = 0, be_ToolCalls = 0\<rparr>"
        have "\<not> negative_estimate ?a" by (simp add: negative_estimate_def)
        then show ?thesis using run r st \<open>rv = Inr v\<close> Inr e True 3 Settle_holds [OF H, of ?a]
          by (auto simp: defs split: prod.splits dest!: ledger_rely.R_complete)
      next
        case False
        have "invoke_and_finish ?co ledger_coordinator (counted f) ex c l ?res (if ?m then w3 else w2) = (x, w')"
          using run r st \<open>rv = Inr v\<close> Inr e False by (auto simp: defs split: if_splits)
        from invoke_and_finish_closes [OF _ _ u this, of b ?n v] show ?thesis using H 2 3 by simp
      qed
    qed
  qed
qed

text \<open>C6: a worker whose target does not report a negative cost leaves no reservation open. On every
  path of such an execution, the failures of the claim, the reservation, the start, the mark, the
  target and the completion included, the amounts held by open reservations are afterwards what
  they were before. (A negative cost makes the settlement fail, and the worker returns with
  the reservation still open.)\<close>

theorem worker_budget_closed:
  assumes "\<not> f64_lt (us_Cost (ir_Usage (fst (jb_target j (jb_execution j) (pn_Node (jb_node j)) (pn_Target (jb_node j)))))) (Fin 0)"
  shows "open_sum b (wd_ledger (snd (run_job pg en j w))) = open_sum b (wd_ledger w)"
proof -
  let ?w = "lease_worker pg en (jb_ctx j) (jb_target j) (jb_worker j) (jb_ttl j)"
  let ?co = "lease_coordinator pg en (jb_ctx j)"
  let ?ex = "jb_execution j" and ?c = "jb_node j"
  show ?thesis
  proof (cases "worker_validate (Some ?w) ?ex ?c")
    case None
    obtain cl w1 where cl: "co_Claim ?co (ex_ID ?ex) (pr_Revision (ex_PlanRef ?ex)) (nd_ID (pn_Node ?c)) (pw_workerID ?w) (pw_leaseTTL ?w) w = (cl, w1)"
      by fastforce
    then have 1: "wd_ledger w1 = wd_ledger w" by (auto simp: lease_coordinator_def dest: repo_call_ledger)
    show ?thesis
    proof (cases cl)
      case (Inr l)
      then show ?thesis using run_claimed_closes [of "jb_target j" ?ex ?c, OF assms, of pg en "jb_ctx j" l w1 _ _ b] 1 cl
        by (cases "run_claimed ?co ledger_coordinator (counted (jb_target j)) ?ex ?c l w1")
          (simp add: run_job_def worker_Execute_parts [OF lease_worker_parts None])
    qed (use cl 1 in \<open>simp add: run_job_def worker_Execute_parts [OF lease_worker_parts None]\<close>)
  qed (simp add: run_job_def worker_Execute_def)
qed

section \<open>Example\<close>

text \<open>Two workers after each other execute a mutation that may not be retried; the node is
  registered by somebody else before the first call, and the target commits the effect.\<close>

definition demo_mutation :: ExecutionNode where
  "demo_mutation = (pure_node ''n'' [])\<lparr>nd_Effect := \<lparr>ef_Class = EffectNonIdempotentMutation, ef_IdempotencyKey = [], ef_RetrySafe = False\<rparr>\<rparr>"

definition demo_env :: environment where
  "demo_env = \<lparr>en_ops = (\<lambda>k. if k = 0 then [demo_register EffectNonIdempotentMutation False] else []),
     en_time = (\<lambda>k. 5 + int k), en_rnd1 = (\<lambda>k. Inr ''A''), en_rnd2 = (\<lambda>k. Inr ''B'')\<rparr>"

definition demo_commit :: TargetInvoker where
  "demo_commit ex n t = (InvocationResult_zero\<lparr>ir_EffectDisposition := EffectDispositionCommitted\<rparr>, None)"

definition demo_job :: "string \<Rightarrow> job" where
  "demo_job worker = \<lparr>jb_ctx = demo_ctx, jb_target = demo_commit, jb_worker = worker, jb_ttl = 10,
     jb_execution = demo_execution, jb_node = demo_prepared demo_mutation\<rparr>"

definition demo_world :: world where
  "demo_world = new_world (NewBudgetLedger demo_budget)"

lemma demo_jobs_run:
  "\<exists>r\<in>set (db_runtime (wd_db (run_jobs demo_pg demo_env [demo_job ''w1'', demo_job ''w2''] demo_world))).
     node_key r = (''t'', ''p'', ''x'', 1, ''n'') \<and> \<not> nr_RetrySafe (row_record r)"
  by code_simp

lemma demo_job_key: "job_key (demo_job worker) = Some (''t'', ''p'', ''x'', 1, ''n'')"
proof -
  have "jb_ctx (demo_job worker) = demo_ctx" "jb_execution (demo_job worker) = demo_execution"
    "nd_ID (pn_Node (jb_node (demo_job worker))) = ''n''"
    by (simp_all add: demo_job_def demo_prepared_def demo_mutation_def pure_node_def)
  then show ?thesis using demo_scope
    by (simp add: job_key_def demo_execution_def) (simp add: demo_principal_def)
qed

lemma demo_job_mutation: "isMutationEffect (ef_Class (nd_Effect (pn_Node (jb_node (demo_job worker)))))"
  by (simp add: demo_job_def demo_prepared_def demo_mutation_def isMutationEffect_def)

lemma target_invoked_at_most_once_witness:
  "wd_calls (run_jobs demo_pg demo_env [demo_job ''w1'', demo_job ''w2''] demo_world) \<le> 1"
proof -
  obtain r where r: "r \<in> set (db_runtime (wd_db (run_jobs demo_pg demo_env [demo_job ''w1'', demo_job ''w2''] demo_world)))"
    "node_key r = (''t'', ''p'', ''x'', 1, ''n'')" "\<not> nr_RetrySafe (row_record r)" using demo_jobs_run by blast
  have "\<forall>j\<in>set [demo_job ''w1'', demo_job ''w2'']. isMutationEffect (ef_Class (nd_Effect (pn_Node (jb_node j)))) \<and>
      job_key j = Some (node_key r)"
    using r(2) by (simp add: demo_job_key demo_job_mutation)
  from target_invoked_at_most_once [OF this r(1) [unfolded demo_world_def] r(3)] show ?thesis
    unfolding demo_world_def .
qed

lemma demo_job_ok: "snd (fst (run_job demo_pg demo_env (demo_job ''w1'') demo_world)) = None"
  by code_simp

lemma worker_success_recorded_witness:
  "\<exists>r\<in>set (db_runtime (wd_db (snd (run_job demo_pg demo_env (demo_job ''w1'') demo_world)))). r_state r = NodeSucceeded"
proof -
  obtain res w' where j: "run_job demo_pg demo_env (demo_job ''w1'') demo_world = ((res, None), w')"
    using demo_job_ok by (metis prod.collapse)
  have "world_ok demo_pg demo_world" by (simp add: world_ok_def demo_world_def new_world_def)
  from worker_success_recorded [OF this j] j show ?thesis by auto
qed

lemma worker_budget_closed_witness:
  "open_sum be_NodeAttempts (wd_ledger (snd (run_job demo_pg demo_env (demo_job ''w1'') demo_world))) = 0"
proof -
  have "\<not> f64_lt (us_Cost (ir_Usage (fst (jb_target (demo_job ''w1'') (jb_execution (demo_job ''w1''))
      (pn_Node (jb_node (demo_job ''w1''))) (pn_Target (jb_node (demo_job ''w1''))))))) (Fin 0)"
    by (simp add: demo_job_def demo_commit_def InvocationResult_zero_def Usage_zero_def)
  from worker_budget_closed [OF this, of be_NodeAttempts demo_pg demo_env demo_world] show ?thesis
    by (simp add: demo_world_def new_world_def open_sum_def NewBudgetLedger_def)
qed

lemma worker_call_order_witness:
  "\<exists>tr. worker_protocol True tr \<and>
     snd (snd (worker_Execute (Some (log_worker (lease_worker demo_pg demo_env demo_ctx demo_commit ''w1'' 10)))
       demo_execution (demo_prepared demo_mutation) (demo_world, []))) = tr"
proof -
  let ?w = "lease_worker demo_pg demo_env demo_ctx demo_commit ''w1'' 10"
  let ?c = "demo_prepared demo_mutation"
  obtain r s' tr where e: "worker_Execute (Some (log_worker ?w)) demo_execution ?c (demo_world, []) = (r, (s', tr))"
    by (metis prod.collapse)
  have "isMutationEffect (ef_Class (nd_Effect (pn_Node ?c)))"
    by (simp add: demo_prepared_def demo_mutation_def isMutationEffect_def)
  with worker_call_order [OF e] e show ?thesis by simp
qed

end
