(* ===== verification/Circuit_Breaker.thy ===== *)
theory Circuit_Breaker
  imports Go_Errors
begin

text \<open>
  Package circuitbreaker (src/internal/circuitbreaker/breaker.go). The breaker works on a
  store interface, a record of functions on an arbitrary state; the in-memory store is one.
  The specification is an automaton with three states per key, and the refinement theorem
  says that on the in-memory store the breaker answers as one such automaton per key.
  Each call of the breaker is one step: the source takes no lock across the read and the write
  of a call, so the theorems are about calls for one key that do not overlap.
\<close>

datatype CircuitState = StateClosed | StateOpen | StateHalfOpen | CircuitStateOther string

fun CircuitState_str :: "CircuitState \<Rightarrow> string" where
  "CircuitState_str StateClosed = ''closed''"
| "CircuitState_str StateOpen = ''open''"
| "CircuitState_str StateHalfOpen = ''half-open''"
| "CircuitState_str (CircuitStateOther s) = s"

record CircuitSnapshot =
  cs_Key :: string
  cs_State :: CircuitState
  cs_ConsecutiveFailures :: int
  cs_OpenedAt :: "gotime option"
  cs_LastFailureAt :: "gotime option"
  cs_LastSuccessAt :: "gotime option"
  cs_UpdatedAt :: gotime

definition CircuitSnapshot_zero :: CircuitSnapshot where
  "CircuitSnapshot_zero =
     \<lparr>cs_Key = [], cs_State = CircuitStateOther [], cs_ConsecutiveFailures = 0, cs_OpenedAt = None,
      cs_LastFailureAt = None, cs_LastSuccessAt = None, cs_UpdatedAt = 0\<rparr>"

record 's breaker_store =
  bs_Get :: "string \<Rightarrow> 's \<Rightarrow> goerr + CircuitSnapshot"
  bs_Put :: "CircuitSnapshot \<Rightarrow> 's \<Rightarrow> goerr option \<times> 's"

section \<open>The in-memory store\<close>

type_synonym breaker_map = "(string, CircuitSnapshot) gomap"

definition BreakerStore_Get :: "string \<Rightarrow> breaker_map \<Rightarrow> goerr + CircuitSnapshot" where
  "BreakerStore_Get k m =
     (case gomap_get m k of
        None \<Rightarrow> Inr (CircuitSnapshot_zero\<lparr>cs_Key := k, cs_State := StateClosed\<rparr>)
      | Some s \<Rightarrow> Inr s)"

definition BreakerStore_Put :: "CircuitSnapshot \<Rightarrow> breaker_map \<Rightarrow> goerr option \<times> breaker_map" where
  "BreakerStore_Put s m = (None, gomap_put (cs_Key s) s m)"

definition breaker_memory :: "breaker_map breaker_store" where
  "breaker_memory = \<lparr>bs_Get = BreakerStore_Get, bs_Put = BreakerStore_Put\<rparr>"

section \<open>The breaker\<close>

record 's Breaker =
  br_store :: "'s breaker_store"
  br_failureThreshold :: int
  br_cooldown :: duration

definition NewBreaker :: "'s breaker_store \<Rightarrow> int \<Rightarrow> duration \<Rightarrow> 's Breaker" where
  "NewBreaker st failureThreshold cooldown =
     \<lparr>br_store = st,
      br_failureThreshold = (if failureThreshold \<le> 0 then 3 else failureThreshold),
      br_cooldown = (if cooldown \<le> 0 then Minute else cooldown)\<rparr>"

definition Breaker_Allow ::
  "'s Breaker \<Rightarrow> gotime \<Rightarrow> string \<Rightarrow> 's \<Rightarrow> (goerr + bool \<times> CircuitSnapshot) \<times> 's" where
  "Breaker_Allow b now k s =
     (if k = [] then (Inl (Errorf ''circuit-breaker key is required'' []), s)
      else case bs_Get (br_store b) k s of
             Inl e \<Rightarrow> (Inl e, s)
           | Inr snapshot \<Rightarrow>
               (case cs_OpenedAt snapshot of
                  Some t \<Rightarrow>
                    if cs_State snapshot = StateOpen \<and> time_Sub now t \<ge> br_cooldown b then
                      let snapshot = snapshot\<lparr>cs_State := StateHalfOpen, cs_UpdatedAt := now\<rparr> in
                      (case bs_Put (br_store b) snapshot s of
                         (Some e, s) \<Rightarrow> (Inl e, s)
                       | (None, s) \<Rightarrow> (Inr (cs_State snapshot \<noteq> StateOpen, snapshot), s))
                    else (Inr (cs_State snapshot \<noteq> StateOpen, snapshot), s)
                | None \<Rightarrow> (Inr (cs_State snapshot \<noteq> StateOpen, snapshot), s)))"

definition Breaker_Success :: "'s Breaker \<Rightarrow> gotime \<Rightarrow> string \<Rightarrow> 's \<Rightarrow> goerr option \<times> 's" where
  "Breaker_Success b now k s =
     (case bs_Get (br_store b) k s of
        Inl e \<Rightarrow> (Some e, s)
      | Inr snapshot \<Rightarrow>
          bs_Put (br_store b)
            (snapshot\<lparr>cs_Key := k, cs_State := StateClosed, cs_ConsecutiveFailures := 0, cs_OpenedAt := None,
                      cs_LastSuccessAt := Some now, cs_UpdatedAt := now\<rparr>) s)"

definition Breaker_Failure ::
  "'s Breaker \<Rightarrow> gotime \<Rightarrow> string \<Rightarrow> 's \<Rightarrow> (goerr + CircuitSnapshot) \<times> 's" where
  "Breaker_Failure b now k s =
     (case bs_Get (br_store b) k s of
        Inl e \<Rightarrow> (Inl e, s)
      | Inr snapshot \<Rightarrow>
          let snapshot = snapshot\<lparr>cs_Key := k,
                cs_ConsecutiveFailures := wrap64 (cs_ConsecutiveFailures snapshot + 1),
                cs_LastFailureAt := Some now, cs_UpdatedAt := now\<rparr>;
              snapshot = (if cs_State snapshot = StateHalfOpen
                             \<or> cs_ConsecutiveFailures snapshot \<ge> br_failureThreshold b
                          then snapshot\<lparr>cs_State := StateOpen, cs_OpenedAt := Some now\<rparr> else snapshot)
          in (case bs_Put (br_store b) snapshot s of
                (Some e, s) \<Rightarrow> (Inl e, s)
              | (None, s) \<Rightarrow> (Inr snapshot, s)))"

section \<open>The specification\<close>

text \<open>A circuit is closed after some number of consecutive failures, open since a time, or
  probing after the cooldown.\<close>

datatype circuit = Closed int | Opened gotime | Probing

datatype breaker_op = DoAllow string gotime | DoSuccess string gotime | DoFailure string gotime

fun op_key :: "breaker_op \<Rightarrow> string" where
  "op_key (DoAllow k _) = k"
| "op_key (DoSuccess k _) = k"
| "op_key (DoFailure k _) = k"

fun circuit_step :: "int \<Rightarrow> duration \<Rightarrow> breaker_op \<Rightarrow> circuit \<Rightarrow> bool list \<times> circuit" where
  "circuit_step limit cooldown (DoAllow _ now) c =
     (case c of
        Opened t \<Rightarrow> if time_Sub now t \<ge> cooldown then ([True], Probing) else ([False], c)
      | _ \<Rightarrow> ([True], c))"
| "circuit_step limit cooldown (DoSuccess _ _) c = ([], Closed 0)"
| "circuit_step limit cooldown (DoFailure _ now) c =
     (case c of
        Closed n \<Rightarrow> ([], if n + 1 \<ge> limit then Opened now else Closed (n + 1))
      | _ \<Rightarrow> ([], Opened now))"

fun circuit_run :: "int \<Rightarrow> duration \<Rightarrow> breaker_op list \<Rightarrow> circuit \<Rightarrow> bool list \<times> circuit" where
  "circuit_run limit cooldown [] c = ([], c)"
| "circuit_run limit cooldown (x # xs) c =
     (let (ans, c') = circuit_step limit cooldown x c; (rest, c'') = circuit_run limit cooldown xs c'
      in (ans @ rest, c''))"

text \<open>The same operations on the breaker; the answers are those given for one key.\<close>

fun breaker_step :: "'s Breaker \<Rightarrow> breaker_op \<Rightarrow> 's \<Rightarrow> bool list \<times> 's" where
  "breaker_step b (DoAllow k now) s =
     (case Breaker_Allow b now k s of (Inl _, s') \<Rightarrow> ([], s') | (Inr (a, _), s') \<Rightarrow> ([a], s'))"
| "breaker_step b (DoSuccess k now) s = ([], snd (Breaker_Success b now k s))"
| "breaker_step b (DoFailure k now) s = ([], snd (Breaker_Failure b now k s))"

fun breaker_run :: "'s Breaker \<Rightarrow> string \<Rightarrow> breaker_op list \<Rightarrow> 's \<Rightarrow> bool list \<times> 's" where
  "breaker_run b k [] s = ([], s)"
| "breaker_run b k (x # xs) s =
     (let (ans, s') = breaker_step b x s; (rest, s'') = breaker_run b k xs s'
      in ((if op_key x = k then ans else []) @ rest, s''))"

section \<open>Refinement\<close>

definition circuit_rel :: "int \<Rightarrow> int \<Rightarrow> string \<Rightarrow> CircuitSnapshot \<Rightarrow> circuit \<Rightarrow> bool" where
  "circuit_rel limit bound k s c \<longleftrightarrow>
     cs_Key s = k \<and> 0 \<le> cs_ConsecutiveFailures s \<and> cs_ConsecutiveFailures s \<le> bound \<and>
     (case c of
        Closed n \<Rightarrow> cs_State s = StateClosed \<and> cs_ConsecutiveFailures s = n \<and> n < limit
      | Opened t \<Rightarrow> cs_State s = StateOpen \<and> cs_OpenedAt s = Some t \<and> limit \<le> cs_ConsecutiveFailures s
      | Probing \<Rightarrow> cs_State s = StateHalfOpen \<and> limit \<le> cs_ConsecutiveFailures s)"

definition snapshot_of :: "breaker_map \<Rightarrow> string \<Rightarrow> CircuitSnapshot" where
  "snapshot_of m k = projr (BreakerStore_Get k m)"

lemma Get_snapshot_of: "BreakerStore_Get k m = Inr (snapshot_of m k)"
  by (simp add: snapshot_of_def BreakerStore_Get_def split: option.splits)

lemma snapshot_of_put: "snapshot_of (gomap_put j s m) k = (if j = k then s else snapshot_of m k)"
  by (simp add: snapshot_of_def BreakerStore_Get_def gm.get_put)

lemmas breaker_defs = Breaker_Allow_def Breaker_Success_def Breaker_Failure_def breaker_memory_def
  BreakerStore_Put_def Get_snapshot_of

definition keyed :: "breaker_map \<Rightarrow> bool" where
  "keyed m \<longleftrightarrow> (\<forall>k. cs_Key (snapshot_of m k) = k)"

lemma step_other:
  assumes "op_key x \<noteq> k" and "keyed m" and "br_store b = breaker_memory"
  shows "snapshot_of (snd (breaker_step b x m)) k = snapshot_of m k"
  using assms
  by (cases x) (auto simp: breaker_defs keyed_def Let_def snapshot_of_put split: option.splits)

lemma step_keyed:
  assumes "keyed m" and "br_store b = breaker_memory"
  shows "keyed (snd (breaker_step b x m))"
  using assms
  by (cases x) (auto simp: breaker_defs keyed_def Let_def snapshot_of_put split: option.splits)

lemma step_same:
  assumes rel: "circuit_rel (br_failureThreshold b) bound k (snapshot_of m k) c"
    and key: "op_key x = k" "k \<noteq> []" and b: "br_store b = breaker_memory"
    and bound: "0 \<le> bound" "bound + 1 < 2 ^ 63" and limit: "0 < br_failureThreshold b"
  shows "fst (breaker_step b x m) = fst (circuit_step (br_failureThreshold b) (br_cooldown b) x c)"
    and "circuit_rel (br_failureThreshold b) (bound + 1) k (snapshot_of (snd (breaker_step b x m)) k)
           (snd (circuit_step (br_failureThreshold b) (br_cooldown b) x c))"
proof -
  have w: "wrap64 (cs_ConsecutiveFailures (snapshot_of m k) + 1) = cs_ConsecutiveFailures (snapshot_of m k) + 1"
    using rel bound by (intro wrap64_id) (simp add: circuit_rel_def i64_ok_def)
  show "fst (breaker_step b x m) = fst (circuit_step (br_failureThreshold b) (br_cooldown b) x c)"
    using rel key b
    by (cases x; cases c) (auto simp: breaker_defs circuit_rel_def Let_def split: option.splits)
  show "circuit_rel (br_failureThreshold b) (bound + 1) k (snapshot_of (snd (breaker_step b x m)) k)
           (snd (circuit_step (br_failureThreshold b) (br_cooldown b) x c))"
    using rel key b w bound limit
    by (cases x; cases c) (auto simp: breaker_defs circuit_rel_def Let_def snapshot_of_put split: option.splits)
qed

lemma run_refines:
  assumes "circuit_rel (br_failureThreshold b) bound k (snapshot_of m k) c" and "keyed m"
    and "k \<noteq> []" and "br_store b = breaker_memory" and "0 < br_failureThreshold b"
    and "0 \<le> bound" and "bound + int (length xs) < 2 ^ 63"
  shows "fst (breaker_run b k xs m) =
    fst (circuit_run (br_failureThreshold b) (br_cooldown b) (filter (\<lambda>x. op_key x = k) xs) c)"
  using assms
proof (induction xs arbitrary: m c bound)
  case (Cons x xs)
  let ?m = "snd (breaker_step b x m)"
  note keyed = step_keyed [OF Cons.prems(2,4), of x]
  show ?case
  proof (cases "op_key x = k")
    case True
    note st = step_same [OF Cons.prems(1) True Cons.prems(3,4,6) _ Cons.prems(5)]
    have "fst (breaker_run b k xs ?m) = fst (circuit_run (br_failureThreshold b) (br_cooldown b)
        (filter (\<lambda>x. op_key x = k) xs) (snd (circuit_step (br_failureThreshold b) (br_cooldown b) x c)))"
      by (rule Cons.IH [of "bound + 1"]) (use Cons.prems st(2) keyed in simp_all)
    with True st(1) Cons.prems(7) show ?thesis by (simp add: case_prod_beta Let_def)
  next
    case False
    have "circuit_rel (br_failureThreshold b) (bound + 1) k (snapshot_of ?m k) c"
      using Cons.prems(1) step_other [OF False Cons.prems(2,4)] by (simp add: circuit_rel_def)
    then have "fst (breaker_run b k xs ?m) =
        fst (circuit_run (br_failureThreshold b) (br_cooldown b) (filter (\<lambda>x. op_key x = k) xs) c)"
      by (rule Cons.IH) (use Cons.prems keyed in simp_all)
    with False show ?thesis by (simp add: case_prod_beta Let_def)
  qed
qed simp

lemma rel_start: "0 < limit \<Longrightarrow> circuit_rel limit 0 k (snapshot_of [] k) (Closed 0)"
  by (simp add: circuit_rel_def snapshot_of_def BreakerStore_Get_def gm.get_empty CircuitSnapshot_zero_def)

lemma keyed_start: "keyed []"
  by (simp add: keyed_def snapshot_of_def BreakerStore_Get_def gm.get_empty)

lemma NewBreaker_fields [simp]:
  "br_store (NewBreaker st n d) = st" "0 < br_failureThreshold (NewBreaker st n d)" "0 < br_cooldown (NewBreaker st n d)"
  by (simp_all add: NewBreaker_def Minute_def)

lemma run_refines_start:
  assumes "k \<noteq> []" and "int (length xs) < 2 ^ 63" and "b = NewBreaker breaker_memory n d"
  shows "fst (breaker_run b k xs []) =
    fst (circuit_run (br_failureThreshold b) (br_cooldown b) (filter (\<lambda>x. op_key x = k) xs) (Closed 0))"
  by (rule run_refines [OF rel_start keyed_start]) (use assms in simp_all)

text \<open>C15: The breaker refines the circuit automaton. For every sequence of Allow, Success and
  Failure calls on any keys and at any times, starting from an empty in-memory store, the answers
  Allow gives for one key are those of the three-state automaton (closed with a count of consecutive
  failures, open since a time, probing) run on the calls for that key alone: keys do not
  influence each other.\<close>

theorem breaker_refines_circuit:
  assumes "k \<noteq> []" and "int (length xs) < 2 ^ 63" and "b = NewBreaker breaker_memory n d"
  shows "fst (breaker_run b k xs []) =
    fst (circuit_run (br_failureThreshold b) (br_cooldown b) (filter (\<lambda>x. op_key x = k) xs) (Closed 0))"
  by (rule run_refines_start [OF assms])

definition demo_ops :: "breaker_op list" where
  "demo_ops = [DoFailure ''a'' 10, DoFailure ''b'' 11, DoAllow ''a'' 12, DoFailure ''a'' 13, DoAllow ''a'' 14,
               DoAllow ''b'' 15, DoAllow ''a'' 113, DoFailure ''a'' 114, DoAllow ''a'' 115, DoSuccess ''a'' 116, DoAllow ''a'' 117]"

theorem breaker_refines_circuit_witness:
  "fst (breaker_run (NewBreaker breaker_memory 2 100) ''a'' demo_ops []) = [True, False, True, False, True]"
proof -
  have l: "int (length demo_ops) < 2 ^ 63" by code_simp
  have "fst (circuit_run (br_failureThreshold (NewBreaker breaker_memory 2 100)) (br_cooldown (NewBreaker breaker_memory 2 100))
      (filter (\<lambda>x. op_key x = ''a'') demo_ops) (Closed 0)) = [True, False, True, False, True]"
    by code_simp
  then show ?thesis by (subst breaker_refines_circuit [OF _ l]) simp_all
qed

section \<open>Open circuits\<close>

lemma circuit_run_append:
  "circuit_run limit d (xs @ ys) c =
     (fst (circuit_run limit d xs c) @ fst (circuit_run limit d ys (snd (circuit_run limit d xs c))),
      snd (circuit_run limit d ys (snd (circuit_run limit d xs c))))"
  by (induction xs arbitrary: c) (simp_all add: case_prod_beta Let_def)

fun is_failure :: "breaker_op \<Rightarrow> bool" where
  "is_failure (DoFailure _ _) = True"
| "is_failure _ = False"

fun is_success :: "breaker_op \<Rightarrow> bool" where
  "is_success (DoSuccess _ _) = True"
| "is_success _ = False"

text \<open>Without a success, a closed circuit has counted every failure, and a circuit that has
  opened once never closes.\<close>

fun failing :: "int \<Rightarrow> int \<Rightarrow> circuit \<Rightarrow> bool" where
  "failing limit n (Closed m) \<longleftrightarrow> n \<le> m \<and> m < limit"
| "failing limit n _ \<longleftrightarrow> True"

lemma circuit_run_failing:
  assumes "\<forall>x\<in>set xs. \<not> is_success x" and "failing limit n c"
  shows "failing limit (n + int (length (filter is_failure xs))) (snd (circuit_run limit d xs c))"
  using assms
proof (induction xs arbitrary: n c)
  case (Cons x xs)
  have "failing limit (if is_failure x then n + 1 else n) (snd (circuit_step limit d x c))"
    using Cons.prems by (cases x; cases c) auto
  from Cons.IH [OF _ this] Cons.prems(1) show ?case
    by (cases "is_failure x") (simp_all add: case_prod_beta Let_def add.assoc)
qed simp

text \<open>Every circuit a run reaches has counted fewer failures than the limit while closed.\<close>

definition circuit_ok :: "int \<Rightarrow> circuit \<Rightarrow> bool" where
  "circuit_ok limit c \<longleftrightarrow> failing limit 0 c"

lemma circuit_run_ok: "0 < limit \<Longrightarrow> circuit_ok limit c \<Longrightarrow> circuit_ok limit (snd (circuit_run limit d xs c))"
proof (induction xs arbitrary: c)
  case (Cons x xs)
  then have "circuit_ok limit (snd (circuit_step limit d x c))" by (cases x; cases c) (auto simp: circuit_ok_def)
  with Cons show ?case by (simp add: case_prod_beta Let_def)
qed simp

lemma circuit_run_opens:
  assumes c: "circuit_ok limit c" and xs: "\<forall>x\<in>set xs. \<not> is_success x"
    and many: "limit \<le> int (length (filter is_failure (xs @ [DoFailure k t])))"
  shows "snd (circuit_run limit d (xs @ [DoFailure k t]) c) = Opened t"
proof -
  let ?c = "snd (circuit_run limit d xs c)"
  have "failing limit (int (length (filter is_failure xs))) ?c"
    using circuit_run_failing [OF xs, of limit 0 c d] c by (simp add: circuit_ok_def)
  then have "snd (circuit_step limit d (DoFailure k t) ?c) = Opened t" using many by (cases ?c) auto
  then show ?thesis by (simp add: circuit_run_append case_prod_beta Let_def)
qed

lemma circuit_run_blocked:
  assumes "\<forall>x\<in>set xs. \<exists>k now. x = DoAllow k now \<and> time_Sub now t < d"
  shows "circuit_run limit d xs (Opened t) = (replicate (length xs) False, Opened t)"
  using assms by (induction xs) auto

text \<open>C30: an open circuit blocks for the whole cooldown and then lets a call through. After any
  history of calls \<open>ps\<close>, let \<open>fs\<close> be calls that report no success for the key and report, a last
  failure at time \<open>t\<close> after them included, at least the threshold number of failures for it, with
  Allow calls for the key in between at will. Then every Allow for the key within the cooldown
  after \<open>t\<close> is refused, and the first one after the cooldown is granted, as long as no success
  and no further failure is reported for the key; calls on other keys may come anywhere.\<close>

theorem open_circuit_blocks:
  assumes b: "b = NewBreaker breaker_memory n d" and k: "k \<noteq> []"
    and len: "int (length (ps @ fs @ [DoFailure k t] @ as @ [DoAllow k now])) < 2 ^ 63"
    and fs: "\<forall>x\<in>set fs. op_key x = k \<longrightarrow> \<not> is_success x"
    and many: "br_failureThreshold b \<le> 1 + int (length (filter (\<lambda>x. op_key x = k \<and> is_failure x) fs))"
    and as: "\<forall>x\<in>set as. op_key x = k \<longrightarrow> (\<exists>u. x = DoAllow k u \<and> time_Sub u t < br_cooldown b)"
    and late: "br_cooldown b \<le> time_Sub now t"
  shows "fst (breaker_run b k (ps @ fs @ [DoFailure k t] @ as @ [DoAllow k now]) []) =
    fst (breaker_run b k (ps @ fs) []) @ replicate (length (filter (\<lambda>x. op_key x = k) as)) False @ [True]"
proof -
  let ?on = "filter (\<lambda>x. op_key x = k)"
  let ?run = "circuit_run (br_failureThreshold b) (br_cooldown b)"
  let ?c = "snd (?run (?on ps) (Closed 0))"
  have pos: "0 < br_failureThreshold b" using b by simp
  then have c: "circuit_ok (br_failureThreshold b) ?c" by (intro circuit_run_ok) (simp_all add: circuit_ok_def)
  have "filter is_failure (?on fs) = filter (\<lambda>x. op_key x = k \<and> is_failure x) fs"
    by (simp add: conj_commute)
  then have "br_failureThreshold b \<le> int (length (filter is_failure (?on fs @ [DoFailure k t])))"
    using many by simp
  then have o: "snd (?run (?on fs @ [DoFailure k t]) ?c) = Opened t"
    using fs by (intro circuit_run_opens [OF c]) auto
  have e: "fst (?run (?on fs @ [DoFailure k t]) ?c) = fst (?run (?on fs) ?c)"
    by (simp add: circuit_run_append case_prod_beta Let_def split: circuit.splits)
  have a: "?run (?on as) (Opened t) = (replicate (length (?on as)) False, Opened t)"
  proof (intro circuit_run_blocked ballI)
    fix x assume "x \<in> set (?on as)"
    then have "x \<in> set as" "op_key x = k" by simp_all
    with as show "\<exists>k now. x = DoAllow k now \<and> time_Sub now t < br_cooldown b" by blast
  qed
  have len': "int (length (ps @ fs)) < 2 ^ 63" using len by simp
  have "fst (breaker_run b k (ps @ fs @ [DoFailure k t] @ as @ [DoAllow k now]) []) =
      fst (?run (?on ps @ (?on fs @ [DoFailure k t]) @ ?on as @ [DoAllow k now]) (Closed 0))"
    unfolding run_refines_start [OF k len b] by simp
  also have "\<dots> = fst (?run (?on ps) (Closed 0)) @ fst (?run (?on fs) ?c) @ replicate (length (?on as)) False @ [True]"
    unfolding circuit_run_append [of _ _ "?on ps"] circuit_run_append [of _ _ "?on fs @ [DoFailure k t]"]
      circuit_run_append [of _ _ "?on as"] fst_conv snd_conv o e a
    using late by simp
  also have "\<dots> = fst (breaker_run b k (ps @ fs) []) @ replicate (length (?on as)) False @ [True]"
    unfolding run_refines_start [OF k len' b] by (simp add: circuit_run_append)
  finally show ?thesis .
qed

theorem open_circuit_blocks_witness:
  "fst (breaker_run (NewBreaker breaker_memory 2 100) ''a''
     ([DoFailure ''a'' 1, DoSuccess ''a'' 2] @ [DoAllow ''a'' 9, DoFailure ''a'' 10, DoSuccess ''b'' 11, DoAllow ''a'' 12] @
      [DoFailure ''a'' 13] @ [DoAllow ''a'' 14, DoFailure ''b'' 15, DoAllow ''a'' 112] @ [DoAllow ''a'' 113]) []) =
   [True, True, False, False, True]"
proof -
  let ?b = "NewBreaker breaker_memory 2 100"
  let ?ps = "[DoFailure ''a'' 1, DoSuccess ''a'' 2]"
  let ?fs = "[DoAllow ''a'' 9, DoFailure ''a'' 10, DoSuccess ''b'' 11, DoAllow ''a'' 12]"
  let ?as = "[DoAllow ''a'' 14, DoFailure ''b'' 15, DoAllow ''a'' 112]"
  have "fst (breaker_run ?b ''a'' (?ps @ ?fs) []) = [True, True]" by code_simp
  moreover have "replicate (length (filter (\<lambda>x. op_key x = ''a'') ?as)) False @ [True] = [False, False, True]" by simp
  ultimately show ?thesis
    using open_circuit_blocks [of ?b 2 100 "''a''" ?ps ?fs 13 ?as 113]
    by (simp add: NewBreaker_def time_Sub_def)
qed

end
