(* ===== verification/Domain_Types.thy ===== *)
theory Domain_Types
  imports Go_Float Go_Errors
begin

text \<open>
  The data of package domain (src/internal/domain): models, deployments, tasks, route
  decisions and cost events, with the conventions of the execution types: string
  enumerations are datatypes with a constructor for every other string, pointers are
  options, times are nanoseconds since the zero time.
\<close>

section \<open>Enumerations\<close>

datatype ModelLifecycle =
    ModelDraft | ModelActive | ModelDegraded | ModelDeprecated | ModelRetired | ModelRevoked
  | ModelLifecycleOther string

datatype HealthStatus =
    HealthUnknown | HealthHealthy | HealthDegraded | HealthUnhealthy | HealthStatusOther string

datatype ApprovalStatus =
    ApprovalDiscovered | ApprovalEvidenceCollected | ApprovalReviewed | ApprovalApproved
  | ApprovalRestricted | ApprovalRejected | ApprovalRevoked | ApprovalStatusOther string

datatype DeploymentMode =
    DeploymentPublicAPI | DeploymentEnterpriseAPI | DeploymentPrivateEndpoint
  | DeploymentSelfHosted | DeploymentLocal | DeploymentModeOther string

datatype InferenceEffort = EffortMinimal | EffortLow | EffortMedium | EffortHigh | InferenceEffortOther string

datatype ServiceTier = TierStandard | TierPriority | TierBatch | TierProvisioned | ServiceTierOther string

datatype TaskStatus =
    TaskCreated | TaskPlanning | TaskRouting | TaskExecuting | TaskWaitingApproval | TaskValidating
  | TaskCompleted | TaskFailed | TaskCancelled | TaskExpired | TaskStatusOther string

datatype RouteClass =
    RouteDeterministic | RouteEfficient | RouteSpecialist | RouteFlagship | RouteClassOther string

datatype CostComponent =
    CostModelInput | CostModelOutput | CostModelCache | CostServiceTier | CostTool | CostWorkflow
  | CostSandbox | CostStorage | CostNetwork | CostRetry | CostEvaluation | CostHumanReview
  | CostComponentOther string

datatype DeploymentLifecycle =
    DeploymentDiscovered | DeploymentReady | DeploymentDegraded | DeploymentDraining
  | DeploymentRetired | DeploymentBlocked | DeploymentLifecycleOther string

fun TaskStatus_str :: "TaskStatus \<Rightarrow> string" where
  "TaskStatus_str TaskCreated = ''CREATED''"
| "TaskStatus_str TaskPlanning = ''PLANNING''"
| "TaskStatus_str TaskRouting = ''ROUTING''"
| "TaskStatus_str TaskExecuting = ''EXECUTING''"
| "TaskStatus_str TaskWaitingApproval = ''WAITING_APPROVAL''"
| "TaskStatus_str TaskValidating = ''VALIDATING''"
| "TaskStatus_str TaskCompleted = ''COMPLETED''"
| "TaskStatus_str TaskFailed = ''FAILED''"
| "TaskStatus_str TaskCancelled = ''CANCELLED''"
| "TaskStatus_str TaskExpired = ''EXPIRED''"
| "TaskStatus_str (TaskStatusOther s) = s"

fun DeploymentLifecycle_str :: "DeploymentLifecycle \<Rightarrow> string" where
  "DeploymentLifecycle_str DeploymentDiscovered = ''discovered''"
| "DeploymentLifecycle_str DeploymentReady = ''ready''"
| "DeploymentLifecycle_str DeploymentDegraded = ''degraded''"
| "DeploymentLifecycle_str DeploymentDraining = ''draining''"
| "DeploymentLifecycle_str DeploymentRetired = ''retired''"
| "DeploymentLifecycle_str DeploymentBlocked = ''blocked''"
| "DeploymentLifecycle_str (DeploymentLifecycleOther s) = s"

section \<open>Models and deployments\<close>

record LicenseEvidence =
  le_LicenseID :: string
  le_LicenseTextRef :: string
  le_UpstreamModel :: string
  le_CommercialUseAllowed :: bool
  le_HostedServiceAllowed :: bool
  le_RedistributionAllowed :: bool
  le_NoticeRequired :: bool
  le_Reviewer :: string
  le_ReviewedAt :: "gotime option"

record ModelProvenance =
  mp_Source :: string
  mp_BaseModels :: "string list"
  mp_Datasets :: "string list"
  mp_FineTunings :: "string list"
  mp_BuildProcess :: string

record PricingProfile =
  pp_Currency :: string
  pp_InputPerMillion :: f64
  pp_OutputPerMillion :: f64
  pp_CachedPerMillion :: f64
  pp_ServiceTierFactor :: f64

record Model =
  md_ID :: string
  md_Name :: string
  md_Version :: string
  md_Provider :: string
  md_Endpoint :: string
  md_DeploymentMode :: DeploymentMode
  md_Lifecycle :: ModelLifecycle
  md_Capabilities :: "string list"
  md_Pricing :: PricingProfile
  md_Health :: HealthStatus
  md_HealthCheckedAt :: "gotime option"
  md_P95LatencyMS :: int
  md_ErrorRate :: f64
  md_QuotaRemaining :: int
  md_CapacityAvailable :: int
  md_QueueDepth :: int
  md_ServiceTiers :: "ServiceTier list"
  md_InferenceEfforts :: "InferenceEffort list"
  md_EvaluationVersion :: string
  md_License :: string
  md_LicenseEvidence :: LicenseEvidence
  md_Provenance :: ModelProvenance
  md_ArtifactDigest :: string
  md_ApprovalStatus :: ApprovalStatus
  md_RiskLevel :: string
  md_DataResidency :: string
  md_CreatedAt :: gotime
  md_UpdatedAt :: gotime

record ModelVersion =
  mv_ID :: string
  mv_Name :: string
  mv_Version :: string
  mv_Lifecycle :: ModelLifecycle
  mv_Capabilities :: "string list"
  mv_EvaluationVersion :: string
  mv_License :: string
  mv_LicenseEvidence :: LicenseEvidence
  mv_Provenance :: ModelProvenance
  mv_ArtifactDigest :: string
  mv_ApprovalStatus :: ApprovalStatus
  mv_RiskLevel :: string
  mv_CreatedAt :: gotime
  mv_UpdatedAt :: gotime

record Deployment =
  dp_ID :: string
  dp_ModelVersionID :: string
  dp_ModelID :: string
  dp_ModelVersion :: string
  dp_Provider :: string
  dp_Endpoint :: string
  dp_Mode :: DeploymentMode
  dp_Region :: string
  dp_DataResidency :: string
  dp_Runtime :: string
  dp_Quantization :: string
  dp_PricingPolicyRef :: string
  dp_Pricing :: PricingProfile
  dp_Health :: HealthStatus
  dp_HealthCheckedAt :: "gotime option"
  dp_P95LatencyMS :: int
  dp_ErrorRate :: f64
  dp_QuotaRemaining :: int
  dp_CapacityAvailable :: int
  dp_QueueDepth :: int
  dp_ServiceTiers :: "ServiceTier list"
  dp_InferenceEfforts :: "InferenceEffort list"
  dp_Lifecycle :: DeploymentLifecycle
  dp_RoutingEligible :: bool
  dp_Owner :: string
  dp_PolicyRef :: string
  dp_ReplacementIDs :: "string list"
  dp_CreatedAt :: gotime
  dp_UpdatedAt :: gotime

record DeploymentLifecycleEvent =
  dl_ID :: string
  dl_DeploymentID :: string
  dl_From :: DeploymentLifecycle
  dl_To :: DeploymentLifecycle
  dl_AnnouncedAt :: "gotime option"
  dl_EffectiveAt :: gotime
  dl_EvidenceRef :: string
  dl_ReplacementIDs :: "string list"
  dl_QuotaRemaining :: "int option"
  dl_RateLimitRef :: string
  dl_RoutingEligible :: bool
  dl_MigrationState :: string
  dl_CreatedAt :: gotime

section \<open>Tasks, routes and costs\<close>

record Task =
  tk_ID :: string
  tk_TenantID :: string
  tk_ProjectID :: string
  tk_CreatedBy :: string
  tk_AgentID :: string
  tk_Input :: string
  tk_Status :: TaskStatus
  tk_Version :: int
  tk_Result :: string
  tk_Cost :: f64
  tk_EstimatedCost :: f64
  tk_ActualCost :: f64
  tk_Currency :: string
  tk_RouteDecisionID :: string
  tk_TraceID :: string
  tk_CreatedAt :: gotime
  tk_UpdatedAt :: gotime
  tk_CompletedAt :: "gotime option"

record RouteCandidate =
  rc_ModelID :: string
  rc_ModelVersion :: string
  rc_DeploymentID :: string
  rc_RouteClass :: RouteClass
  rc_InferenceEffort :: InferenceEffort
  rc_ServiceTier :: ServiceTier
  rc_EstimatedCost :: f64
  rc_Score :: f64
  rc_RejectionReasons :: "string list"

record RouteDecision =
  rd_ID :: string
  rd_TaskID :: string
  rd_Selected :: RouteCandidate
  rd_Candidates :: "RouteCandidate list"
  rd_Reason :: string
  rd_FallbackChain :: "RouteCandidate list"
  rd_EvidenceVersion :: string
  rd_PolicyVersion :: string
  rd_CreatedAt :: gotime

record CostEvent =
  ce_ID :: string
  ce_TaskID :: string
  ce_TraceID :: string
  ce_Component :: CostComponent
  ce_Provider :: string
  ce_ModelID :: string
  ce_ModelVersion :: string
  ce_DeploymentID :: string
  ce_Quantity :: f64
  ce_Unit :: string
  ce_UnitPrice :: f64
  ce_Amount :: f64
  ce_Currency :: string
  ce_Attempt :: int
  ce_Metadata :: "(string, string) gomap"
  ce_CreatedAt :: gotime

section \<open>Model versions and the legacy model\<close>

definition PricingProfile_zero :: PricingProfile where
  "PricingProfile_zero =
     \<lparr>pp_Currency = [], pp_InputPerMillion = Fin 0, pp_OutputPerMillion = Fin 0, pp_CachedPerMillion = Fin 0,
      pp_ServiceTierFactor = Fin 0\<rparr>"

definition ModelVersionFromLegacy :: "Model \<Rightarrow> ModelVersion" where
  "ModelVersionFromLegacy m =
     \<lparr>mv_ID = md_ID m, mv_Name = md_Name m, mv_Version = md_Version m, mv_Lifecycle = md_Lifecycle m,
      mv_Capabilities = md_Capabilities m, mv_EvaluationVersion = md_EvaluationVersion m,
      mv_License = md_License m, mv_LicenseEvidence = md_LicenseEvidence m, mv_Provenance = md_Provenance m,
      mv_ArtifactDigest = md_ArtifactDigest m, mv_ApprovalStatus = md_ApprovalStatus m,
      mv_RiskLevel = md_RiskLevel m, mv_CreatedAt = md_CreatedAt m, mv_UpdatedAt = md_UpdatedAt m\<rparr>"

definition LegacyModel :: "DeploymentMode \<Rightarrow> ModelVersion \<Rightarrow> Model" where
  "LegacyModel mode v =
     \<lparr>md_ID = mv_ID v, md_Name = mv_Name v, md_Version = mv_Version v, md_Provider = [], md_Endpoint = [],
      md_DeploymentMode = mode, md_Lifecycle = mv_Lifecycle v, md_Capabilities = mv_Capabilities v,
      md_Pricing = PricingProfile_zero, md_Health = HealthStatusOther [], md_HealthCheckedAt = None,
      md_P95LatencyMS = 0, md_ErrorRate = Fin 0, md_QuotaRemaining = 0, md_CapacityAvailable = 0,
      md_QueueDepth = 0, md_ServiceTiers = [], md_InferenceEfforts = [],
      md_EvaluationVersion = mv_EvaluationVersion v, md_License = mv_License v,
      md_LicenseEvidence = mv_LicenseEvidence v, md_Provenance = mv_Provenance v,
      md_ArtifactDigest = mv_ArtifactDigest v, md_ApprovalStatus = mv_ApprovalStatus v,
      md_RiskLevel = mv_RiskLevel v, md_DataResidency = [], md_CreatedAt = mv_CreatedAt v,
      md_UpdatedAt = mv_UpdatedAt v\<rparr>"

lemma ModelVersion_roundtrip: "ModelVersionFromLegacy (LegacyModel mode v) = v"
  by (cases v) (simp add: ModelVersionFromLegacy_def LegacyModel_def)

end
