(* ===== verification/Go_Json.thy ===== *)
theory Go_Json
  imports Go_Prelude
begin

text \<open>
  The validity test of encoding/json: the scanner's step functions as a state machine
  over the bytes of the document. The parse state is the stack of enclosing objects and
  arrays, at most 10000 deep. The scan fails at the first byte the current step refuses.
\<close>

datatype json_nest = parseObjectKey | parseObjectValue | parseArrayValue

datatype json_scan =
    BeginValue | BeginValueOrEmpty | BeginString | BeginStringOrEmpty | EndValue | EndTop
  | InString | InStringEsc | InStringEscU nat | InNeg | In1 | In0 | InDot | InDot0 | InE | InESign | InE0
  | InLiteral string

type_synonym json_state = "json_scan \<times> json_nest list"

definition json_space :: "char \<Rightarrow> bool" where
  "json_space c \<longleftrightarrow> c = CHR 0x20 \<or> c = CHR 0x09 \<or> c = CHR 0x0D \<or> c = CHR 0x0A"

definition json_digit :: "char \<Rightarrow> bool" where
  "json_digit c \<longleftrightarrow> c \<in> set ''0123456789''"

definition json_hex :: "char \<Rightarrow> bool" where
  "json_hex c \<longleftrightarrow> c \<in> set ''0123456789abcdefABCDEF''"

definition maxNestingDepth :: int where
  "maxNestingDepth = 10000"

definition json_push :: "json_nest \<Rightarrow> json_scan \<Rightarrow> json_nest list \<Rightarrow> json_state option" where
  "json_push p q ps = (if int (length ps) < maxNestingDepth then Some (q, p # ps) else None)"

definition json_pop :: "json_nest list \<Rightarrow> json_state" where
  "json_pop ps = (if ps = [] then EndTop else EndValue, ps)"

definition stateEndTop :: "char \<Rightarrow> json_state option" where
  "stateEndTop c = (if json_space c then Some (EndTop, []) else None)"

definition stateEndValue :: "json_nest list \<Rightarrow> char \<Rightarrow> json_state option" where
  "stateEndValue st c =
     (case st of
        [] \<Rightarrow> stateEndTop c
      | p # ps \<Rightarrow>
          if json_space c then Some (EndValue, st)
          else (case p of
                  parseObjectKey \<Rightarrow>
                    if c = CHR '':'' then Some (BeginValue, parseObjectValue # ps) else None
                | parseObjectValue \<Rightarrow>
                    if c = CHR '','' then Some (BeginString, parseObjectKey # ps)
                    else if c = CHR ''}'' then Some (json_pop ps) else None
                | parseArrayValue \<Rightarrow>
                    if c = CHR '','' then Some (BeginValue, parseArrayValue # ps)
                    else if c = CHR '']'' then Some (json_pop ps) else None))"

definition stateBeginValue :: "json_nest list \<Rightarrow> char \<Rightarrow> json_state option" where
  "stateBeginValue st c =
     (if json_space c then Some (BeginValue, st)
      else if c = CHR ''{'' then json_push parseObjectKey BeginStringOrEmpty st
      else if c = CHR ''['' then json_push parseArrayValue BeginValueOrEmpty st
      else if c = CHR 0x22 then Some (InString, st)
      else if c = CHR ''-'' then Some (InNeg, st)
      else if c = CHR ''0'' then Some (In0, st)
      else if c = CHR ''t'' then Some (InLiteral ''rue'', st)
      else if c = CHR ''f'' then Some (InLiteral ''alse'', st)
      else if c = CHR ''n'' then Some (InLiteral ''ull'', st)
      else if json_digit c then Some (In1, st) else None)"

definition stateBeginString :: "json_nest list \<Rightarrow> char \<Rightarrow> json_state option" where
  "stateBeginString st c =
     (if json_space c then Some (BeginString, st)
      else if c = CHR 0x22 then Some (InString, st) else None)"

definition json_exponent :: "char \<Rightarrow> bool" where
  "json_exponent c \<longleftrightarrow> c = CHR ''e'' \<or> c = CHR ''E''"

definition state0 :: "json_nest list \<Rightarrow> char \<Rightarrow> json_state option" where
  "state0 st c =
     (if c = CHR ''.'' then Some (InDot, st)
      else if json_exponent c then Some (InE, st) else stateEndValue st c)"

fun json_step :: "json_state \<Rightarrow> char \<Rightarrow> json_state option" where
  "json_step (BeginValue, st) c = stateBeginValue st c"
| "json_step (BeginValueOrEmpty, st) c =
     (if json_space c then Some (BeginValueOrEmpty, st)
      else if c = CHR '']'' then stateEndValue st c else stateBeginValue st c)"
| "json_step (BeginString, st) c = stateBeginString st c"
| "json_step (BeginStringOrEmpty, st) c =
     (if json_space c then Some (BeginStringOrEmpty, st)
      else if c = CHR ''}'' then stateEndValue (parseObjectValue # tl st) c else stateBeginString st c)"
| "json_step (EndValue, st) c = stateEndValue st c"
| "json_step (EndTop, st) c = stateEndTop c"
| "json_step (InString, st) c =
     (if c = CHR 0x22 then Some (EndValue, st)
      else if c = CHR 0x5C then Some (InStringEsc, st)
      else if of_char c < (0x20::int) then None else Some (InString, st))"
| "json_step (InStringEsc, st) c =
     (if c \<in> set ''bfnrt/'' \<or> c = CHR 0x5C \<or> c = CHR 0x22 then Some (InString, st)
      else if c = CHR ''u'' then Some (InStringEscU 3, st) else None)"
| "json_step (InStringEscU n, st) c =
     (if json_hex c then Some (case n of 0 \<Rightarrow> InString | Suc k \<Rightarrow> InStringEscU k, st) else None)"
| "json_step (InNeg, st) c =
     (if c = CHR ''0'' then Some (In0, st) else if json_digit c then Some (In1, st) else None)"
| "json_step (In1, st) c = (if json_digit c then Some (In1, st) else state0 st c)"
| "json_step (In0, st) c = state0 st c"
| "json_step (InDot, st) c = (if json_digit c then Some (InDot0, st) else None)"
| "json_step (InDot0, st) c =
     (if json_digit c then Some (InDot0, st)
      else if json_exponent c then Some (InE, st) else stateEndValue st c)"
| "json_step (InE, st) c =
     (if c = CHR ''+'' \<or> c = CHR ''-'' then Some (InESign, st)
      else if json_digit c then Some (InE0, st) else None)"
| "json_step (InESign, st) c = (if json_digit c then Some (InE0, st) else None)"
| "json_step (InE0, st) c = (if json_digit c then Some (InE0, st) else stateEndValue st c)"
| "json_step (InLiteral s, st) c =
     (case s of
        [] \<Rightarrow> None
      | d # r \<Rightarrow> if c = d then Some (if r = [] then EndValue else InLiteral r, st) else None)"

fun json_scan_from :: "json_state \<Rightarrow> string \<Rightarrow> json_state option" where
  "json_scan_from q [] = Some q"
| "json_scan_from q (c # s) = Option.bind (json_step q c) (\<lambda>q'. json_scan_from q' s)"

text \<open>At the end of the document the scanner accepts when it is past the top-level value
  or when a space takes it there.\<close>

definition json_eof :: "json_state \<Rightarrow> bool" where
  "json_eof q \<longleftrightarrow>
     fst q = EndTop \<or> (case json_step q (CHR 0x20) of None \<Rightarrow> False | Some q' \<Rightarrow> fst q' = EndTop)"

definition json_Valid :: "string \<Rightarrow> bool" where
  "json_Valid s = (case json_scan_from (BeginValue, []) s of None \<Rightarrow> False | Some q \<Rightarrow> json_eof q)"

lemma json_scan_append:
  "json_scan_from q (s @ t) = Option.bind (json_scan_from q s) (\<lambda>q'. json_scan_from q' t)"
  by (induction s arbitrary: q) simp_all

lemma json_Valid_nonempty: "json_Valid s \<Longrightarrow> s \<noteq> []"
  by (auto simp: json_Valid_def json_eof_def stateBeginValue_def json_space_def)

lemma json_Valid_object: "json_Valid ''{}''"
  by code_simp

lemma json_Valid_array: "json_Valid '' [1, -2.5e+3, true, null] ''"
  by code_simp

end
