(* ===== verification/Task_Domain.thy ===== *)
theory Task_Domain
  imports Domain_Types Go_Json "HOL-Library.Sublist"
begin

text \<open>
  The task aggregate (task_aggregate.go): construction, the transition table and the
  transition itself, and the records of task_event.go with their validators. A task's
  life is a sequence of transition commands applied to a new task; the theorem about it
  says which histories a task can have.
\<close>

section \<open>The aggregate\<close>

definition ErrInvalidTaskTransition :: goerr where
  "ErrInvalidTaskTransition = ErrNew ''invalid task transition''"

definition ErrTaskTerminal :: goerr where
  "ErrTaskTerminal = ErrNew ''task is terminal''"

definition ErrTransitionActor :: goerr where
  "ErrTransitionActor = ErrNew ''task transition actor is required''"

definition ErrTransitionCause :: goerr where
  "ErrTransitionCause = ErrNew ''task transition cause is required''"

definition ErrTransitionTime :: goerr where
  "ErrTransitionTime = ErrNew ''task transition time is required''"

record TaskTransitionCommand =
  tc_To :: TaskStatus
  tc_Actor :: string
  tc_Cause :: string
  tc_At :: gotime

record TaskTransition =
  tt_From :: TaskStatus
  tt_To :: TaskStatus
  tt_Actor :: string
  tt_Cause :: string
  tt_At :: gotime

record NewTaskParams =
  ntp_ID :: string
  ntp_AgentID :: string
  ntp_Input :: string
  ntp_TraceID :: string
  ntp_Currency :: string
  ntp_Now :: gotime

definition NewTask :: "NewTaskParams \<Rightarrow> goerr + Task" where
  "NewTask params =
     (if TrimSpace (ntp_ID params) = [] then Inl (Errorf ''task id is required'' [])
      else if TrimSpace (ntp_Input params) = [] then Inl (Errorf ''task input is required'' [])
      else if time_IsZero (ntp_Now params) then Inl (Errorf ''task creation time is required'' [])
      else let currency = TrimSpace (ntp_Currency params);
               currency = (if currency = [] then ''USD'' else currency)
           in Inr \<lparr>tk_ID = TrimSpace (ntp_ID params), tk_TenantID = [], tk_ProjectID = [], tk_CreatedBy = [],
                   tk_AgentID = TrimSpace (ntp_AgentID params), tk_Input = ntp_Input params,
                   tk_Status = TaskCreated, tk_Version = 1, tk_Result = [], tk_Cost = Fin 0,
                   tk_EstimatedCost = Fin 0, tk_ActualCost = Fin 0, tk_Currency = currency,
                   tk_RouteDecisionID = [], tk_TraceID = TrimSpace (ntp_TraceID params),
                   tk_CreatedAt = ntp_Now params, tk_UpdatedAt = ntp_Now params, tk_CompletedAt = None\<rparr>)"

definition status_terminal :: "TaskStatus \<Rightarrow> bool" where
  "status_terminal s = (case s of TaskCompleted \<Rightarrow> True | TaskFailed \<Rightarrow> True | TaskCancelled \<Rightarrow> True
                        | TaskExpired \<Rightarrow> True | _ \<Rightarrow> False)"

definition Task_IsTerminal :: "Task \<Rightarrow> bool" where
  "Task_IsTerminal t = status_terminal (tk_Status t)"

definition isKnownNonTerminal :: "TaskStatus \<Rightarrow> bool" where
  "isKnownNonTerminal s =
     (case s of TaskCreated \<Rightarrow> True | TaskPlanning \<Rightarrow> True | TaskRouting \<Rightarrow> True | TaskExecuting \<Rightarrow> True
      | TaskWaitingApproval \<Rightarrow> True | TaskValidating \<Rightarrow> True | _ \<Rightarrow> False)"

definition Task_CanTransition :: "Task \<Rightarrow> TaskStatus \<Rightarrow> bool" where
  "Task_CanTransition t to =
     (if Task_IsTerminal t then False
      else if to = TaskFailed \<or> to = TaskCancelled \<or> to = TaskExpired then isKnownNonTerminal (tk_Status t)
      else (case tk_Status t of
              TaskCreated \<Rightarrow> to = TaskPlanning
            | TaskPlanning \<Rightarrow> to = TaskRouting
            | TaskRouting \<Rightarrow> to = TaskExecuting
            | TaskExecuting \<Rightarrow> to = TaskWaitingApproval \<or> to = TaskValidating
            | TaskWaitingApproval \<Rightarrow> to = TaskExecuting
            | TaskValidating \<Rightarrow> to = TaskCompleted
            | _ \<Rightarrow> False))"

text \<open>The pointer receiver is an option: nil is \<^term>\<open>None\<close>. The second component is the
  task after the call.\<close>

definition Task_Transition ::
  "Task option \<Rightarrow> TaskTransitionCommand \<Rightarrow> (goerr + TaskTransition) \<times> Task option" where
  "Task_Transition p command =
     (case p of
        None \<Rightarrow> (Inl (Errorf ''%w: nil task'' [ErrInvalidTaskTransition]), None)
      | Some t \<Rightarrow>
          let actor = TrimSpace (tc_Actor command); cause = TrimSpace (tc_Cause command) in
          if actor = [] then (Inl ErrTransitionActor, p)
          else if cause = [] then (Inl ErrTransitionCause, p)
          else if time_IsZero (tc_At command) then (Inl ErrTransitionTime, p)
          else if Task_IsTerminal t then
            (Inl (Errorf (''%w: '' @ TaskStatus_str (tk_Status t)) [ErrTaskTerminal]), p)
          else if \<not> Task_CanTransition t (tc_To command) then
            (Inl (Errorf (''%w: '' @ TaskStatus_str (tk_Status t) @ '' -> '' @ TaskStatus_str (tc_To command))
                    [ErrInvalidTaskTransition]), p)
          else let transition = \<lparr>tt_From = tk_Status t, tt_To = tc_To command, tt_Actor = actor,
                                 tt_Cause = cause, tt_At = tc_At command\<rparr>;
                   t = t\<lparr>tk_Status := tc_To command, tk_UpdatedAt := tc_At command\<rparr>;
                   t = (if Task_IsTerminal t then t\<lparr>tk_CompletedAt := Some (tc_At command)\<rparr> else t)
               in (Inr transition, Some t))"

section \<open>Events, outbox messages and idempotency records\<close>

definition ErrInvalidTaskEvent :: goerr where
  "ErrInvalidTaskEvent = ErrNew ''invalid task event''"

definition ErrInvalidOutboxMessage :: goerr where
  "ErrInvalidOutboxMessage = ErrNew ''invalid outbox message''"

definition ErrInvalidIdempotencyRecord :: goerr where
  "ErrInvalidIdempotencyRecord = ErrNew ''invalid idempotency record''"

record TaskEventActor =
  ta_PrincipalType :: string
  ta_SubjectID :: string

record TaskEvent =
  te_EventID :: string
  te_TenantID :: string
  te_ProjectID :: string
  te_TaskID :: string
  te_Sequence :: int
  te_EventType :: string
  te_Actor :: TaskEventActor
  te_Payload :: string
  te_RequestID :: string
  te_TraceID :: string
  te_SchemaVersion :: int
  te_OccurredAt :: gotime
  te_CreatedAt :: gotime

definition blank :: "string \<Rightarrow> bool" where
  "blank s \<longleftrightarrow> TrimSpace s = []"

definition TaskEvent_Validate :: "TaskEvent \<Rightarrow> goerr option" where
  "TaskEvent_Validate e =
     (if blank (te_EventID e) \<or> blank (te_TenantID e) \<or> blank (te_ProjectID e) \<or> blank (te_TaskID e)
         \<or> blank (te_EventType e) \<or> blank (te_TraceID e) then Some ErrInvalidTaskEvent
      else if te_Sequence e < 1 \<or> te_SchemaVersion e < 1 \<or> time_IsZero (te_OccurredAt e)
              \<or> time_IsZero (te_CreatedAt e) then Some ErrInvalidTaskEvent
      else if blank (ta_PrincipalType (te_Actor e)) \<or> blank (ta_SubjectID (te_Actor e))
        then Some ErrInvalidTaskEvent
      else if length (te_Payload e) = 0 \<or> \<not> json_Valid (te_Payload e)
        then Some (Errorf ''%w: payload must be valid JSON'' [ErrInvalidTaskEvent])
      else None)"

fun CanonicalTaskStateEvent :: "TaskStatus \<Rightarrow> string option" where
  "CanonicalTaskStateEvent TaskCreated = Some ''TaskCreated''"
| "CanonicalTaskStateEvent TaskPlanning = Some ''TaskPlanningStarted''"
| "CanonicalTaskStateEvent TaskRouting = Some ''TaskRoutingStarted''"
| "CanonicalTaskStateEvent TaskExecuting = Some ''TaskExecutionStarted''"
| "CanonicalTaskStateEvent TaskWaitingApproval = Some ''TaskApprovalRequested''"
| "CanonicalTaskStateEvent TaskValidating = Some ''TaskValidationStarted''"
| "CanonicalTaskStateEvent TaskCompleted = Some ''TaskCompleted''"
| "CanonicalTaskStateEvent TaskFailed = Some ''TaskFailed''"
| "CanonicalTaskStateEvent TaskCancelled = Some ''TaskCancelled''"
| "CanonicalTaskStateEvent TaskExpired = Some ''TaskExpired''"
| "CanonicalTaskStateEvent (TaskStatusOther _) = None"

datatype OutboxStatus =
    OutboxPending | OutboxDelivering | OutboxDelivered | OutboxDeadLetter | OutboxStatusOther string

record OutboxMessage =
  om_OutboxID :: string
  om_TenantID :: string
  om_ProjectID :: string
  om_TaskID :: string
  om_AggregateType :: string
  om_AggregateID :: string
  om_EventType :: string
  om_Payload :: string
  om_Destination :: string
  om_IdempotencyKey :: string
  om_Status :: OutboxStatus
  om_Attempts :: int
  om_AvailableAt :: gotime
  om_CreatedAt :: gotime
  om_DeliveredAt :: "gotime option"

definition OutboxMessage_Validate :: "OutboxMessage \<Rightarrow> goerr option" where
  "OutboxMessage_Validate m =
     (if blank (om_OutboxID m) \<or> blank (om_TenantID m) \<or> blank (om_ProjectID m) \<or> blank (om_AggregateType m)
         \<or> blank (om_AggregateID m) \<or> blank (om_EventType m) \<or> blank (om_Destination m)
         \<or> blank (om_IdempotencyKey m) then Some ErrInvalidOutboxMessage
      else if om_Attempts m < 0 \<or> time_IsZero (om_AvailableAt m) \<or> time_IsZero (om_CreatedAt m)
        then Some ErrInvalidOutboxMessage
      else if om_Status m \<notin> {OutboxPending, OutboxDelivering, OutboxDelivered, OutboxDeadLetter}
        then Some ErrInvalidOutboxMessage
      else if length (om_Payload m) = 0 \<or> \<not> json_Valid (om_Payload m)
        then Some (Errorf ''%w: payload must be valid JSON'' [ErrInvalidOutboxMessage])
      else None)"

datatype IdempotencyStatus =
    IdempotencyInProgress | IdempotencyCompleted | IdempotencyFailedRetryable | IdempotencyFailedFinal
  | IdempotencyStatusOther string

record IdempotencyRecord =
  ir_TenantID :: string
  ir_ProjectID :: string
  ir_Operation :: string
  ir_Key :: string
  ir_RequestDigest :: string
  ir_Status :: IdempotencyStatus
  ir_ResourceID :: string
  ir_ResponseCode :: int
  ir_ResponseDigest :: string
  ir_ResponsePayload :: string
  ir_CreatedAt :: gotime
  ir_ExpiresAt :: gotime

definition IdempotencyRecord_Validate :: "IdempotencyRecord \<Rightarrow> goerr option" where
  "IdempotencyRecord_Validate r =
     (if blank (ir_TenantID r) \<or> blank (ir_ProjectID r) \<or> blank (ir_Operation r) \<or> blank (ir_Key r)
         \<or> blank (ir_RequestDigest r) \<or> time_IsZero (ir_CreatedAt r) \<or> time_IsZero (ir_ExpiresAt r)
        then Some ErrInvalidIdempotencyRecord
      else if \<not> time_After (ir_ExpiresAt r) (ir_CreatedAt r)
        then Some (Errorf ''%w: expires_at must be after created_at'' [ErrInvalidIdempotencyRecord])
      else if ir_Status r \<notin> {IdempotencyInProgress, IdempotencyCompleted, IdempotencyFailedRetryable,
                               IdempotencyFailedFinal}
        then Some ErrInvalidIdempotencyRecord
      else if length (ir_ResponsePayload r) > 0 \<and> \<not> json_Valid (ir_ResponsePayload r)
        then Some (Errorf ''%w: response payload must be valid JSON'' [ErrInvalidIdempotencyRecord])
      else None)"

section \<open>Histories\<close>

text \<open>The state changes the aggregate is meant to allow, as a relation.\<close>

inductive task_flow :: "TaskStatus \<Rightarrow> TaskStatus \<Rightarrow> bool" where
  plan: "task_flow TaskCreated TaskPlanning"
| route: "task_flow TaskPlanning TaskRouting"
| execute: "task_flow TaskRouting TaskExecuting"
| ask: "task_flow TaskExecuting TaskWaitingApproval"
| resume: "task_flow TaskWaitingApproval TaskExecuting"
| validate: "task_flow TaskExecuting TaskValidating"
| finish: "task_flow TaskValidating TaskCompleted"
| stop: "isKnownNonTerminal s \<Longrightarrow> to \<in> {TaskFailed, TaskCancelled, TaskExpired} \<Longrightarrow> task_flow s to"

inductive_simps task_flow_simps: "task_flow s to"

lemma CanTransition_flow: "Task_CanTransition t to \<longleftrightarrow> task_flow (tk_Status t) to"
  by (cases "tk_Status t"; cases to)
     (simp_all add: Task_CanTransition_def Task_IsTerminal_def status_terminal_def isKnownNonTerminal_def
        task_flow_simps)

lemma Transition_ok_iff:
  "fst (Task_Transition (Some t) c) = Inr h \<longleftrightarrow>
   TrimSpace (tc_Actor c) \<noteq> [] \<and> TrimSpace (tc_Cause c) \<noteq> [] \<and> \<not> time_IsZero (tc_At c) \<and>
   task_flow (tk_Status t) (tc_To c) \<and>
   h = \<lparr>tt_From = tk_Status t, tt_To = tc_To c, tt_Actor = TrimSpace (tc_Actor c),
        tt_Cause = TrimSpace (tc_Cause c), tt_At = tc_At c\<rparr>"
  by (auto simp: Task_Transition_def Let_def CanTransition_flow [symmetric] Task_CanTransition_def)

lemma Transition_err: "fst (Task_Transition p c) = Inl e \<Longrightarrow> snd (Task_Transition p c) = p"
  by (cases p) (simp_all add: Task_Transition_def Let_def split: if_splits)

lemma Transition_result:
  "fst (Task_Transition (Some t) c) = Inr h \<Longrightarrow>
   snd (Task_Transition (Some t) c) =
     Some (t\<lparr>tk_Status := tt_To h, tk_UpdatedAt := tt_At h,
             tk_CompletedAt := if status_terminal (tt_To h) then Some (tt_At h) else tk_CompletedAt t\<rparr>)"
  by (auto simp: Task_Transition_def Let_def Task_IsTerminal_def split: if_splits)

definition task_step :: "TaskTransitionCommand \<Rightarrow> Task \<times> TaskTransition list \<Rightarrow> Task \<times> TaskTransition list" where
  "task_step c x =
     (case Task_Transition (Some (fst x)) c of
        (Inr h, Some t) \<Rightarrow> (t, snd x @ [h])
      | _ \<Rightarrow> x)"

definition task_run :: "Task \<Rightarrow> TaskTransitionCommand list \<Rightarrow> Task \<times> TaskTransition list" where
  "task_run t cs = fold task_step cs (t, [])"

text \<open>The states a task has passed through on the way to each state.\<close>

fun task_path :: "TaskStatus \<Rightarrow> TaskStatus list" where
  "task_path TaskPlanning = [TaskPlanning]"
| "task_path TaskRouting = [TaskPlanning, TaskRouting]"
| "task_path TaskExecuting = [TaskPlanning, TaskRouting, TaskExecuting]"
| "task_path TaskWaitingApproval = [TaskPlanning, TaskRouting, TaskExecuting, TaskWaitingApproval]"
| "task_path TaskValidating = [TaskPlanning, TaskRouting, TaskExecuting, TaskValidating]"
| "task_path TaskCompleted = [TaskPlanning, TaskRouting, TaskExecuting, TaskValidating, TaskCompleted]"
| "task_path s = (if s = TaskCreated then [] else [s])"

fun linked :: "TaskStatus \<Rightarrow> TaskTransition list \<Rightarrow> TaskStatus \<Rightarrow> bool" where
  "linked s [] t = (s = t)"
| "linked s (h # hs) t = (tt_From h = s \<and> task_flow s (tt_To h) \<and> linked (tt_To h) hs t)"

lemma linked_snoc: "linked s (hs @ [h]) t \<longleftrightarrow> linked s hs (tt_From h) \<and> task_flow (tt_From h) (tt_To h) \<and> t = tt_To h"
  by (induction hs arbitrary: s) auto

lemma flow_from: "task_flow s to \<Longrightarrow> isKnownNonTerminal s \<and> \<not> status_terminal s \<and> to \<noteq> TaskCreated"
  by (cases s) (auto simp: isKnownNonTerminal_def status_terminal_def elim: task_flow.cases)

lemma flow_path:
  assumes "task_flow s to" and "subseq (task_path s) xs"
  shows "subseq (task_path to) (xs @ [to])"
proof -
  have app: "subseq (p @ [to]) (xs @ [to])" if "subseq p (task_path s)" for p
    using that assms(2) by (meson list_emb_append_mono subseq_order.order_refl subseq_order.trans)
  have one: "subseq [to] (xs @ [to])" using app [of "[]"] by simp
  from assms(1) show ?thesis
  proof cases
    case resume
    then show ?thesis using app [of "[TaskPlanning, TaskRouting]"] by simp
  next
    case stop
    then show ?thesis using one by auto
  qed (use app [of "task_path s"] in simp_all)
qed

text \<open>What a history says about the task it led to.\<close>

definition same_task :: "Task \<Rightarrow> Task \<Rightarrow> bool" where
  "same_task t0 t \<longleftrightarrow>
     t = t0\<lparr>tk_Status := tk_Status t, tk_UpdatedAt := tk_UpdatedAt t, tk_CompletedAt := tk_CompletedAt t\<rparr>"

lemma same_task_refl: "same_task t t"
  by (simp add: same_task_def)

lemma same_task_update:
  "same_task t0 t \<Longrightarrow> same_task t0 (t\<lparr>tk_Status := s, tk_UpdatedAt := u, tk_CompletedAt := c\<rparr>)"
  by (cases t0, cases t) (simp add: same_task_def)

definition task_inv :: "Task \<Rightarrow> Task \<times> TaskTransition list \<Rightarrow> bool" where
  "task_inv t0 x \<longleftrightarrow>
     same_task t0 (fst x) \<and>
     linked TaskCreated (snd x) (tk_Status (fst x)) \<and>
     subseq (task_path (tk_Status (fst x))) (map tt_To (snd x)) \<and>
     (\<forall>h\<in>set (snd x). tt_Actor h \<noteq> [] \<and> tt_Cause h \<noteq> [] \<and> tt_At h \<noteq> 0) \<and>
     tk_UpdatedAt (fst x) = (if snd x = [] then tk_UpdatedAt t0 else tt_At (last (snd x))) \<and>
     tk_CompletedAt (fst x) =
       (if status_terminal (tk_Status (fst x)) then Some (tt_At (last (snd x))) else None)"

lemma task_step_cases:
  obtains "task_step c x = x"
  | h where "fst (Task_Transition (Some (fst x)) c) = Inr h"
      "task_step c x =
         ((fst x)\<lparr>tk_Status := tt_To h, tk_UpdatedAt := tt_At h,
             tk_CompletedAt := if status_terminal (tt_To h) then Some (tt_At h) else tk_CompletedAt (fst x)\<rparr>,
          snd x @ [h])"
proof -
  obtain r p where rp: "Task_Transition (Some (fst x)) c = (r, p)" by fastforce
  show ?thesis
  proof (cases r)
    case (Inl e)
    then show ?thesis using that(1) rp by (simp add: task_step_def)
  next
    case (Inr h)
    then show ?thesis using that(2) [of h] rp Transition_result [of "fst x" c h] by (simp add: task_step_def)
  qed
qed

lemma task_inv_step:
  assumes I: "task_inv t0 x"
  shows "task_inv t0 (task_step c x)"
proof (rule task_step_cases [of c x])
  fix h
  assume h: "fst (Task_Transition (Some (fst x)) c) = Inr h"
    and step: "task_step c x =
         ((fst x)\<lparr>tk_Status := tt_To h, tk_UpdatedAt := tt_At h,
             tk_CompletedAt := if status_terminal (tt_To h) then Some (tt_At h) else tk_CompletedAt (fst x)\<rparr>,
          snd x @ [h])"
  from h have flow: "task_flow (tk_Status (fst x)) (tt_To h)" and "tt_From h = tk_Status (fst x)"
    and "tt_Actor h \<noteq> []" "tt_Cause h \<noteq> []" "tt_At h \<noteq> 0"
    by (simp_all add: Transition_ok_iff time_IsZero_def)
  then show ?thesis
    using I flow_from [OF flow] flow_path [OF flow] same_task_update [of t0 "fst x"]
    unfolding task_inv_def step by (auto simp: linked_snoc)
qed (use I in simp)

lemma NewTask_Inr:
  assumes "NewTask params = Inr t"
  shows "tk_Status t = TaskCreated" "tk_CompletedAt t = None" "tk_Version t = 1" "tk_ID t \<noteq> []"
    "tk_Currency t \<noteq> []" "tk_CreatedAt t \<noteq> 0"
  using assms by (auto simp: NewTask_def Let_def time_IsZero_def split: if_splits)

lemma task_run_inv: "NewTask params = Inr t0 \<Longrightarrow> task_inv t0 (task_run t0 cs)"
proof (induction cs rule: rev_induct)
  case Nil
  then show ?case
    using NewTask_Inr(1,2) [OF Nil]
    by (simp add: task_run_def task_inv_def same_task_refl status_terminal_def)
next
  case (snoc c cs)
  then show ?case by (simp add: task_run_def task_inv_step)
qed

lemma linked_first: "linked s hs t \<Longrightarrow> hs \<noteq> [] \<Longrightarrow> \<not> status_terminal s"
  by (cases hs) (auto dest: flow_from)

lemma linked_nonterminal:
  "linked s (hs @ hs') t \<Longrightarrow> hs' \<noteq> [] \<Longrightarrow> h \<in> set hs \<Longrightarrow> \<not> status_terminal (tt_To h)"
  by (induction s hs t rule: linked.induct) (auto dest: linked_first)

text \<open>C10: The history of a task. Whatever transition commands are sent to a newly created
  task, the transitions that succeed form one chain of allowed state changes from CREATED to
  the task's state, each with an actor, a cause and a time. A completed task has been planned,
  routed, executed and validated, in that order, before it completed. No transition leaves a
  terminal state, the task carries a completion time exactly when its state is terminal, and
  that time is the time of the last transition. Nothing but status and times ever changes.\<close>

theorem task_history:
  assumes "NewTask params = Inr t0" and "task_run t0 cs = (t, hs)"
  shows "linked TaskCreated hs (tk_Status t) \<and>
    (\<forall>h\<in>set hs. tt_Actor h \<noteq> [] \<and> tt_Cause h \<noteq> [] \<and> tt_At h \<noteq> 0) \<and>
    (tk_Status t = TaskCompleted \<longrightarrow>
       subseq [TaskPlanning, TaskRouting, TaskExecuting, TaskValidating, TaskCompleted] (map tt_To hs)) \<and>
    (\<forall>h\<in>set (butlast hs). \<not> status_terminal (tt_To h)) \<and>
    tk_CompletedAt t = (if Task_IsTerminal t then Some (tt_At (last hs)) else None) \<and>
    same_task t0 t"
proof -
  have I: "task_inv t0 (t, hs)" using task_run_inv [OF assms(1), of cs] assms(2) by simp
  have "\<forall>h\<in>set (butlast hs). \<not> status_terminal (tt_To h)"
  proof (cases "hs = []")
    case False
    then show ?thesis
      using I linked_nonterminal [of TaskCreated "butlast hs" "[last hs]" "tk_Status t"]
      by (auto simp: task_inv_def)
  qed simp
  with I show ?thesis by (auto simp: task_inv_def Task_IsTerminal_def)
qed

definition demo_params :: NewTaskParams where
  "demo_params = \<lparr>ntp_ID = ''t1'', ntp_AgentID = [], ntp_Input = ''in'', ntp_TraceID = [], ntp_Currency = [], ntp_Now = 5\<rparr>"

definition demo_task :: Task where
  "demo_task = projr (NewTask demo_params)"

definition demo_command :: "TaskStatus \<Rightarrow> gotime \<Rightarrow> TaskTransitionCommand" where
  "demo_command s u = \<lparr>tc_To = s, tc_Actor = ''a'', tc_Cause = ''c'', tc_At = u\<rparr>"

definition demo_commands :: "TaskTransitionCommand list" where
  "demo_commands =
     [demo_command TaskPlanning 6, demo_command TaskCompleted 7, demo_command TaskRouting 8,
      demo_command TaskExecuting 9, demo_command TaskValidating 10, demo_command TaskCompleted 11,
      demo_command TaskFailed 12]"

text \<open>A run through the pipeline, with a premature completion and a late failure refused.\<close>

theorem task_history_witness:
  "subseq [TaskPlanning, TaskRouting, TaskExecuting, TaskValidating, TaskCompleted]
     (map tt_To (snd (task_run demo_task demo_commands))) \<and>
   tk_CompletedAt (fst (task_run demo_task demo_commands)) = Some 11"
proof -
  have n: "NewTask demo_params = Inr demo_task" by code_simp
  have r: "task_run demo_task demo_commands =
    (fst (task_run demo_task demo_commands), snd (task_run demo_task demo_commands))" by simp
  have s: "tk_Status (fst (task_run demo_task demo_commands)) = TaskCompleted" by code_simp
  have l: "tt_At (last (snd (task_run demo_task demo_commands))) = 11" by code_simp
  show ?thesis
    using task_history [OF n r] s l
    by (simp add: Task_IsTerminal_def status_terminal_def)
qed

end
