(* ===== verification/Outbox.thy ===== *)
theory Outbox
  imports Task_Domain Identity Sql_Table "HOL-Library.Product_Lexorder"
begin

text \<open>
  The transactional outbox: the scoped repository (repository/postgres_outbox.go) as
  transactions on the rows of outbox_messages with the constraints of migrations 007 and 008,
  and the dispatcher (outbox/dispatcher.go) over its store interface. Times pass through the
  database's storage \<open>pgt\<close>, a parameter. Transactions are atomic; rows that a concurrent
  transaction has locked, which \<open>SKIP LOCKED\<close> leaves out, are the parameter \<open>locked\<close>.
\<close>

section \<open>The table\<close>

record outboxRow =
  ob_message :: OutboxMessage
  ob_leaseOwner :: "string option"
  ob_leaseExpiresAt :: "gotime option"
  ob_lastError :: "string option"

type_synonym outboxDB = "outboxRow list"

abbreviation ob_id :: "outboxRow \<Rightarrow> string" where
  "ob_id r \<equiv> om_OutboxID (ob_message r)"

abbreviation ob_status :: "outboxRow \<Rightarrow> OutboxStatus" where
  "ob_status r \<equiv> om_Status (ob_message r)"

text \<open>The CHECK constraints; \<open>attempts\<close> is an INTEGER column, so a count beyond its range
  makes the statement fail as well.\<close>

definition outbox_lease_state :: "outboxRow \<Rightarrow> bool" where
  "outbox_lease_state r \<longleftrightarrow>
     (ob_status r = OutboxDelivering \<and> ob_leaseOwner r \<noteq> None \<and> ob_leaseOwner r \<noteq> Some [] \<and> ob_leaseExpiresAt r \<noteq> None)
     \<or> (ob_status r \<noteq> OutboxDelivering \<and> ob_leaseOwner r = None \<and> ob_leaseExpiresAt r = None)"

definition outbox_row_ok :: "outboxRow \<Rightarrow> bool" where
  "outbox_row_ok r \<longleftrightarrow>
     0 \<le> om_Attempts (ob_message r) \<and> om_Attempts (ob_message r) < 2 ^ 31 \<and>
     ob_status r \<in> {OutboxPending, OutboxDelivering, OutboxDelivered, OutboxDeadLetter} \<and>
     outbox_lease_state r"

definition outbox_scoped :: "Principal \<Rightarrow> outboxRow \<Rightarrow> bool" where
  "outbox_scoped p r \<longleftrightarrow> om_TenantID (ob_message r) = p_TenantID p \<and> om_ProjectID (ob_message r) = p_ProjectID p"

section \<open>The repository\<close>

definition ErrOutboxLeaseLost :: goerr where
  "ErrOutboxLeaseLost = ErrNew ''outbox delivery lease is not owned by dispatcher''"

record LeasedOutboxMessage =
  lo_Message :: OutboxMessage
  lo_LeaseOwner :: string
  lo_LeaseExpiresAt :: gotime
  lo_LastError :: string

definition outbox_due :: "gotime \<Rightarrow> outboxRow \<Rightarrow> bool" where
  "outbox_due now r \<longleftrightarrow>
     (ob_status r = OutboxPending \<and> om_AvailableAt (ob_message r) \<le> now)
     \<or> (ob_status r = OutboxDelivering \<and> (case ob_leaseExpiresAt r of None \<Rightarrow> False | Some e \<Rightarrow> e \<le> now))"

definition outbox_candidates ::
  "(outboxRow \<Rightarrow> bool) \<Rightarrow> Principal \<Rightarrow> int \<Rightarrow> gotime \<Rightarrow> outboxDB \<Rightarrow> string list" where
  "outbox_candidates locked p limit now t =
     map ob_id (take (nat limit)
       (sort_key (\<lambda>r. (om_AvailableAt (ob_message r), om_CreatedAt (ob_message r), ob_id r))
          (filter (\<lambda>r. outbox_scoped p r \<and> outbox_due now r \<and> \<not> locked r) t)))"

definition lease_row :: "string \<Rightarrow> gotime \<Rightarrow> outboxRow \<Rightarrow> outboxRow" where
  "lease_row owner expires r =
     r\<lparr>ob_message := (ob_message r)\<lparr>om_Status := OutboxDelivering, om_Attempts := om_Attempts (ob_message r) + 1\<rparr>,
       ob_leaseOwner := Some owner, ob_leaseExpiresAt := Some expires\<rparr>"

definition scanLeasedOutbox :: "outboxRow \<Rightarrow> goerr + LeasedOutboxMessage" where
  "scanLeasedOutbox r =
     (case (ob_leaseOwner r, ob_leaseExpiresAt r) of
        (Some owner, Some expires) \<Rightarrow>
          if \<not> json_Valid (om_Payload (ob_message r)) then
            Inl (Errorf (''outbox '' @ quoted (ob_id r) @ '' contains invalid JSON payload'') [])
          else Inr \<lparr>lo_Message = ob_message r, lo_LeaseOwner = owner, lo_LeaseExpiresAt = expires,
                    lo_LastError = (case ob_lastError r of None \<Rightarrow> [] | Some e \<Rightarrow> e)\<rparr>
      | _ \<Rightarrow> Inl (Errorf ''scan leased outbox message: %w'' [ErrNew ''converting NULL to string is unsupported'']))"

fun scan_all :: "outboxRow list \<Rightarrow> goerr + LeasedOutboxMessage list" where
  "scan_all [] = Inr []"
| "scan_all (r # rs) = sum_bind (scanLeasedOutbox r) (\<lambda>m. sum_bind (scan_all rs) (\<lambda>ms. Inr (m # ms)))"

definition outbox_lease_tx ::
  "(outboxRow \<Rightarrow> bool) \<Rightarrow> string \<Rightarrow> int \<Rightarrow> gotime \<Rightarrow> gotime \<Rightarrow> Principal \<Rightarrow> outboxDB
     \<Rightarrow> goerr + LeasedOutboxMessage list \<times> outboxDB" where
  "outbox_lease_tx locked owner limit now expires p t =
     (let ids = outbox_candidates locked p limit now t;
          chosen = (\<lambda>r. outbox_scoped p r \<and> ob_id r \<in> set ids)
      in case sql_update outbox_row_ok chosen (lease_row owner expires) t of
           Inl e \<Rightarrow> Inl (Errorf ''lease outbox messages: %w'' [e])
         | Inr (_, t') \<Rightarrow> sum_bind (scan_all (filter chosen t')) (\<lambda>ms. Inr (ms, t')))"

definition Outbox_Lease ::
  "(gotime \<Rightarrow> gotime) \<Rightarrow> (outboxRow \<Rightarrow> bool) \<Rightarrow> pcontext \<Rightarrow> string \<Rightarrow> int \<Rightarrow> gotime \<Rightarrow> duration \<Rightarrow> outboxDB
     \<Rightarrow> (goerr + LeasedOutboxMessage list) \<times> outboxDB" where
  "Outbox_Lease pgt locked ctx owner0 limit0 now dur db =
     (let owner = TrimSpace owner0 in
      if owner = [] \<or> limit0 < 1 \<or> dur \<le> 0 \<or> time_IsZero now then
        (Inl (Errorf ''lease owner, positive limit, current time and lease duration are required'' []), db)
      else let limit = (if limit0 > 1000 then 1000 else limit0);
               expires = time_Add now dur
           in withScopedTx ctx (outbox_lease_tx locked owner limit (pgt now) (pgt expires)) db)"

definition outbox_held :: "Principal \<Rightarrow> string \<Rightarrow> string \<Rightarrow> outboxRow \<Rightarrow> bool" where
  "outbox_held p i owner r \<longleftrightarrow>
     outbox_scoped p r \<and> ob_id r = i \<and> ob_status r = OutboxDelivering \<and> ob_leaseOwner r = Some owner"

definition delivered_row :: "gotime \<Rightarrow> outboxRow \<Rightarrow> outboxRow" where
  "delivered_row now r =
     r\<lparr>ob_message := (ob_message r)\<lparr>om_Status := OutboxDelivered, om_DeliveredAt := Some now\<rparr>,
       ob_leaseOwner := None, ob_leaseExpiresAt := None, ob_lastError := None\<rparr>"

definition mark_delivered_tx ::
  "string \<Rightarrow> string \<Rightarrow> gotime \<Rightarrow> Principal \<Rightarrow> outboxDB \<Rightarrow> goerr + unit \<times> outboxDB" where
  "mark_delivered_tx i owner now p t =
     (case sql_update outbox_row_ok (outbox_held p i owner) (delivered_row now) t of
        Inl e \<Rightarrow> Inl (Errorf ''mark outbox delivered: %w'' [e])
      | Inr (affected, t') \<Rightarrow> if affected \<noteq> 1 then Inl ErrOutboxLeaseLost else Inr ((), t'))"

definition MarkDelivered ::
  "(gotime \<Rightarrow> gotime) \<Rightarrow> pcontext \<Rightarrow> string \<Rightarrow> string \<Rightarrow> gotime \<Rightarrow> outboxDB \<Rightarrow> (goerr + unit) \<times> outboxDB" where
  "MarkDelivered pgt ctx i owner deliveredAt db =
     (if TrimSpace i = [] \<or> TrimSpace owner = [] \<or> time_IsZero deliveredAt then
        (Inl (Errorf ''outbox id, lease owner and delivered time are required'' []), db)
      else withScopedTx ctx (mark_delivered_tx i owner (pgt deliveredAt)) db)"

definition failed_row :: "OutboxStatus \<Rightarrow> gotime \<Rightarrow> string \<Rightarrow> outboxRow \<Rightarrow> outboxRow" where
  "failed_row st available reason r =
     r\<lparr>ob_message := (ob_message r)\<lparr>om_Status := st, om_AvailableAt := available\<rparr>,
       ob_leaseOwner := None, ob_leaseExpiresAt := None,
       ob_lastError := (if reason = [] then None else Some reason)\<rparr>"

definition fail_delivery_tx ::
  "(gotime \<Rightarrow> gotime) \<Rightarrow> string \<Rightarrow> string \<Rightarrow> gotime \<Rightarrow> gotime \<Rightarrow> int \<Rightarrow> string \<Rightarrow> Principal \<Rightarrow> outboxDB
     \<Rightarrow> goerr + OutboxStatus \<times> outboxDB" where
  "fail_delivery_tx pgt i owner now next maxAttempts reason p t =
     (case sql_query_row (outbox_held p i owner) t of
        None \<Rightarrow> Inl ErrOutboxLeaseLost
      | Some r \<Rightarrow>
          let dead = om_Attempts (ob_message r) \<ge> maxAttempts;
              finalStatus = (if dead then OutboxDeadLetter else OutboxPending);
              availableAt = (if dead then now else next)
          in (case sql_update outbox_row_ok (outbox_held p i owner)
                     (failed_row finalStatus (pgt availableAt) (TrimSpace reason)) t of
                Inl e \<Rightarrow> Inl (Errorf ''record outbox delivery failure: %w'' [e])
              | Inr (affected, t') \<Rightarrow>
                  if affected \<noteq> 1 then Inl ErrOutboxLeaseLost else Inr (finalStatus, t')))"

definition FailDelivery ::
  "(gotime \<Rightarrow> gotime) \<Rightarrow> pcontext \<Rightarrow> string \<Rightarrow> string \<Rightarrow> gotime \<Rightarrow> gotime \<Rightarrow> int \<Rightarrow> string \<Rightarrow> outboxDB
     \<Rightarrow> (goerr + OutboxStatus) \<times> outboxDB" where
  "FailDelivery pgt ctx i owner now next maxAttempts reason db =
     (if TrimSpace i = [] \<or> TrimSpace owner = [] \<or> time_IsZero now \<or> time_IsZero next \<or> maxAttempts < 1 then
        (Inl (Errorf ''outbox id, lease owner, times and positive max attempts are required'' []), db)
      else withScopedTx ctx (fail_delivery_tx pgt i owner now next maxAttempts reason) db)"

section \<open>The dispatcher\<close>

text \<open>The store and the adapters act on an arbitrary world.\<close>

record 'w outbox_store =
  os_Lease :: "string \<Rightarrow> int \<Rightarrow> gotime \<Rightarrow> duration \<Rightarrow> 'w \<Rightarrow> (goerr + LeasedOutboxMessage list) \<times> 'w"
  os_MarkDelivered :: "string \<Rightarrow> string \<Rightarrow> gotime \<Rightarrow> 'w \<Rightarrow> (goerr + unit) \<times> 'w"
  os_FailDelivery :: "string \<Rightarrow> string \<Rightarrow> gotime \<Rightarrow> gotime \<Rightarrow> int \<Rightarrow> string \<Rightarrow> 'w \<Rightarrow> (goerr + OutboxStatus) \<times> 'w"

type_synonym 'w delivery = "OutboxMessage \<Rightarrow> 'w \<Rightarrow> goerr option \<times> 'w"

record DispatchResult =
  dr_Leased :: int
  dr_Delivered :: int
  dr_Retried :: int
  dr_DeadLetter :: int
  dr_Failed :: int

record 'w Dispatcher =
  ds_store :: "'w outbox_store"
  ds_owner :: string
  ds_leaseDuration :: duration
  ds_maxAttempts :: int
  ds_baseBackoff :: duration
  ds_adapters :: "(string, 'w delivery) gomap"

definition NewDispatcher ::
  "'w outbox_store \<Rightarrow> string \<Rightarrow> duration \<Rightarrow> int \<Rightarrow> duration \<Rightarrow> goerr + 'w Dispatcher" where
  "NewDispatcher store owner0 leaseDuration maxAttempts baseBackoff =
     (let owner = TrimSpace owner0 in
      if owner = [] \<or> leaseDuration \<le> 0 \<or> maxAttempts < 1 \<or> baseBackoff \<le> 0 then
        Inl (Errorf ''store, owner, positive lease duration, max attempts and backoff are required'' [])
      else Inr \<lparr>ds_store = store, ds_owner = owner, ds_leaseDuration = leaseDuration, ds_maxAttempts = maxAttempts,
                ds_baseBackoff = baseBackoff, ds_adapters = []\<rparr>)"

definition Dispatcher_Register :: "string \<Rightarrow> 'w delivery \<Rightarrow> 'w Dispatcher \<Rightarrow> goerr option \<times> 'w Dispatcher" where
  "Dispatcher_Register destination0 adapter d =
     (let destination = TrimSpace destination0 in
      if destination = [] then (Some (Errorf ''destination and adapter are required'' []), d)
      else if gomap_get (ds_adapters d) destination \<noteq> None then
        (Some (Errorf (''destination '' @ quoted destination @ '' is already registered'') []), d)
      else (None, d\<lparr>ds_adapters := gomap_put destination adapter (ds_adapters d)\<rparr>))"

definition ErrDestinationNotConfigured :: goerr where
  "ErrDestinationNotConfigured = ErrNew ''outbox destination is not configured''"

text \<open>The doubling loop; not returning would be \<^term>\<open>None\<close>.\<close>

partial_function (option) backoff_loop :: "int \<Rightarrow> int \<Rightarrow> duration \<Rightarrow> duration option" where
  "backoff_loop attempt i backoff =
     (if i < attempt \<and> backoff < 5 * Minute then backoff_loop attempt (i + 1) (wrap64 (backoff * 2)) else Some backoff)"

definition Dispatcher_backoff :: "'w Dispatcher \<Rightarrow> int \<Rightarrow> duration option" where
  "Dispatcher_backoff d attempt0 =
     (let attempt = (if attempt0 < 1 then 1 else attempt0) in
      map_option (\<lambda>backoff. if backoff > 5 * Minute then 5 * Minute else backoff)
        (backoff_loop attempt 1 (ds_baseBackoff d)))"

text \<open>One leased message. The times are the reading at the start of the round and, for a
  delivery that succeeds, a fresh one. The result counts so far and the joined error are
  threaded through.\<close>

definition dispatch_item ::
  "'w Dispatcher \<Rightarrow> gotime \<Rightarrow> gotime \<Rightarrow> LeasedOutboxMessage \<Rightarrow> (DispatchResult \<times> goerr option) \<times> 'w
     \<Rightarrow> (DispatchResult \<times> goerr option) \<times> 'w" where
  "dispatch_item d now later item acc =
     (case acc of ((result, joined), w) \<Rightarrow>
      let m = lo_Message item in
      case gomap_get (ds_adapters d) (om_Destination m) of
        None \<Rightarrow>
          (case os_FailDelivery (ds_store d) (om_OutboxID m) (ds_owner d) now now (om_Attempts m)
                  (err_text ErrDestinationNotConfigured) w of
             (Inl failErr, w) \<Rightarrow>
               ((result\<lparr>dr_Failed := dr_Failed result + 1\<rparr>, errors_Join [joined, Some failErr]), w)
           | (Inr status, w) \<Rightarrow>
               ((if status = OutboxDeadLetter then result\<lparr>dr_DeadLetter := dr_DeadLetter result + 1\<rparr> else result,
                 errors_Join [joined, Some (Errorf (''%w: '' @ om_Destination m) [ErrDestinationNotConfigured])]), w))
      | Some deliver \<Rightarrow>
          (case deliver m w of
             (Some deliverErr, w) \<Rightarrow>
               (case os_FailDelivery (ds_store d) (om_OutboxID m) (ds_owner d) now
                       (time_Add now (case Dispatcher_backoff d (om_Attempts m) of None \<Rightarrow> 0 | Some b \<Rightarrow> b))
                       (ds_maxAttempts d) (err_text deliverErr) w of
                  (Inl failErr, w) \<Rightarrow>
                    ((result\<lparr>dr_Failed := dr_Failed result + 1\<rparr>, errors_Join [joined, Some failErr]), w)
                | (Inr status, w) \<Rightarrow>
                    ((if status = OutboxDeadLetter then result\<lparr>dr_DeadLetter := dr_DeadLetter result + 1\<rparr>
                      else result\<lparr>dr_Retried := dr_Retried result + 1\<rparr>, joined), w))
           | (None, w) \<Rightarrow>
               (case os_MarkDelivered (ds_store d) (om_OutboxID m) (ds_owner d) later w of
                  (Inl err, w) \<Rightarrow>
                    ((result\<lparr>dr_Failed := dr_Failed result + 1\<rparr>, errors_Join [joined, Some err]), w)
                | (Inr _, w) \<Rightarrow> ((result\<lparr>dr_Delivered := dr_Delivered result + 1\<rparr>, joined), w))))"

definition DispatchOnce ::
  "'w Dispatcher \<Rightarrow> (nat \<Rightarrow> gotime) \<Rightarrow> int \<Rightarrow> 'w \<Rightarrow> (DispatchResult \<times> goerr option) \<times> 'w" where
  "DispatchOnce d clock limit w =
     (let zero = \<lparr>dr_Leased = 0, dr_Delivered = 0, dr_Retried = 0, dr_DeadLetter = 0, dr_Failed = 0\<rparr>;
          now = clock 0
      in case os_Lease (ds_store d) (ds_owner d) limit now (ds_leaseDuration d) w of
           (Inl e, w) \<Rightarrow> ((zero, Some e), w)
         | (Inr leased, w) \<Rightarrow>
             fold (\<lambda>(k, item). dispatch_item d now (clock (Suc k)) item) (enumerate 0 leased)
               ((zero\<lparr>dr_Leased := int (length leased)\<rparr>, None), w))"

end
