(* ===== verification/Outbox_Safety.thy ===== *)
theory Outbox_Safety
  imports Outbox
begin

text \<open>
  What the outbox guarantees: the backoff loop ends and gives the capped exponential; a leased
  message is not leased again before its lease expires; a delivered or dead-lettered message
  never changes again; the counts of a dispatch round account for every message it leased that
  has a configured destination, and for all of them when the round reports no error.
\<close>

section \<open>Backoff\<close>

lemma backoff_loop_value:
  assumes "0 < b"
  shows "\<exists>j. backoff_loop n i b = Some (b * 2 ^ j) \<and> j \<le> nat (n - i) \<and>
    (j = nat (n - i) \<or> 5 * Minute \<le> b * 2 ^ j)"
  using assms
proof (induction "nat (n - i)" arbitrary: i b)
  case 0
  then show ?case by (intro exI [of _ 0]) (simp add: backoff_loop.simps)
next
  case (Suc k)
  then have "i < n" by simp
  show ?case
  proof (cases "b < 5 * Minute")
    case True
    then have "wrap64 (b * 2) = b * 2" using Suc.prems by (intro wrap64_id) (simp add: i64_ok_def Minute_def)
    then have step: "backoff_loop n i b = backoff_loop n (i + 1) (b * 2)"
      using True \<open>i < n\<close> by (subst backoff_loop.simps) simp
    have "k = nat (n - (i + 1))" using Suc.hyps(2) by simp
    from Suc.hyps(1) [OF this, of "b * 2"] Suc.prems obtain j
      where "backoff_loop n (i + 1) (b * 2) = Some (b * 2 * 2 ^ j)" "j \<le> nat (n - (i + 1))"
        "j = nat (n - (i + 1)) \<or> 5 * Minute \<le> b * 2 * 2 ^ j"
      by auto
    with step Suc.hyps(2) show ?thesis by (intro exI [of _ "Suc j"]) (auto simp: mult.assoc)
  next
    case False
    then show ?thesis by (intro exI [of _ 0]) (simp add: backoff_loop.simps)
  qed
qed

lemma Dispatcher_backoff_value:
  assumes "0 < ds_baseBackoff d"
  shows "Dispatcher_backoff d a = Some (min (ds_baseBackoff d * 2 ^ nat (max a 1 - 1)) (5 * Minute))"
proof -
  let ?n = "if a < 1 then 1 else a" and ?b = "ds_baseBackoff d"
  have k: "nat (?n - 1) = nat (max a 1 - 1)" by simp
  obtain j where j: "backoff_loop ?n 1 ?b = Some (?b * 2 ^ j)" "j \<le> nat (max a 1 - 1)"
    "j = nat (max a 1 - 1) \<or> 5 * Minute \<le> ?b * 2 ^ j"
    using backoff_loop_value [OF assms, of ?n 1] unfolding k by blast
  have "?b * 2 ^ j \<le> ?b * 2 ^ nat (max a 1 - 1)"
    using j(2) assms by (intro mult_left_mono power_increasing) simp_all
  then have "(if ?b * 2 ^ j > 5 * Minute then 5 * Minute else ?b * 2 ^ j) = min (?b * 2 ^ nat (max a 1 - 1)) (5 * Minute)"
    using j(3) by auto
  then show ?thesis using j(1) by (simp add: Dispatcher_backoff_def)
qed

lemma NewDispatcher_Inr:
  assumes "NewDispatcher store owner dur maxA base = Inr d"
  shows "ds_store d = store" "ds_owner d = TrimSpace owner" "ds_owner d \<noteq> []" "ds_leaseDuration d = dur" "0 < dur"
    "ds_maxAttempts d = maxA" "1 \<le> maxA" "ds_baseBackoff d = base" "0 < base" "ds_adapters d = []"
  using assms by (auto simp: NewDispatcher_def Let_def split: if_splits)

text \<open>C33: The backoff ends and is a capped exponential. For every dispatcher the constructor
  returns and every attempt number, however large, the doubling loop ends without overflowing, and
  the delay is the base doubled once per earlier attempt, at most five minutes, and positive.\<close>

theorem backoff_terminates:
  assumes "NewDispatcher store owner dur maxA base = Inr d"
  shows "\<exists>b. Dispatcher_backoff d a = Some b \<and> b = min (base * 2 ^ nat (max a 1 - 1)) (5 * Minute) \<and>
    0 < b \<and> b \<le> 5 * Minute"
  using Dispatcher_backoff_value [of d a] NewDispatcher_Inr(8,9) [OF assms] by (simp add: Minute_def)

definition ob_demo_store :: "outboxDB outbox_store" where
  "ob_demo_store = \<lparr>os_Lease = \<lambda>_ _ _ _ w. (Inr [], w), os_MarkDelivered = \<lambda>_ _ _ w. (Inr (), w),
     os_FailDelivery = \<lambda>_ _ _ _ _ _ w. (Inr OutboxPending, w)\<rparr>"

theorem backoff_terminates_witness:
  "\<exists>d. NewDispatcher ob_demo_store ''d1'' Minute 5 Second = Inr d \<and> Dispatcher_backoff d 4 = Some (8 * Second) \<and>
     Dispatcher_backoff d 100 = Some (5 * Minute)"
proof -
  have "TrimSpace ''d1'' = ''d1''" by code_simp
  then obtain d where d: "NewDispatcher ob_demo_store ''d1'' Minute 5 Second = Inr d"
    by (simp add: NewDispatcher_def Second_def Minute_def)
  have "Dispatcher_backoff d 4 = Some (8 * Second)"
    using backoff_terminates [OF d, of 4] by (simp add: Second_def Minute_def)
  moreover have "Dispatcher_backoff d 100 = Some (5 * Minute)"
    using backoff_terminates [OF d, of 100] by (simp add: Second_def Minute_def)
  ultimately show ?thesis using d by blast
qed

section \<open>The accounts of a dispatch round\<close>

definition dispatch_total :: "DispatchResult \<Rightarrow> int" where
  "dispatch_total r = dr_Delivered r + dr_Retried r + dr_DeadLetter r + dr_Failed r"

definition configured :: "'w Dispatcher \<Rightarrow> LeasedOutboxMessage \<Rightarrow> bool" where
  "configured d item \<longleftrightarrow> gomap_get (ds_adapters d) (om_Destination (lo_Message item)) \<noteq> None"

text \<open>One message moves at most one count, by one: exactly one if its destination has an
  adapter, and one other than the failures if the round has no error.\<close>

definition counts_one :: "bool \<Rightarrow> DispatchResult \<Rightarrow> goerr option \<Rightarrow> DispatchResult \<Rightarrow> goerr option \<Rightarrow> bool" where
  "counts_one conf r e r' e' \<longleftrightarrow>
     dr_Leased r' = dr_Leased r \<and> dr_Delivered r \<le> dr_Delivered r' \<and> dr_Retried r \<le> dr_Retried r' \<and>
     dr_DeadLetter r \<le> dr_DeadLetter r' \<and> dr_Failed r \<le> dr_Failed r' \<and>
     dispatch_total r' \<le> dispatch_total r + 1 \<and> (conf \<longrightarrow> dispatch_total r' = dispatch_total r + 1) \<and>
     (e' = None \<longrightarrow> e = None \<and> conf \<and> dr_Failed r' = dr_Failed r)"

lemma errors_Join_pair: "\<exists>y. errors_Join [e, Some x] = Some y"
  by (simp add: errors_Join_None_iff flip: not_None_eq)

lemma dispatch_item_counts:
  assumes "dispatch_item d now later item ((r, e), w) = ((r', e'), w')"
  shows "counts_one (configured d item) r e r' e'"
  using assms
  by (auto simp: dispatch_item_def Let_def counts_one_def configured_def dispatch_total_def errors_Join_pair errors_Join_None_iff
      split: option.splits sum.splits prod.splits if_splits)

definition counts_all :: "LeasedOutboxMessage list \<Rightarrow> 'w Dispatcher \<Rightarrow> DispatchResult \<Rightarrow> goerr option \<Rightarrow> DispatchResult \<Rightarrow> goerr option \<Rightarrow> bool" where
  "counts_all items d r e r' e' \<longleftrightarrow>
     dr_Leased r' = dr_Leased r \<and> dr_Delivered r \<le> dr_Delivered r' \<and> dr_Retried r \<le> dr_Retried r' \<and>
     dr_DeadLetter r \<le> dr_DeadLetter r' \<and> dr_Failed r \<le> dr_Failed r' \<and>
     dispatch_total r' \<le> dispatch_total r + int (length items) \<and>
     (list_all (configured d) items \<longrightarrow> dispatch_total r' = dispatch_total r + int (length items)) \<and>
     (e' = None \<longrightarrow> e = None \<and> list_all (configured d) items \<and> dr_Failed r' = dr_Failed r)"

lemma dispatch_fold_counts:
  assumes "fold (\<lambda>(k, item). dispatch_item d now (clock (Suc k)) item) (enumerate n items) ((r, e), w) = ((r', e'), w')"
  shows "counts_all items d r e r' e'"
  using assms
proof (induction items arbitrary: n r e w)
  case (Cons item items)
  obtain r1 e1 w1 where 1: "dispatch_item d now (clock (Suc n)) item ((r, e), w) = ((r1, e1), w1)"
    by (metis prod.collapse)
  have "fold (\<lambda>(k, item). dispatch_item d now (clock (Suc k)) item) (enumerate (Suc n) items) ((r1, e1), w1) = ((r', e'), w')"
    using Cons.prems 1 by simp
  from Cons.IH [OF this] dispatch_item_counts [OF 1] show ?case by (auto simp: counts_all_def counts_one_def)
qed (simp add: counts_all_def)

text \<open>C38: the accounts of a dispatch round, for every store and all adapters. No count is negative, and
  delivered, retried, dead-lettered and failed messages together are at most the leased ones. They
  are exactly the leased ones when every leased message has a configured destination. When the
  round reports no error, none failed, and every leased message was delivered, retried or
  dead-lettered.\<close>

theorem DispatchOnce_accounts:
  assumes "DispatchOnce d clock limit w = ((res, err), w')"
    and "os_Lease (ds_store d) (ds_owner d) limit (clock 0) (ds_leaseDuration d) w = (Inr leased, w1)"
  shows "dr_Leased res = int (length leased) \<and>
    0 \<le> dr_Delivered res \<and> 0 \<le> dr_Retried res \<and> 0 \<le> dr_DeadLetter res \<and> 0 \<le> dr_Failed res \<and>
    dr_Delivered res + dr_Retried res + dr_DeadLetter res + dr_Failed res \<le> dr_Leased res \<and>
    (list_all (\<lambda>item. gomap_get (ds_adapters d) (om_Destination (lo_Message item)) \<noteq> None) leased \<longrightarrow>
       dr_Delivered res + dr_Retried res + dr_DeadLetter res + dr_Failed res = dr_Leased res) \<and>
    (err = None \<longrightarrow> dr_Failed res = 0 \<and> dr_Delivered res + dr_Retried res + dr_DeadLetter res = dr_Leased res)"
proof -
  let ?z = "\<lparr>dr_Leased = int (length leased), dr_Delivered = 0, dr_Retried = 0, dr_DeadLetter = 0, dr_Failed = 0\<rparr>"
  have "fold (\<lambda>(k, item). dispatch_item d (clock 0) (clock (Suc k)) item) (enumerate 0 leased) ((?z, None), w1) = ((res, err), w')"
    using assms by (simp add: DispatchOnce_def Let_def)
  from dispatch_fold_counts [OF this] show ?thesis
    by (auto simp: counts_all_def dispatch_total_def configured_def [abs_def])
qed

section \<open>Histories of the table\<close>

interpretation ob: keyed_table ob_id .

datatype outbox_call =
    CallLease "outboxRow \<Rightarrow> bool" pcontext string int gotime duration
  | CallMark pcontext string string gotime
  | CallFail pcontext string string gotime gotime int string

fun outbox_step :: "(gotime \<Rightarrow> gotime) \<Rightarrow> outbox_call \<Rightarrow> outboxDB \<Rightarrow> outboxDB" where
  "outbox_step pgt (CallLease locked ctx owner limit now dur) t = snd (Outbox_Lease pgt locked ctx owner limit now dur t)"
| "outbox_step pgt (CallMark ctx i owner now) t = snd (MarkDelivered pgt ctx i owner now t)"
| "outbox_step pgt (CallFail ctx i owner now next maxA reason) t =
     snd (FailDelivery pgt ctx i owner now next maxA reason t)"

text \<open>The rows a call may change.\<close>

fun touches :: "(gotime \<Rightarrow> gotime) \<Rightarrow> outbox_call \<Rightarrow> outboxRow \<Rightarrow> bool" where
  "touches pgt (CallLease locked ctx owner limit now dur) r = outbox_due (pgt now) r"
| "touches pgt (CallMark ctx i owner now) r \<longleftrightarrow>
     ob_id r = i \<and> ob_status r = OutboxDelivering \<and> ob_leaseOwner r = Some owner"
| "touches pgt (CallFail ctx i owner now next maxA reason) r \<longleftrightarrow>
     ob_id r = i \<and> ob_status r = OutboxDelivering \<and> ob_leaseOwner r = Some owner"

lemma candidate_rows:
  "i \<in> set (outbox_candidates locked p limit now t) \<Longrightarrow>
   \<exists>r\<in>set t. ob_id r = i \<and> outbox_scoped p r \<and> outbox_due now r \<and> \<not> locked r"
  by (auto simp: outbox_candidates_def dest!: in_set_takeD)

lemma candidate_due:
  assumes "ob.unique t" and "r \<in> set t" and "ob_id r \<in> set (outbox_candidates locked p limit now t)"
  shows "outbox_due now r \<and> outbox_scoped p r"
  using candidate_rows [OF assms(3)] ob.unique_same [OF assms(1) _ assms(2)] by metis

lemma row_update_id [simp]:
  "ob_id (lease_row owner e r) = ob_id r" "ob_id (delivered_row now r) = ob_id r" "ob_id (failed_row st av reason r) = ob_id r"
  by (simp_all add: lease_row_def delivered_row_def failed_row_def)

lemma outbox_lease_tx_ok:
  assumes "outbox_lease_tx locked owner limit now e p t = Inr (ms, t')"
  defines "chosen \<equiv> \<lambda>r. outbox_scoped p r \<and> ob_id r \<in> set (outbox_candidates locked p limit now t)"
  shows "t' = sql_set chosen (lease_row owner e) t" and "scan_all (filter chosen t') = Inr ms"
    and "\<forall>r\<in>set t. chosen r \<longrightarrow> outbox_row_ok (lease_row owner e r)"
  using assms by (auto simp: outbox_lease_tx_def Let_def sql_update_Inr sum_bind_Inr split: sum.splits)

lemma tx_changes:
  "mark_delivered_tx i owner now p t = Inr (u, t') \<Longrightarrow>
     t' = sql_set (outbox_held p i owner) (delivered_row now) t \<and>
     (\<forall>r\<in>set t. outbox_held p i owner r \<longrightarrow> outbox_row_ok (delivered_row now r))"
  "fail_delivery_tx pgt i owner now next maxA reason p t = Inr (st, t') \<Longrightarrow>
     \<exists>av. t' = sql_set (outbox_held p i owner) (failed_row st av (TrimSpace reason)) t \<and> st \<in> {OutboxPending, OutboxDeadLetter} \<and>
     (\<forall>r\<in>set t. outbox_held p i owner r \<longrightarrow> outbox_row_ok (failed_row st av (TrimSpace reason) r))"
  by (auto simp: mark_delivered_tx_def fail_delivery_tx_def Let_def sql_update_Inr
      split: sum.splits option.splits if_splits)

text \<open>Every call leaves the table as it is, or updates the rows a predicate selects, all of
  which it may touch.\<close>

lemma withScopedTx_change:
  assumes "\<And>p v t'. f p t = Inr (v, t') \<Longrightarrow> R t'"
  shows "snd (withScopedTx ctx f t) = t \<or> R (snd (withScopedTx ctx f t))"
proof (cases "withScopedTx ctx f t")
  case (Pair v t')
  show ?thesis
  proof (cases v)
    case (Inl e)
    then show ?thesis using Pair withScopedTx_err by fastforce
  next
    case (Inr u)
    then obtain p where "f p t = Inr (u, t')" using Pair by (auto simp: withScopedTx_ok)
    from assms [OF this] show ?thesis using Pair by auto
  qed
qed

definition changed :: "(gotime \<Rightarrow> gotime) \<Rightarrow> outbox_call \<Rightarrow> outboxDB \<Rightarrow> outboxDB \<Rightarrow> bool" where
  "changed pgt c t t' \<longleftrightarrow>
     (\<exists>P F. t' = sql_set P F t \<and> (\<forall>r\<in>set t. P r \<longrightarrow> touches pgt c r \<and> outbox_row_ok (F r)) \<and> (\<forall>r. ob_id (F r) = ob_id r))"

lemma changedI:
  "t' = sql_set P F t \<Longrightarrow> (\<And>r. r \<in> set t \<Longrightarrow> P r \<Longrightarrow> touches pgt c r \<and> outbox_row_ok (F r)) \<Longrightarrow>
   (\<And>r. ob_id (F r) = ob_id r) \<Longrightarrow> changed pgt c t t'"
  unfolding changed_def by blast

lemma step_change:
  assumes U: "ob.unique t"
  shows "outbox_step pgt c t = t \<or> changed pgt c t (outbox_step pgt c t)"
proof (cases c)
  case (CallLease locked ctx owner limit now dur)
  let ?f = "outbox_lease_tx locked (TrimSpace owner) (if limit > 1000 then 1000 else limit) (pgt now) (pgt (time_Add now dur))"
  have "changed pgt c t t'" if "?f p t = Inr (v, t')" for p v t'
    by (rule changedI [OF outbox_lease_tx_ok(1) [OF that]])
       (use outbox_lease_tx_ok(3) [OF that] candidate_due [OF U] CallLease in auto)
  from withScopedTx_change [where f = ?f and t = t and ctx = ctx and R = "changed pgt c t", OF this] have "snd (withScopedTx ctx ?f t) = t \<or> changed pgt c t (snd (withScopedTx ctx ?f t))" .
  moreover have "outbox_step pgt c t = t \<or> outbox_step pgt c t = snd (withScopedTx ctx ?f t)"
    unfolding CallLease outbox_step.simps Outbox_Lease_def Let_def by simp
  ultimately show ?thesis by metis
next
  case (CallMark ctx i owner now)
  have "changed pgt c t t'" if "mark_delivered_tx i owner (pgt now) p t = Inr (v, t')" for p v t'
    by (rule changedI [of _ "outbox_held p i owner" "delivered_row (pgt now)"])
       (use tx_changes(1) [OF that] in \<open>auto simp: CallMark outbox_held_def\<close>)
  from withScopedTx_change [where f = "mark_delivered_tx i owner (pgt now)" and t = t and ctx = ctx and R = "changed pgt c t", OF this]
  show ?thesis by (simp add: CallMark MarkDelivered_def)
next
  case (CallFail ctx i owner now nxt maxA reason)
  have "changed pgt c t t'" if tx: "fail_delivery_tx pgt i owner now nxt maxA reason p t = Inr (v, t')" for p v t'
  proof -
    obtain av where "t' = sql_set (outbox_held p i owner) (failed_row v av (TrimSpace reason)) t"
      "\<forall>r\<in>set t. outbox_held p i owner r \<longrightarrow> outbox_row_ok (failed_row v av (TrimSpace reason) r)"
      using tx_changes(2) [OF tx] by blast
    then show ?thesis
      by (intro changedI [of _ "outbox_held p i owner" "failed_row v av (TrimSpace reason)"])
         (auto simp: CallFail outbox_held_def)
  qed
  from withScopedTx_change [where f = "fail_delivery_tx pgt i owner now nxt maxA reason" and t = t and ctx = ctx and R = "changed pgt c t", OF this]
  show ?thesis by (simp add: CallFail FailDelivery_def)
qed

lemma step_unique: "ob.unique t \<Longrightarrow> ob.unique (outbox_step pgt c t)"
  using step_change [of t pgt c] ob.unique_set unfolding changed_def by metis

lemma step_keeps:
  assumes "ob.unique t" and "r \<in> set t" and "\<not> touches pgt c r"
  shows "r \<in> set (outbox_step pgt c t)"
proof -
  consider "outbox_step pgt c t = t"
    | P F where "outbox_step pgt c t = sql_set P F t" "\<forall>r\<in>set t. P r \<longrightarrow> touches pgt c r"
    using step_change [OF assms(1), of pgt c] unfolding changed_def by blast
  then show ?thesis
  proof cases
    case 2
    then have "\<not> P r" using assms(2,3) by blast
    then show ?thesis using 2(1) assms(2) by (auto simp: set_sql_set intro!: bexI [of _ r])
  qed (use assms(2) in simp)
qed

lemma steps_keep:
  assumes "ob.unique t" and "r \<in> set t" and "\<forall>c\<in>set cs. \<not> touches pgt c r"
  shows "r \<in> set (fold (outbox_step pgt) cs t) \<and> ob.unique (fold (outbox_step pgt) cs t)"
  using assms by (induction cs arbitrary: t) (simp_all add: step_keeps step_unique)

lemma scan_all_row:
  "scan_all rs = Inr ms \<Longrightarrow> m \<in> set ms \<Longrightarrow>
   \<exists>r\<in>set rs. ob_message r = lo_Message m \<and> ob_leaseOwner r = Some (lo_LeaseOwner m) \<and> ob_leaseExpiresAt r = Some (lo_LeaseExpiresAt m)"
  by (induction rs arbitrary: ms)
     (auto simp: sum_bind_Inr scanLeasedOutbox_def split: option.splits if_splits)

lemma Outbox_Lease_ok:
  assumes "Outbox_Lease pgt locked ctx owner limit now dur t = (Inr ms, t')"
  obtains p n where "tx_scope ctx = Some p" "TrimSpace owner \<noteq> []"
    "outbox_lease_tx locked (TrimSpace owner) n (pgt now) (pgt (time_Add now dur)) p t = Inr (ms, t')"
  using assms that by (auto simp: Outbox_Lease_def Let_def withScopedTx_ok tx_scope_Some split: if_splits)

text \<open>A message handed out is a row of the table that was due and is now under the lease.\<close>

lemma leased_row:
  assumes "Outbox_Lease pgt locked ctx owner limit now dur t = (Inr ms, t')" and "m \<in> set ms" and "ob.unique t"
  shows "\<exists>r\<in>set t. outbox_due (pgt now) r \<and> ob_id r = om_OutboxID (lo_Message m)"
    and "\<exists>r\<in>set t'. ob_message r = lo_Message m \<and> ob_status r = OutboxDelivering \<and>
           ob_leaseOwner r = Some (TrimSpace owner) \<and> ob_leaseExpiresAt r = Some (pgt (time_Add now dur))"
proof -
  from Outbox_Lease_ok [OF assms(1)] obtain p n where
    tx: "outbox_lease_tx locked (TrimSpace owner) n (pgt now) (pgt (time_Add now dur)) p t = Inr (ms, t')" by metis
  note ok = outbox_lease_tx_ok [OF tx]
  obtain r' where r': "r' \<in> set t'" "ob_id r' \<in> set (outbox_candidates locked p n (pgt now) t)" "outbox_scoped p r'"
    "ob_message r' = lo_Message m"
    using scan_all_row [OF ok(2) assms(2)] by auto
  then obtain r where r: "r \<in> set t" "r' = (if outbox_scoped p r \<and> ob_id r \<in> set (outbox_candidates locked p n (pgt now) t)
      then lease_row (TrimSpace owner) (pgt (time_Add now dur)) r else r)"
    using ok(1) by (auto simp: set_sql_set)
  have "ob_id r = ob_id r'" using r(2) by (auto split: if_splits)
  with r'(2) have c: "ob_id r \<in> set (outbox_candidates locked p n (pgt now) t)" by simp
  from candidate_due [OF assms(3) r(1) this] have d: "outbox_due (pgt now) r" "outbox_scoped p r" by blast+
  show "\<exists>r\<in>set t. outbox_due (pgt now) r \<and> ob_id r = om_OutboxID (lo_Message m)"
    by (rule bexI [OF _ r(1)]) (use d(1) r'(4) \<open>ob_id r = ob_id r'\<close> in simp)
  have "r' = lease_row (TrimSpace owner) (pgt (time_Add now dur)) r"
    using r(2) c d(2) by (simp only: simp_thms if_True)
  then have "ob_status r' = OutboxDelivering" "ob_leaseOwner r' = Some (TrimSpace owner)"
    "ob_leaseExpiresAt r' = Some (pgt (time_Add now dur))"
    by (simp_all add: lease_row_def)
  then show "\<exists>r\<in>set t'. ob_message r = lo_Message m \<and> ob_status r = OutboxDelivering \<and>
           ob_leaseOwner r = Some (TrimSpace owner) \<and> ob_leaseExpiresAt r = Some (pgt (time_Add now dur))"
    using r'(1,4) by blast
qed

lemma lease_unique:
  assumes "Outbox_Lease pgt locked ctx owner limit now dur t = (Inr ms, t')" and "ob.unique t"
  shows "ob.unique t'"
  using step_unique [OF assms(2), of pgt "CallLease locked ctx owner limit now dur"] assms(1) by simp

text \<open>The calls that leave a lease alone: leases taken before it expires, and completions by
  other owners or for other messages.\<close>

fun leaves_alone :: "(gotime \<Rightarrow> gotime) \<Rightarrow> string \<Rightarrow> string \<Rightarrow> gotime \<Rightarrow> outbox_call \<Rightarrow> bool" where
  "leaves_alone pgt i owner expires (CallLease locked ctx o' limit now dur) \<longleftrightarrow> pgt now < expires"
| "leaves_alone pgt i owner expires (CallMark ctx j o' now) \<longleftrightarrow> j \<noteq> i \<or> o' \<noteq> owner"
| "leaves_alone pgt i owner expires (CallFail ctx j o' now nxt maxA reason) \<longleftrightarrow> j \<noteq> i \<or> o' \<noteq> owner"

lemma leaves_alone_touches:
  "leaves_alone pgt i owner expires c \<Longrightarrow> ob_id r = i \<Longrightarrow> ob_status r = OutboxDelivering \<Longrightarrow>
   ob_leaseOwner r = Some owner \<Longrightarrow> ob_leaseExpiresAt r = Some expires \<Longrightarrow> \<not> touches pgt c r"
  by (cases c) (auto simp: outbox_due_def)

text \<open>C9: A leased message has one holder. Once a dispatcher has leased a message, then whatever
  leases are taken in any scope before that lease expires, and whatever other dispatchers report
  about this or other messages, the message is still under that lease, with its owner, and
  no further lease before the expiry hands it out.\<close>

theorem outbox_lease_exclusive:
  assumes U: "distinct (map ob_id t0)"
    and lease: "Outbox_Lease pgt locked ctx owner limit now dur t0 = (Inr ms, t1)" and m: "m \<in> set ms"
    and calls: "\<forall>c\<in>set cs. leaves_alone pgt (om_OutboxID (lo_Message m)) (TrimSpace owner) (pgt (time_Add now dur)) c"
    and again: "Outbox_Lease pgt locked' ctx' owner' limit' now' dur' (fold (outbox_step pgt) cs t1) = (Inr ms', t2)"
    and early: "pgt now' < pgt (time_Add now dur)"
  shows "(\<exists>r\<in>set t2. ob_message r = lo_Message m \<and> ob_leaseOwner r = Some (TrimSpace owner)) \<and>
    (\<forall>m'\<in>set ms'. om_OutboxID (lo_Message m') \<noteq> om_OutboxID (lo_Message m))"
proof -
  have U: "ob.unique t0" using U by (simp add: ob.unique_def)
  obtain r where r: "r \<in> set t1" "ob_message r = lo_Message m" "ob_status r = OutboxDelivering"
    "ob_leaseOwner r = Some (TrimSpace owner)" "ob_leaseExpiresAt r = Some (pgt (time_Add now dur))"
    using leased_row(2) [OF lease m U] by blast
  have "ob_id r = om_OutboxID (lo_Message m)" using r(2) by simp
  then have alone: "\<not> touches pgt c r" if "c \<in> set cs" for c
    using leaves_alone_touches [OF _ _ r(3-5)] calls that by blast
  note kept = steps_keep [OF lease_unique [OF lease U] r(1), of cs pgt]
  have r1: "r \<in> set (fold (outbox_step pgt) cs t1)" and U1: "ob.unique (fold (outbox_step pgt) cs t1)"
    using kept alone by blast+
  let ?c = "CallLease locked' ctx' owner' limit' now' dur'"
  have nd: "\<not> outbox_due (pgt now') r" using early r(3,5) by (simp add: outbox_due_def)
  then have "r \<in> set t2" using step_keeps [OF U1 r1, of pgt ?c] again by simp
  moreover have "om_OutboxID (lo_Message m') \<noteq> om_OutboxID (lo_Message m)" if "m' \<in> set ms'" for m'
    using leased_row(1) [OF again that U1] ob.unique_same [OF U1 r1] nd r(2) by metis
  ultimately show ?thesis using r(2,4) by blast
qed

lemma final_untouched:
  "ob_status r \<in> {OutboxDelivered, OutboxDeadLetter} \<Longrightarrow> \<not> touches pgt c r"
  by (cases c) (auto simp: outbox_due_def)

text \<open>C32: Delivered and dead-lettered messages are final. No sequence of leases, deliveries and
  failures, by any dispatcher in any scope at any time, changes the row of a message that has been
  delivered or dead-lettered, and none hands the message out again.\<close>

theorem outbox_final:
  assumes U: "distinct (map ob_id t)" and r: "r \<in> set t" "ob_status r \<in> {OutboxDelivered, OutboxDeadLetter}"
    and lease: "Outbox_Lease pgt locked ctx owner limit now dur (fold (outbox_step pgt) cs t) = (Inr ms, t')"
  shows "r \<in> set t' \<and> (\<forall>m\<in>set ms. om_OutboxID (lo_Message m) \<noteq> ob_id r)"
proof -
  have U: "ob.unique t" using U by (simp add: ob.unique_def)
  have r1: "r \<in> set (fold (outbox_step pgt) cs t)" and U1: "ob.unique (fold (outbox_step pgt) cs t)"
    using steps_keep [OF U r(1), of cs pgt] final_untouched [OF r(2)] by blast+
  have nd: "\<not> outbox_due (pgt now) r" using r(2) by (auto simp: outbox_due_def)
  then have "r \<in> set t'"
    using step_keeps [OF U1 r1, of pgt "CallLease locked ctx owner limit now dur"] lease by simp
  moreover have "om_OutboxID (lo_Message m) \<noteq> ob_id r" if "m \<in> set ms" for m
    using leased_row(1) [OF lease that U1] ob.unique_same [OF U1 r1] nd by metis
  ultimately show ?thesis by blast
qed

section \<open>Instances\<close>

definition outbox_ctx :: pcontext where
  "outbox_ctx = Some
     \<lparr>p_Type = PrincipalUser, p_SubjectID = ''u'', p_TenantID = ''t'', p_ProjectID = ''p'', p_Roles = [],
      p_Capabilities = [], p_AuthnMethod = ''oidc'', p_Issuer = [], p_SessionID = [], p_Purpose = []\<rparr>"

definition ob_demo_message :: "string \<Rightarrow> OutboxStatus \<Rightarrow> OutboxMessage" where
  "ob_demo_message i st =
     \<lparr>om_OutboxID = i, om_TenantID = ''t'', om_ProjectID = ''p'', om_TaskID = ''k'', om_AggregateType = ''Task'',
      om_AggregateID = ''k'', om_EventType = ''e'', om_Payload = ''{}'', om_Destination = ''d'', om_IdempotencyKey = i,
      om_Status = st, om_Attempts = 0, om_AvailableAt = 5, om_CreatedAt = 4, om_DeliveredAt = None\<rparr>"

definition ob_demo_row :: "string \<Rightarrow> OutboxStatus \<Rightarrow> outboxRow" where
  "ob_demo_row i st = \<lparr>ob_message = ob_demo_message i st, ob_leaseOwner = None, ob_leaseExpiresAt = None, ob_lastError = None\<rparr>"

definition ob_demo_table :: outboxDB where
  "ob_demo_table = [ob_demo_row ''a'' OutboxPending, ob_demo_row ''b'' OutboxPending, ob_demo_row ''c'' OutboxDeadLetter]"

definition ob_demo_lease :: "string \<Rightarrow> int \<Rightarrow> gotime \<Rightarrow> outboxDB \<Rightarrow> (goerr + LeasedOutboxMessage list) \<times> outboxDB" where
  "ob_demo_lease owner limit now t = Outbox_Lease (\<lambda>x. x) (\<lambda>_. False) outbox_ctx owner limit now 100 t"

definition ob_demo_calls :: "outbox_call list" where
  "ob_demo_calls = [CallMark outbox_ctx ''a'' ''w2'' 15]"

definition ob_demo_first :: "(goerr + LeasedOutboxMessage list) \<times> outboxDB" where
  "ob_demo_first = ob_demo_lease ''w1'' 1 10 ob_demo_table"

definition ob_demo_second :: "(goerr + LeasedOutboxMessage list) \<times> outboxDB" where
  "ob_demo_second = ob_demo_lease ''w2'' 5 20 (fold (outbox_step (\<lambda>x. x)) ob_demo_calls (snd ob_demo_first))"

lemma lease_succeeds: "\<not> isl (fst l) \<Longrightarrow> l = (Inr (projr (fst l)), snd l)"
  by (metis prod.collapse sum.collapse(2))

lemma ob_demo_runs: "\<not> isl (fst ob_demo_first)" "\<not> isl (fst ob_demo_second)"
  by code_simp+

text \<open>One dispatcher leases the first message; another marks it delivered in vain and then gets
  the second message only.\<close>

theorem outbox_lease_exclusive_witness:
  "''a'' \<notin> (\<lambda>m. om_OutboxID (lo_Message m)) ` set (projr (fst ob_demo_second))"
proof -
  have "map (\<lambda>m. om_OutboxID (lo_Message m)) (projr (fst ob_demo_first)) = [''a'']" by code_simp
  then obtain m where m: "m \<in> set (projr (fst ob_demo_first))" "om_OutboxID (lo_Message m) = ''a''"
    by (cases "projr (fst ob_demo_first)") auto
  have u: "distinct (map ob_id ob_demo_table)" by code_simp
  have w: "TrimSpace ''w1'' = ''w1''" by code_simp
  have c: "\<forall>c\<in>set ob_demo_calls. leaves_alone (\<lambda>x. x) (om_OutboxID (lo_Message m)) (TrimSpace ''w1'') (time_Add 10 100) c"
    by (simp add: w ob_demo_calls_def)
  have l1: "Outbox_Lease (\<lambda>x. x) (\<lambda>_. False) outbox_ctx ''w1'' 1 10 100 ob_demo_table =
      (Inr (projr (fst ob_demo_first)), snd ob_demo_first)"
    using lease_succeeds [OF ob_demo_runs(1)] by (metis ob_demo_first_def ob_demo_lease_def)
  have l2: "Outbox_Lease (\<lambda>x. x) (\<lambda>_. False) outbox_ctx ''w2'' 5 20 100
      (fold (outbox_step (\<lambda>x. x)) ob_demo_calls (snd ob_demo_first)) = (Inr (projr (fst ob_demo_second)), snd ob_demo_second)"
    using lease_succeeds [OF ob_demo_runs(2)] by (metis ob_demo_second_def ob_demo_lease_def)
  have "(20::int) < time_Add 10 100" by (simp add: time_Add_def)
  from outbox_lease_exclusive [OF u l1 m(1) c l2 this] m(2) show ?thesis by auto
qed

theorem outbox_final_witness:
  "''c'' \<notin> (\<lambda>m. om_OutboxID (lo_Message m)) ` set (projr (fst ob_demo_first))"
proof -
  have u: "distinct (map ob_id ob_demo_table)" by code_simp
  have r: "ob_demo_row ''c'' OutboxDeadLetter \<in> set ob_demo_table"
    "ob_status (ob_demo_row ''c'' OutboxDeadLetter) \<in> {OutboxDelivered, OutboxDeadLetter}"
    "ob_id (ob_demo_row ''c'' OutboxDeadLetter) = ''c''"
    by (simp_all add: ob_demo_table_def ob_demo_row_def ob_demo_message_def)
  have l: "Outbox_Lease (\<lambda>x. x) (\<lambda>_. False) outbox_ctx ''w1'' 1 10 100 (fold (outbox_step (\<lambda>x. x)) [] ob_demo_table) =
      (Inr (projr (fst ob_demo_first)), snd ob_demo_first)"
    using lease_succeeds [OF ob_demo_runs(1)] by (metis ob_demo_first_def ob_demo_lease_def fold_simps(1))
  from outbox_final [OF u r(1,2) l] r(3) show ?thesis by auto
qed

text \<open>A round on the table above: the first message is delivered; delivering the second fails, and it is
  retried.\<close>

definition ob_demo_dispatcher :: "outboxDB Dispatcher" where
  "ob_demo_dispatcher =
     \<lparr>ds_store =
        \<lparr>os_Lease = Outbox_Lease (\<lambda>x. x) (\<lambda>_. False) outbox_ctx, os_MarkDelivered = MarkDelivered (\<lambda>x. x) outbox_ctx,
         os_FailDelivery = FailDelivery (\<lambda>x. x) outbox_ctx\<rparr>,
      ds_owner = ''w1'', ds_leaseDuration = 100, ds_maxAttempts = 3, ds_baseBackoff = Second,
      ds_adapters = [(''d'', \<lambda>m w. (if om_OutboxID m = ''a'' then None else Some (ErrNew ''refused''), w))]\<rparr>"

definition ob_demo_round :: "(DispatchResult \<times> goerr option) \<times> outboxDB" where
  "ob_demo_round = DispatchOnce ob_demo_dispatcher (\<lambda>k. 10 + int k) 5 ob_demo_table"

theorem DispatchOnce_accounts_witness:
  "dr_Leased (fst (fst ob_demo_round)) = 2 \<and>
   dr_Delivered (fst (fst ob_demo_round)) + dr_Retried (fst (fst ob_demo_round)) + dr_DeadLetter (fst (fst ob_demo_round)) +
     dr_Failed (fst (fst ob_demo_round)) = 2"
proof -
  let ?l = "os_Lease (ds_store ob_demo_dispatcher) (ds_owner ob_demo_dispatcher) 5 10 (ds_leaseDuration ob_demo_dispatcher) ob_demo_table"
  have l: "\<not> isl (fst ?l)" "length (projr (fst ?l)) = 2"
    "list_all (\<lambda>item. gomap_get (ds_adapters ob_demo_dispatcher) (om_Destination (lo_Message item)) \<noteq> None) (projr (fst ?l))"
    by (code_simp, code_simp, code_simp)
  have r: "DispatchOnce ob_demo_dispatcher (\<lambda>k. 10 + int k) 5 ob_demo_table =
      ((fst (fst ob_demo_round), snd (fst ob_demo_round)), snd ob_demo_round)"
    by (simp add: ob_demo_round_def)
  have "?l = (Inr (projr (fst ?l)), snd ?l)" using lease_succeeds [OF l(1)] .
  then have "os_Lease (ds_store ob_demo_dispatcher) (ds_owner ob_demo_dispatcher) 5 (10 + int 0) (ds_leaseDuration ob_demo_dispatcher)
      ob_demo_table = (Inr (projr (fst ?l)), snd ?l)" by simp
  from DispatchOnce_accounts [OF r this] l(2,3) show ?thesis by simp
qed

end
