(* ===== verification/Go_Strings.thy ===== *)
theory Go_Strings
  imports Go_Prelude "HOL-Library.Multiset"
begin

text \<open>
  Case-insensitive comparison and stable sorting. \<open>strings.EqualFold\<close> compares ASCII
  strings letter by letter; the Unicode case tables, consulted only when a string has a
  byte outside ASCII, are the parameter \<open>ufold\<close>. \<open>sort.SliceStable\<close> is the insertion
  sort the library runs on up to twenty items; beyond that the library merges such blocks,
  with the same result whenever the comparison is a strict weak order, since the stable
  sorted arrangement is then the only one.
\<close>

section \<open>Case folding\<close>

type_synonym unicode_fold = "string \<Rightarrow> string \<Rightarrow> bool"

definition ascii :: "char \<Rightarrow> bool" where
  "ascii c \<longleftrightarrow> of_char c < (128::int)"

definition lower_char :: "char \<Rightarrow> char" where
  "lower_char c = (if 65 \<le> (of_char c :: int) \<and> of_char c \<le> (90::int) then char_of (of_char c + 32 :: int) else c)"

definition EqualFold :: "unicode_fold \<Rightarrow> string \<Rightarrow> string \<Rightarrow> bool" where
  "EqualFold ufold s t =
     (if list_all ascii s \<and> list_all ascii t then map lower_char s = map lower_char t else ufold s t)"

lemma EqualFold_ascii_refl: "list_all ascii s \<Longrightarrow> EqualFold ufold s s"
  by (simp add: EqualFold_def)

definition containsFold :: "unicode_fold \<Rightarrow> string list \<Rightarrow> string \<Rightarrow> bool" where
  "containsFold ufold items target = list_ex (\<lambda>item. EqualFold ufold item target) items"

section \<open>Stable sorting\<close>

text \<open>The sorted prefix is kept reversed: a new item moves left past every item it is less
  than.\<close>

fun ins_back :: "('a \<Rightarrow> 'a \<Rightarrow> bool) \<Rightarrow> 'a \<Rightarrow> 'a list \<Rightarrow> 'a list" where
  "ins_back lt x [] = [x]"
| "ins_back lt x (y # ys) = (if lt x y then y # ins_back lt x ys else x # y # ys)"

definition SliceStable :: "('a \<Rightarrow> 'a \<Rightarrow> bool) \<Rightarrow> 'a list \<Rightarrow> 'a list" where
  "SliceStable lt xs = rev (fold (ins_back lt) xs [])"

lemma mset_ins_back [simp]: "mset (ins_back lt x ys) = add_mset x (mset ys)"
  by (induction ys) auto

lemma mset_fold_ins_back: "mset (fold (ins_back lt) xs ys) = mset xs + mset ys"
  by (induction xs arbitrary: ys) auto

lemma SliceStable_mset [simp]: "mset (SliceStable lt xs) = mset xs"
  by (simp add: SliceStable_def mset_fold_ins_back)

lemma SliceStable_set [simp]: "set (SliceStable lt xs) = set xs"
  by (rule mset_eq_setD) simp

lemma SliceStable_length [simp]: "length (SliceStable lt xs) = length xs"
  by (rule mset_eq_length) simp

lemma SliceStable_Nil [simp]: "SliceStable lt [] = []"
  by (simp add: SliceStable_def)

lemma SliceStable_eq_Nil [simp]: "SliceStable lt xs = [] \<longleftrightarrow> xs = []"
  by (metis SliceStable_length length_0_conv)

lemma filter_ins_back:
  assumes "\<And>a b. P a \<Longrightarrow> P b \<Longrightarrow> \<not> lt a b"
  shows "filter P (ins_back lt x ys) = filter P (x # ys)"
proof (induction ys)
  case (Cons y ys)
  show ?case
  proof (cases "lt x y")
    case True
    then have "\<not> (P x \<and> P y)" using assms by blast
    with True Cons show ?thesis by auto
  qed simp
qed simp

text \<open>Items that do not compare keep their order.\<close>

lemma SliceStable_stable:
  assumes "\<And>a b. P a \<Longrightarrow> P b \<Longrightarrow> \<not> lt a b"
  shows "filter P (SliceStable lt xs) = filter P xs"
proof -
  have "filter P (fold (ins_back lt) xs ys) = rev (filter P xs) @ filter P ys" for ys
    by (induction xs arbitrary: ys) (simp_all add: filter_ins_back [of P lt, OF assms])
  then show ?thesis by (simp add: SliceStable_def rev_filter [symmetric])
qed

locale weak_order =
  fixes ok :: "'a \<Rightarrow> bool" and lt :: "'a \<Rightarrow> 'a \<Rightarrow> bool"
  assumes asym: "ok x \<Longrightarrow> ok y \<Longrightarrow> lt x y \<Longrightarrow> \<not> lt y x"
    and negtrans: "ok x \<Longrightarrow> ok y \<Longrightarrow> ok z \<Longrightarrow> lt x z \<Longrightarrow> lt x y \<or> lt y z"
begin

lemma notless_trans: "ok x \<Longrightarrow> ok y \<Longrightarrow> ok z \<Longrightarrow> \<not> lt x y \<Longrightarrow> \<not> lt y z \<Longrightarrow> \<not> lt x z"
  using negtrans by blast

lemma set_ins_back: "set (ins_back lt x ys) = insert x (set ys)"
  using mset_eq_setD [of "ins_back lt x ys" "x # ys"] by simp

lemma ins_back_sorted:
  assumes "ok x" and "\<forall>y\<in>set ys. ok y" and "sorted_wrt (\<lambda>a b. \<not> lt a b) ys"
  shows "sorted_wrt (\<lambda>a b. \<not> lt a b) (ins_back lt x ys)"
  using assms
proof (induction ys)
  case (Cons y ys)
  show ?case
  proof (cases "lt x y")
    case True
    then have "\<not> lt y x" using Cons.prems asym by simp
    with True Cons show ?thesis by (simp add: set_ins_back)
  next
    case False
    then have "\<forall>z\<in>set ys. \<not> lt x z" using Cons.prems notless_trans [of x y] by auto
    with False Cons.prems show ?thesis by simp
  qed
qed simp

lemma SliceStable_sorted:
  assumes "\<forall>x\<in>set xs. ok x"
  shows "sorted_wrt (\<lambda>a b. \<not> lt b a) (SliceStable lt xs)"
proof -
  have "sorted_wrt (\<lambda>a b. \<not> lt a b) (fold (ins_back lt) xs ys) "
    if "\<forall>y\<in>set ys. ok y" and "sorted_wrt (\<lambda>a b. \<not> lt a b) ys" for ys
    using assms that
  proof (induction xs arbitrary: ys)
    case (Cons x xs)
    then show ?case by (simp add: ins_back_sorted set_ins_back)
  qed simp
  from this [of "[]"] show ?thesis by (simp add: SliceStable_def sorted_wrt_rev)
qed

text \<open>The first item of the sorted list is beaten by none.\<close>

lemma SliceStable_hd:
  assumes "\<forall>x\<in>set xs. ok x" and "xs \<noteq> []" and "y \<in> set xs"
  shows "\<not> lt y (hd (SliceStable lt xs))"
proof -
  obtain z zs where z: "SliceStable lt xs = z # zs"
    using assms(2) by (metis SliceStable_eq_Nil list.exhaust)
  have "y \<in> set (z # zs)" using assms(3) z by (metis SliceStable_set)
  moreover have "\<forall>y\<in>set zs. \<not> lt y z" using SliceStable_sorted [OF assms(1)] z by simp
  moreover have "z \<in> set xs" using z by (metis SliceStable_set list.set_intros(1))
  then have "\<not> lt z z" using asym assms(1) by blast
  ultimately show ?thesis using z by auto
qed

end

interpretation before: weak_order "\<lambda>_. True" "\<lambda>a b. time_Before (f a) (f b)"
  by unfold_locales (auto simp: time_Before_def)

end
