(* ===== verification/Admission.thy ===== *)
theory Admission
  imports Domain_Types Go_Strings
begin

text \<open>
  Package admission (src/internal/admission/admission.go): evidence records about model
  versions, the in-memory store that keeps them, and the check that decides whether a model
  version may be routed to. The store's map is an association list whose order is the order
  \<open>range\<close> happens to visit; the mutex makes each operation atomic. The service talks to a
  store through its interface, here the listing function.
\<close>

datatype AdmissionStatus =
    StatusCollected | StatusReviewed | StatusApproved | StatusRestricted | StatusRejected | StatusRevoked
  | AdmissionStatusOther string

record AdmissionEvidence =
  ae_ID :: string
  ae_ModelID :: string
  ae_ModelVersion :: string
  ae_Status :: AdmissionStatus
  ae_LicenseID :: string
  ae_LicenseTextRef :: string
  ae_SourceRef :: string
  ae_UpstreamModels :: "string list"
  ae_DatasetRefs :: "string list"
  ae_CommercialUseAllowed :: bool
  ae_HostedServiceAllowed :: bool
  ae_RedistributionAllowed :: bool
  ae_NoticeRequired :: bool
  ae_NoticeRef :: string
  ae_ArtifactDigest :: string
  ae_ArtifactSignature :: string
  ae_SecurityScanRef :: string
  ae_Reviewer :: string
  ae_ReviewedAt :: "gotime option"
  ae_EvidenceDigest :: string
  ae_CreatedAt :: gotime

record AdmissionDecision =
  ad_Allowed :: bool
  ad_EvidenceID :: string
  ad_Reasons :: "string list"

section \<open>The in-memory store\<close>

type_synonym admission_store = "(string, AdmissionEvidence) gomap"

definition NewAdmissionStore :: admission_store where
  "NewAdmissionStore = []"

text \<open>Cloning copies the two slices, so it keeps every value.\<close>

definition cloneEvidence :: "AdmissionEvidence \<Rightarrow> AdmissionEvidence" where
  "cloneEvidence e = e\<lparr>ae_UpstreamModels := [] @ ae_UpstreamModels e, ae_DatasetRefs := [] @ ae_DatasetRefs e\<rparr>"

lemma cloneEvidence_id [simp]: "cloneEvidence e = e"
  by (simp add: cloneEvidence_def)

definition AdmissionStore_Append :: "AdmissionEvidence \<Rightarrow> admission_store \<Rightarrow> goerr option \<times> admission_store" where
  "AdmissionStore_Append e m =
     (if gomap_get m (ae_ID e) \<noteq> None then (Some (Errorf ''admission evidence already exists'' []), m)
      else (None, gomap_put (ae_ID e) (cloneEvidence e) m))"

definition AdmissionStore_Get :: "string \<Rightarrow> admission_store \<Rightarrow> goerr + AdmissionEvidence" where
  "AdmissionStore_Get k m =
     (case gomap_get m k of
        None \<Rightarrow> Inl (Errorf ''admission evidence not found'' [])
      | Some e \<Rightarrow> Inr (cloneEvidence e))"

definition AdmissionStore_ListByModel :: "admission_store \<Rightarrow> string \<Rightarrow> string \<Rightarrow> goerr + AdmissionEvidence list" where
  "AdmissionStore_ListByModel m modelID modelVersion =
     Inr (SliceStable (\<lambda>a b. time_Before (ae_CreatedAt a) (ae_CreatedAt b))
       (map cloneEvidence
          (filter (\<lambda>e. ae_ModelID e = modelID \<and> ae_ModelVersion e = modelVersion) (map snd m))))"

section \<open>The service\<close>

definition Admission_Append ::
  "(AdmissionEvidence \<Rightarrow> 's \<Rightarrow> goerr option \<times> 's) \<Rightarrow> gotime \<Rightarrow> AdmissionEvidence \<Rightarrow> 's \<Rightarrow> goerr option \<times> 's" where
  "Admission_Append storeAppend now e s =
     (if ae_ID e = [] \<or> ae_ModelID e = [] \<or> ae_ModelVersion e = [] \<or> ae_EvidenceDigest e = [] then
        (Some (Errorf ''evidence ID, model identity and evidence digest are required'' []), s)
      else storeAppend (if time_IsZero (ae_CreatedAt e) then e\<lparr>ae_CreatedAt := now\<rparr> else e) s)"

definition require :: "string \<Rightarrow> string \<Rightarrow> string list" where
  "require v reason = (if v = [] then [reason] else [])"

definition validateEvidence :: "Model \<Rightarrow> AdmissionEvidence \<Rightarrow> string list" where
  "validateEvidence model e =
     require (ae_LicenseID e) ''license identifier is missing'' @
     require (ae_LicenseTextRef e) ''authoritative license text reference is missing'' @
     require (ae_SourceRef e) ''model source reference is missing'' @
     require (ae_Reviewer e) ''evidence reviewer is missing'' @
     require (ae_EvidenceDigest e) ''evidence digest is missing'' @
     (if ae_ReviewedAt e = None then [''evidence review time is missing''] else []) @
     (if \<not> ae_CommercialUseAllowed e then [''commercial use is not allowed''] else []) @
     (if md_DeploymentMode model = DeploymentPublicAPI \<or> md_DeploymentMode model = DeploymentEnterpriseAPI
         \<or> md_DeploymentMode model = DeploymentPrivateEndpoint
      then if \<not> ae_HostedServiceAllowed e then [''hosted-service use is not allowed''] else []
      else []) @
     (if md_DeploymentMode model = DeploymentSelfHosted \<or> md_DeploymentMode model = DeploymentLocal
      then require (ae_ArtifactDigest e) ''self-hosted artifact digest is missing'' @
           require (ae_ArtifactSignature e) ''self-hosted artifact signature is missing'' @
           require (ae_SecurityScanRef e) ''self-hosted security scan evidence is missing''
      else []) @
     (if ae_NoticeRequired e \<and> ae_NoticeRef e = []
      then [''required attribution or notice evidence is missing''] else [])"

text \<open>The loop of \<open>Check\<close> runs from the last record to the first: the argument here is the
  reversed list.\<close>

fun check_records :: "Model \<Rightarrow> AdmissionEvidence list \<Rightarrow> AdmissionDecision" where
  "check_records model [] =
     \<lparr>ad_Allowed = False, ad_EvidenceID = [],
      ad_Reasons = [''no approved evidence record exists for the immutable model version'']\<rparr>"
| "check_records model (e # es) =
     (if ae_Status e = StatusRevoked then
        \<lparr>ad_Allowed = False, ad_EvidenceID = ae_ID e, ad_Reasons = [''latest model evidence is revoked'']\<rparr>
      else if ae_Status e \<noteq> StatusApproved \<and> ae_Status e \<noteq> StatusRestricted then check_records model es
      else let reasons = validateEvidence model e
           in \<lparr>ad_Allowed = (length reasons = 0), ad_EvidenceID = ae_ID e, ad_Reasons = reasons\<rparr>)"

definition Admission_Check ::
  "(string \<Rightarrow> string \<Rightarrow> goerr + AdmissionEvidence list) \<Rightarrow> Model \<Rightarrow> goerr + AdmissionDecision" where
  "Admission_Check listByModel model =
     (if md_ApprovalStatus model \<noteq> ApprovalApproved then
        Inr \<lparr>ad_Allowed = False, ad_EvidenceID = [], ad_Reasons = [''model approval status is not approved'']\<rparr>
      else sum_bind (listByModel (md_ID model) (md_Version model))
             (\<lambda>records. Inr (check_records model (rev records))))"

section \<open>What the check decides\<close>

definition decisive :: "AdmissionEvidence \<Rightarrow> bool" where
  "decisive e \<longleftrightarrow> ae_Status e \<in> {StatusApproved, StatusRestricted, StatusRevoked}"

definition evidence_for :: "Model \<Rightarrow> AdmissionEvidence \<Rightarrow> bool" where
  "evidence_for model e \<longleftrightarrow> ae_ModelID e = md_ID model \<and> ae_ModelVersion e = md_Version model"

lemma check_records_find:
  "check_records model es =
     (case find decisive es of
        None \<Rightarrow> check_records model []
      | Some e \<Rightarrow> check_records model [e])"
  by (induction es) (auto simp: decisive_def Let_def)

lemma find_decisive_latest:
  assumes "find decisive (rev es) = Some e"
    and "sorted_wrt (\<lambda>a b. \<not> time_Before (ae_CreatedAt b) (ae_CreatedAt a)) es"
    and "e' \<in> set es" and "decisive e'"
  shows "ae_CreatedAt e' \<le> ae_CreatedAt e"
  using assms
proof (induction es rule: rev_induct)
  case (snoc x es)
  then show ?case
    by (cases "decisive x") (auto simp: sorted_wrt_append time_Before_def not_less find_Some_iff dest: nth_mem)
qed simp

lemma list_by_model:
  assumes "AdmissionStore_ListByModel m (md_ID model) (md_Version model) = Inr es"
  shows "set es = {e \<in> snd ` set m. evidence_for model e}"
    and "sorted_wrt (\<lambda>a b. \<not> time_Before (ae_CreatedAt b) (ae_CreatedAt a)) es"
  using assms before.SliceStable_sorted [of _ ae_CreatedAt]
  by (force simp: AdmissionStore_ListByModel_def evidence_for_def)+

lemma find_SomeD: "find P xs = Some x \<Longrightarrow> x \<in> set xs \<and> P x"
  by (auto simp: find_Some_iff)

text \<open>C13: Admission is sound. When the check admits a model against the evidence store, the
  model is approved and there is an approved or restricted record for exactly that model version
  with complete licence, source and review evidence, permission for commercial use, permission for
  hosted use when the model is served from an API, artifact and scan evidence when it is
  self-hosted, and notice evidence when required; and no approved, restricted or revoked
  record of that version is newer.\<close>

theorem admission_sound:
  assumes "Admission_Check (AdmissionStore_ListByModel m) model = Inr d" and "ad_Allowed d"
  shows "md_ApprovalStatus model = ApprovalApproved \<and>
    (\<exists>e\<in>snd ` set m. evidence_for model e \<and> ae_ID e = ad_EvidenceID d \<and>
       ae_Status e \<in> {StatusApproved, StatusRestricted} \<and>
       ae_LicenseID e \<noteq> [] \<and> ae_LicenseTextRef e \<noteq> [] \<and> ae_SourceRef e \<noteq> [] \<and>
       ae_Reviewer e \<noteq> [] \<and> ae_ReviewedAt e \<noteq> None \<and> ae_CommercialUseAllowed e \<and>
       (md_DeploymentMode model \<in> {DeploymentPublicAPI, DeploymentEnterpriseAPI, DeploymentPrivateEndpoint} \<longrightarrow>
          ae_HostedServiceAllowed e) \<and>
       (md_DeploymentMode model \<in> {DeploymentSelfHosted, DeploymentLocal} \<longrightarrow>
          ae_ArtifactDigest e \<noteq> [] \<and> ae_ArtifactSignature e \<noteq> [] \<and> ae_SecurityScanRef e \<noteq> []) \<and>
       (ae_NoticeRequired e \<longrightarrow> ae_NoticeRef e \<noteq> []) \<and>
       (\<forall>e'\<in>snd ` set m. evidence_for model e' \<and> decisive e' \<longrightarrow> ae_CreatedAt e' \<le> ae_CreatedAt e))"
proof -
  have ap: "md_ApprovalStatus model = ApprovalApproved"
    using assms by (auto simp: Admission_Check_def split: if_splits)
  then obtain es where es: "AdmissionStore_ListByModel m (md_ID model) (md_Version model) = Inr es"
    and d: "d = check_records model (rev es)"
    using assms(1) by (auto simp: Admission_Check_def sum_bind_Inr)
  from assms(2) obtain e where e: "find decisive (rev es) = Some e"
    using d check_records_find [of model "rev es"] by (cases "find decisive (rev es)") auto
  then have de: "d = check_records model [e]" using d check_records_find [of model "rev es"] by simp
  have "e \<in> set es" using find_SomeD [OF e] by simp
  moreover have "\<forall>e'\<in>set es. decisive e' \<longrightarrow> ae_CreatedAt e' \<le> ae_CreatedAt e"
    using find_decisive_latest [OF e list_by_model(2) [OF es]] by blast
  moreover have "validateEvidence model e = [] \<and> ae_ID e = ad_EvidenceID d \<and>
      ae_Status e \<in> {StatusApproved, StatusRestricted}"
    using de assms(2) find_SomeD [OF e] by (auto simp: decisive_def Let_def split: if_splits)
  ultimately show ?thesis
    using ap list_by_model(1) [OF es]
    by (intro conjI bexI [of _ e]) (auto simp: validateEvidence_def require_def split: if_splits)
qed

definition demo_evidence :: "string \<Rightarrow> AdmissionStatus \<Rightarrow> gotime \<Rightarrow> AdmissionEvidence" where
  "demo_evidence i st u =
     \<lparr>ae_ID = i, ae_ModelID = ''m'', ae_ModelVersion = ''1'', ae_Status = st, ae_LicenseID = ''l'',
      ae_LicenseTextRef = ''t'', ae_SourceRef = ''s'', ae_UpstreamModels = [], ae_DatasetRefs = [],
      ae_CommercialUseAllowed = True, ae_HostedServiceAllowed = True, ae_RedistributionAllowed = False,
      ae_NoticeRequired = False, ae_NoticeRef = [], ae_ArtifactDigest = [], ae_ArtifactSignature = [],
      ae_SecurityScanRef = [], ae_Reviewer = ''r'', ae_ReviewedAt = Some 3, ae_EvidenceDigest = ''d'',
      ae_CreatedAt = u\<rparr>"

definition demo_version :: ModelVersion where
  "demo_version =
     \<lparr>mv_ID = ''m'', mv_Name = ''m'', mv_Version = ''1'', mv_Lifecycle = ModelActive, mv_Capabilities = [''chat''],
      mv_EvaluationVersion = [], mv_License = [],
      mv_LicenseEvidence = \<lparr>le_LicenseID = [], le_LicenseTextRef = [], le_UpstreamModel = [],
         le_CommercialUseAllowed = True, le_HostedServiceAllowed = True, le_RedistributionAllowed = False,
         le_NoticeRequired = False, le_Reviewer = [], le_ReviewedAt = None\<rparr>,
      mv_Provenance = \<lparr>mp_Source = [], mp_BaseModels = [], mp_Datasets = [], mp_FineTunings = [], mp_BuildProcess = []\<rparr>,
      mv_ArtifactDigest = [], mv_ApprovalStatus = ApprovalApproved, mv_RiskLevel = [], mv_CreatedAt = 1, mv_UpdatedAt = 1\<rparr>"

definition demo_admissions :: admission_store where
  "demo_admissions =
     snd (Admission_Append AdmissionStore_Append 9 (demo_evidence ''e3'' StatusRejected 7)
       (snd (Admission_Append AdmissionStore_Append 9 (demo_evidence ''e2'' StatusApproved 6)
         (snd (Admission_Append AdmissionStore_Append 9 (demo_evidence ''e1'' StatusRevoked 5) NewAdmissionStore)))))"

text \<open>A version approved again after a revocation is admitted on the newer record; a rejection
  recorded after the approval is passed over.\<close>

theorem admission_sound_witness:
  "\<exists>d. Admission_Check (AdmissionStore_ListByModel demo_admissions) (LegacyModel DeploymentPublicAPI demo_version) = Inr d
     \<and> ad_Allowed d \<and> ad_EvidenceID d = ''e2'' \<and>
     (\<exists>e\<in>snd ` set demo_admissions. ae_ID e = ''e2'' \<and> ae_HostedServiceAllowed e)"
proof -
  let ?d = "\<lparr>ad_Allowed = True, ad_EvidenceID = ''e2'', ad_Reasons = []\<rparr>"
  have c: "Admission_Check (AdmissionStore_ListByModel demo_admissions) (LegacyModel DeploymentPublicAPI demo_version) = Inr ?d"
    by code_simp
  have m: "md_DeploymentMode (LegacyModel DeploymentPublicAPI demo_version) = DeploymentPublicAPI"
    by (simp add: LegacyModel_def)
  have "\<exists>e\<in>snd ` set demo_admissions. ae_ID e = ''e2'' \<and> ae_HostedServiceAllowed e"
    using admission_sound [OF c] m by auto
  with c show ?thesis by auto
qed

lemma rejection_passed_over:
  "\<exists>e\<in>snd ` set demo_admissions. ae_Status e = StatusRejected \<and> ae_CreatedAt e = 7"
  by code_simp

end
