(* ===== verification/Pricing.thy ===== *)
theory Pricing
  imports Domain_Types Go_Strings
begin

text \<open>
  Deployment eligibility and lifecycle (deployment.go, deployment_event.go,
  deployment_transition.go) and pricing policies with their quotes (pricing_policy.go,
  pricing_quote.go, route_pricing_evidence.go). Prices are float64 values with their
  rounding; token counts are int64.
\<close>

section \<open>Deployments\<close>

definition IsRoutingEligible :: "Deployment \<Rightarrow> gotime \<Rightarrow> duration \<Rightarrow> bool" where
  "IsRoutingEligible d now maxSignalAge =
     (if \<not> dp_RoutingEligible d then False
      else if dp_Lifecycle d \<noteq> DeploymentReady \<and> dp_Lifecycle d \<noteq> DeploymentDegraded then False
      else if dp_Health d = HealthUnhealthy then False
      else if maxSignalAge > 0
           \<and> (case dp_HealthCheckedAt d of None \<Rightarrow> True | Some t \<Rightarrow> time_Sub now t > maxSignalAge) then False
      else True)"

fun allowed_deployment :: "DeploymentLifecycle \<Rightarrow> DeploymentLifecycle list" where
  "allowed_deployment DeploymentDiscovered = [DeploymentReady, DeploymentBlocked, DeploymentRetired]"
| "allowed_deployment DeploymentReady = [DeploymentDegraded, DeploymentDraining, DeploymentBlocked, DeploymentRetired]"
| "allowed_deployment DeploymentDegraded = [DeploymentReady, DeploymentDraining, DeploymentBlocked, DeploymentRetired]"
| "allowed_deployment DeploymentDraining = [DeploymentReady, DeploymentBlocked, DeploymentRetired]"
| "allowed_deployment _ = []"

definition ValidateDeploymentTransition :: "DeploymentLifecycle \<Rightarrow> DeploymentLifecycle \<Rightarrow> goerr option" where
  "ValidateDeploymentTransition s to =
     (if to \<in> set (allowed_deployment s) then None
      else Some (Errorf (''invalid deployment lifecycle transition: '' @ DeploymentLifecycle_str s @ '' -> ''
                   @ DeploymentLifecycle_str to) []))"

definition DeploymentLifecycleEvent_Validate :: "DeploymentLifecycleEvent \<Rightarrow> goerr option" where
  "DeploymentLifecycleEvent_Validate e =
     (if dl_ID e = [] \<or> dl_DeploymentID e = [] then
        Some (Errorf ''deployment lifecycle event ID and deployment ID are required'' [])
      else if time_IsZero (dl_EffectiveAt e) then
        Some (Errorf ''deployment lifecycle effective time is required'' [])
      else if (case dl_AnnouncedAt e of None \<Rightarrow> False | Some t \<Rightarrow> time_After t (dl_EffectiveAt e)) then
        Some (Errorf ''deployment lifecycle announcement cannot follow effective time'' [])
      else ValidateDeploymentTransition (dl_From e) (dl_To e))"

lemma retired_final: "s \<in> {DeploymentRetired, DeploymentBlocked} \<Longrightarrow> ValidateDeploymentTransition s to \<noteq> None"
  by (auto simp: ValidateDeploymentTransition_def)

lemma transition_never_back: "ValidateDeploymentTransition s to = None \<Longrightarrow> to \<noteq> DeploymentDiscovered \<and> to \<noteq> s"
  by (cases s) (auto simp: ValidateDeploymentTransition_def split: if_splits)

section \<open>Policies\<close>

record PricingContextBand =
  pb_MinTokens :: int
  pb_MaxTokens :: int
  pb_InputPerMillion :: "f64 option"
  pb_OutputPerMillion :: "f64 option"
  pb_CacheHitPerMillion :: "f64 option"
  pb_CacheMissPerMillion :: "f64 option"

record CapacityPricing =
  cp_Mode :: string
  cp_Unit :: string
  cp_UnitPrice :: f64
  cp_FixedPrice :: f64

record SelfHostedAllocation =
  sh_GPUHourPrice :: f64
  sh_CPUCoreHourPrice :: f64
  sh_MemoryGBHourPrice :: f64
  sh_StorageGBHourPrice :: f64

record PricingPolicy =
  pol_ID :: string
  pol_Version :: string
  pol_DeploymentID :: string
  pol_Currency :: string
  pol_Region :: string
  pol_InputPerMillion :: f64
  pol_OutputPerMillion :: f64
  pol_CacheHitPerMillion :: f64
  pol_CacheMissPerMillion :: f64
  pol_ContextBands :: "PricingContextBand list"
  pol_BatchFactor :: f64
  pol_AsyncFactor :: f64
  pol_ServiceTierFactors :: "(ServiceTier, f64) gomap"
  pol_InferenceEffortFactors :: "(InferenceEffort, f64) gomap"
  pol_Capacity :: CapacityPricing
  pol_SelfHosted :: SelfHostedAllocation
  pol_EffectiveFrom :: gotime
  pol_EffectiveTo :: "gotime option"
  pol_EvidenceRef :: string
  pol_Digest :: string
  pol_CreatedAt :: gotime

definition policyRef :: "string \<Rightarrow> string \<Rightarrow> string" where
  "policyRef i v = i @ ''@'' @ v"

definition PricingPolicy_Ref :: "PricingPolicy \<Rightarrow> string" where
  "PricingPolicy_Ref p = policyRef (pol_ID p) (pol_Version p)"

definition PricingPolicy_Validate :: "PricingPolicy \<Rightarrow> goerr option" where
  "PricingPolicy_Validate p =
     (if pol_ID p = [] \<or> pol_Version p = [] \<or> pol_DeploymentID p = [] then
        Some (Errorf ''pricing policy ID, version and deployment ID are required'' [])
      else if pol_Currency p = [] \<or> time_IsZero (pol_EffectiveFrom p) then
        Some (Errorf ''pricing policy currency and effective time are required'' [])
      else if (case pol_EffectiveTo p of None \<Rightarrow> False | Some t \<Rightarrow> \<not> time_After t (pol_EffectiveFrom p)) then
        Some (Errorf ''pricing policy effective end must follow effective start'' [])
      else None)"

definition effective_at :: "PricingPolicy \<Rightarrow> gotime \<Rightarrow> bool" where
  "effective_at p t \<longleftrightarrow>
     \<not> (time_Before t (pol_EffectiveFrom p) \<or>
        (case pol_EffectiveTo p of None \<Rightarrow> False | Some u \<Rightarrow> \<not> time_Before t u))"

section \<open>Quotes\<close>

record PricingUsageEstimate =
  us_InputTokens :: int
  us_OutputTokens :: int
  us_CacheHitInputTokens :: int
  us_ContextTokens :: int
  us_Region :: string
  us_Batch :: bool
  us_Async :: bool
  us_ServiceTier :: ServiceTier
  us_InferenceEffort :: InferenceEffort
  us_CapacityUnits :: f64
  us_GPUHours :: f64
  us_CPUCoreHours :: f64
  us_MemoryGBHours :: f64
  us_StorageGBHours :: f64

record PricingQuoteComponent =
  qc_Name :: string
  qc_Quantity :: f64
  qc_Unit :: string
  qc_UnitPrice :: f64
  qc_Factor :: f64
  qc_Amount :: f64

record PricingQuote =
  pq_PolicyID :: string
  pq_PolicyVersion :: string
  pq_PolicyDigest :: string
  pq_DeploymentID :: string
  pq_Currency :: string
  pq_Components :: "PricingQuoteComponent list"
  pq_Total :: f64
  pq_QuotedAt :: gotime

text \<open>The four prices the loop over the context bands settles: input, output, cache hit,
  cache miss.\<close>

record token_prices =
  tp_input :: f64
  tp_output :: f64
  tp_hit :: f64
  tp_miss :: f64

fun band_prices :: "int \<Rightarrow> PricingContextBand list \<Rightarrow> token_prices \<Rightarrow> token_prices" where
  "band_prices context [] p = p"
| "band_prices context (band # bands) p =
     (if context < pb_MinTokens band \<or> (pb_MaxTokens band > 0 \<and> context > pb_MaxTokens band)
      then band_prices context bands p
      else let inputPrice = (case pb_InputPerMillion band of Some v \<Rightarrow> v | None \<Rightarrow> tp_input p);
               outputPrice = (case pb_OutputPerMillion band of Some v \<Rightarrow> v | None \<Rightarrow> tp_output p);
               cacheHitPrice = (case pb_CacheHitPerMillion band of Some v \<Rightarrow> v | None \<Rightarrow> tp_hit p);
               cacheMissPrice = (case pb_CacheMissPerMillion band of Some v \<Rightarrow> v
                                 | None \<Rightarrow> if pb_InputPerMillion band \<noteq> None then inputPrice else tp_miss p)
           in \<lparr>tp_input = inputPrice, tp_output = outputPrice, tp_hit = cacheHitPrice, tp_miss = cacheMissPrice\<rparr>)"

definition base_prices :: "PricingPolicy \<Rightarrow> token_prices" where
  "base_prices p =
     \<lparr>tp_input = pol_InputPerMillion p, tp_output = pol_OutputPerMillion p, tp_hit = pol_CacheHitPerMillion p,
      tp_miss = (if f64_eq (pol_CacheMissPerMillion p) (Fin 0) then pol_InputPerMillion p
                 else pol_CacheMissPerMillion p)\<rparr>"

definition times_if :: "bool \<Rightarrow> f64 \<Rightarrow> f64 \<Rightarrow> f64" where
  "times_if c v factor = (if c \<and> f64_lt (Fin 0) v then f64_mul factor v else factor)"

definition quote_factor :: "PricingPolicy \<Rightarrow> PricingUsageEstimate \<Rightarrow> f64" where
  "quote_factor p u =
     times_if True (gomap_or (Fin 0) (pol_InferenceEffortFactors p) (us_InferenceEffort u))
       (times_if True (gomap_or (Fin 0) (pol_ServiceTierFactors p) (us_ServiceTier u))
         (times_if (us_Async u) (pol_AsyncFactor p)
           (times_if (us_Batch u) (pol_BatchFactor p) (Fin 1))))"

definition quote_add :: "string \<Rightarrow> f64 \<Rightarrow> string \<Rightarrow> f64 \<Rightarrow> f64 \<Rightarrow> PricingQuoteComponent list" where
  "quote_add name quantity uni unitPrice factor =
     (if f64_eq quantity (Fin 0) \<and> f64_eq unitPrice (Fin 0) then []
      else [\<lparr>qc_Name = name, qc_Quantity = quantity, qc_Unit = uni, qc_UnitPrice = unitPrice, qc_Factor = factor,
             qc_Amount = f64_mul (f64_mul quantity unitPrice) factor\<rparr>])"

definition millions :: "int \<Rightarrow> f64" where
  "millions n = f64_div (f64_of_int n) (Fin 1000000)"

definition cacheMissTokens :: "PricingUsageEstimate \<Rightarrow> int" where
  "cacheMissTokens u = wrap64 (us_InputTokens u - us_CacheHitInputTokens u)"

definition quote_components :: "PricingPolicy \<Rightarrow> PricingUsageEstimate \<Rightarrow> PricingQuoteComponent list" where
  "quote_components p u =
     (let prices = band_prices (us_ContextTokens u) (pol_ContextBands p) (base_prices p);
          factor = quote_factor p u
      in quote_add ''input-cache-miss'' (millions (cacheMissTokens u)) ''million-token'' (tp_miss prices) factor @
         quote_add ''input-cache-hit'' (millions (us_CacheHitInputTokens u)) ''million-token'' (tp_hit prices) factor @
         quote_add ''output'' (millions (us_OutputTokens u)) ''million-token'' (tp_output prices) factor @
         quote_add ''capacity'' (us_CapacityUnits u) (cp_Unit (pol_Capacity p)) (cp_UnitPrice (pol_Capacity p)) (Fin 1) @
         (if \<not> f64_eq (cp_FixedPrice (pol_Capacity p)) (Fin 0)
          then quote_add ''capacity-fixed'' (Fin 1) ''allocation'' (cp_FixedPrice (pol_Capacity p)) (Fin 1) else []) @
         quote_add ''self-hosted-gpu'' (us_GPUHours u) ''gpu-hour'' (sh_GPUHourPrice (pol_SelfHosted p)) (Fin 1) @
         quote_add ''self-hosted-cpu'' (us_CPUCoreHours u) ''cpu-core-hour'' (sh_CPUCoreHourPrice (pol_SelfHosted p)) (Fin 1) @
         quote_add ''self-hosted-memory'' (us_MemoryGBHours u) ''memory-gb-hour'' (sh_MemoryGBHourPrice (pol_SelfHosted p)) (Fin 1) @
         quote_add ''self-hosted-storage'' (us_StorageGBHours u) ''storage-gb-hour'' (sh_StorageGBHourPrice (pol_SelfHosted p)) (Fin 1))"

definition sum_amounts :: "PricingQuoteComponent list \<Rightarrow> f64" where
  "sum_amounts cs = fold (\<lambda>c total. f64_add total (qc_Amount c)) cs (Fin 0)"

definition QuotePricing ::
  "unicode_fold \<Rightarrow> PricingPolicy \<Rightarrow> PricingUsageEstimate \<Rightarrow> gotime \<Rightarrow> goerr + PricingQuote" where
  "QuotePricing ufold p u now =
     (case PricingPolicy_Validate p of
        Some e \<Rightarrow> Inl e
      | None \<Rightarrow>
          if \<not> effective_at p now then
            Inl (Errorf (''pricing policy '' @ PricingPolicy_Ref p @ '' is not effective at quote time'') [])
          else if pol_Region p \<noteq> [] \<and> us_Region u \<noteq> [] \<and> \<not> EqualFold ufold (pol_Region p) (us_Region u) then
            Inl (Errorf (''pricing policy region '' @ pol_Region p @ '' does not match '' @ us_Region u) [])
          else if us_CacheHitInputTokens u < 0 \<or> us_CacheHitInputTokens u > us_InputTokens u then
            Inl (Errorf ''cached input tokens must be within input token count'' [])
          else Inr \<lparr>pq_PolicyID = pol_ID p, pq_PolicyVersion = pol_Version p, pq_PolicyDigest = pol_Digest p,
                    pq_DeploymentID = pol_DeploymentID p, pq_Currency = pol_Currency p,
                    pq_Components = quote_components p u,
                    pq_Total = sum_amounts (quote_components p u), pq_QuotedAt = now\<rparr>)"

section \<open>Route pricing evidence\<close>

record RoutePricingEvidence =
  pe_RouteDecisionID :: string
  pe_DeploymentID :: string
  pe_PolicyID :: string
  pe_PolicyVersion :: string
  pe_PolicyDigest :: string
  pe_Quote :: PricingQuote
  pe_Selected :: bool
  pe_CreatedAt :: gotime

definition RoutePricingEvidence_Validate :: "RoutePricingEvidence \<Rightarrow> goerr option" where
  "RoutePricingEvidence_Validate e =
     (if pe_RouteDecisionID e = [] \<or> pe_DeploymentID e = [] then
        Some (Errorf ''route decision ID and deployment ID are required'' [])
      else if pe_PolicyID e = [] \<or> pe_PolicyVersion e = [] then
        Some (Errorf ''pricing policy ID and version are required'' [])
      else if pq_DeploymentID (pe_Quote e) \<noteq> pe_DeploymentID e \<or> pq_PolicyID (pe_Quote e) \<noteq> pe_PolicyID e
              \<or> pq_PolicyVersion (pe_Quote e) \<noteq> pe_PolicyVersion e then
        Some (Errorf ''pricing quote identity must match route pricing evidence'' [])
      else if time_IsZero (pq_QuotedAt (pe_Quote e)) \<or> time_IsZero (pe_CreatedAt e) then
        Some (Errorf ''pricing quote and evidence timestamps are required'' [])
      else None)"

section \<open>What a quote guarantees\<close>

definition unsigned :: "f64 \<Rightarrow> bool" where
  "unsigned x \<longleftrightarrow> \<not> f64_lt x (Fin 0)"

lemma unsigned_cases: "unsigned x \<longleftrightarrow> f64_nonneg x \<or> x = NaN"
  by (cases x) (auto simp: unsigned_def)

lemma unsigned_Fin [simp]: "unsigned (Fin x) \<longleftrightarrow> 0 \<le> x" "unsigned NaN"
  by (auto simp: unsigned_def)

lemma unsigned_mul: "unsigned a \<Longrightarrow> unsigned b \<Longrightarrow> unsigned (f64_mul a b)"
  using f64_nonneg_mul by (auto simp: unsigned_cases)

lemma unsigned_add: "unsigned a \<Longrightarrow> unsigned b \<Longrightarrow> unsigned (f64_add a b)"
  using f64_nonneg_add by (auto simp: unsigned_cases)

lemma unsigned_millions: "0 \<le> n \<Longrightarrow> unsigned (millions n)"
proof -
  assume "0 \<le> n"
  then have "f64_nonneg (f64_of_int n)" by (simp add: f64_of_int_def)
  then show ?thesis by (cases "f64_of_int n") (auto simp: millions_def unsigned_cases)
qed

lemma unsigned_times_if: "unsigned factor \<Longrightarrow> unsigned (times_if c v factor)"
proof -
  assume f: "unsigned factor"
  have "unsigned v" if "f64_lt (Fin 0) v" using that by (cases v) (auto simp: unsigned_def)
  with f show ?thesis by (simp add: times_if_def unsigned_mul)
qed

lemma unsigned_factor: "unsigned (quote_factor p u)"
  by (simp add: quote_factor_def unsigned_times_if)

definition band_unsigned :: "PricingContextBand \<Rightarrow> bool" where
  "band_unsigned b \<longleftrightarrow>
     list_all (\<lambda>x. case x of None \<Rightarrow> True | Some v \<Rightarrow> unsigned v)
       [pb_InputPerMillion b, pb_OutputPerMillion b, pb_CacheHitPerMillion b, pb_CacheMissPerMillion b]"

definition prices_unsigned :: "PricingPolicy \<Rightarrow> bool" where
  "prices_unsigned p \<longleftrightarrow>
     list_all unsigned
       [pol_InputPerMillion p, pol_OutputPerMillion p, pol_CacheHitPerMillion p, pol_CacheMissPerMillion p,
        cp_UnitPrice (pol_Capacity p), cp_FixedPrice (pol_Capacity p), sh_GPUHourPrice (pol_SelfHosted p),
        sh_CPUCoreHourPrice (pol_SelfHosted p), sh_MemoryGBHourPrice (pol_SelfHosted p),
        sh_StorageGBHourPrice (pol_SelfHosted p)] \<and>
     list_all band_unsigned (pol_ContextBands p)"

definition usage_unsigned :: "PricingUsageEstimate \<Rightarrow> bool" where
  "usage_unsigned u \<longleftrightarrow>
     0 \<le> us_OutputTokens u \<and>
     list_all unsigned [us_CapacityUnits u, us_GPUHours u, us_CPUCoreHours u, us_MemoryGBHours u, us_StorageGBHours u]"

definition prices_ok :: "token_prices \<Rightarrow> bool" where
  "prices_ok t \<longleftrightarrow> unsigned (tp_input t) \<and> unsigned (tp_output t) \<and> unsigned (tp_hit t) \<and> unsigned (tp_miss t)"

lemma band_prices_ok: "list_all band_unsigned bands \<Longrightarrow> prices_ok t \<Longrightarrow> prices_ok (band_prices n bands t)"
  by (induction n bands t rule: band_prices.induct)
     (auto simp: prices_ok_def band_unsigned_def Let_def split: option.splits)

lemma quote_add_unsigned:
  "unsigned q \<Longrightarrow> unsigned price \<Longrightarrow> unsigned factor \<Longrightarrow>
   list_all (\<lambda>c. unsigned (qc_Amount c)) (quote_add name q un price factor)"
  by (simp add: quote_add_def unsigned_mul)

definition amount_exact :: "PricingQuoteComponent \<Rightarrow> bool" where
  "amount_exact c \<longleftrightarrow> qc_Amount c = f64_mul (f64_mul (qc_Quantity c) (qc_UnitPrice c)) (qc_Factor c)"

lemma quote_add_amount: "list_all amount_exact (quote_add name q un price factor)"
  by (simp add: quote_add_def amount_exact_def)

lemma quote_components_amount: "list_all amount_exact (quote_components p u)"
  by (simp add: quote_components_def Let_def quote_add_amount)

lemma quote_components_unsigned:
  assumes p: "prices_unsigned p" and u: "usage_unsigned u"
    and "0 \<le> us_CacheHitInputTokens u" and "0 \<le> cacheMissTokens u"
  shows "list_all (\<lambda>c. unsigned (qc_Amount c)) (quote_components p u)"
proof -
  have "prices_ok (base_prices p)" using p by (simp add: prices_ok_def base_prices_def prices_unsigned_def)
  then have "prices_ok (band_prices (us_ContextTokens u) (pol_ContextBands p) (base_prices p))"
    using p by (intro band_prices_ok) (simp_all add: prices_unsigned_def)
  then show ?thesis
    using p u assms(3,4)
    by (simp add: quote_components_def Let_def quote_add_unsigned prices_ok_def prices_unsigned_def
        usage_unsigned_def unsigned_millions unsigned_factor)
qed

lemma sum_amounts_unsigned: "list_all (\<lambda>c. unsigned (qc_Amount c)) cs \<Longrightarrow> unsigned (sum_amounts cs)"
proof -
  assume a: "list_all (\<lambda>c. unsigned (qc_Amount c)) cs"
  have "unsigned (fold (\<lambda>c total. f64_add total (qc_Amount c)) cs t)" if "unsigned t" for t
    using a that by (induction cs arbitrary: t) (simp_all add: unsigned_add)
  then show ?thesis by (simp add: sum_amounts_def)
qed

lemma QuotePricing_Inr:
  assumes "QuotePricing ufold p u now = Inr q"
  shows "PricingPolicy_Validate p = None" "effective_at p now" "0 \<le> us_CacheHitInputTokens u"
    "us_CacheHitInputTokens u \<le> us_InputTokens u" "pq_PolicyID q = pol_ID p" "pq_PolicyVersion q = pol_Version p"
    "pq_DeploymentID q = pol_DeploymentID p" "pq_QuotedAt q = now" "pq_Components q = quote_components p u"
    "pq_Total q = sum_amounts (quote_components p u)" "pq_PolicyDigest q = pol_Digest p" "pq_Currency q = pol_Currency p"
  using assms by (auto simp: QuotePricing_def split: option.splits if_splits)

lemma QuotePricing_ok:
  "PricingPolicy_Validate p = None \<Longrightarrow> effective_at p now \<Longrightarrow> EqualFold ufold (pol_Region p) (us_Region u) \<Longrightarrow>
   0 \<le> us_CacheHitInputTokens u \<Longrightarrow> us_CacheHitInputTokens u \<le> us_InputTokens u \<Longrightarrow>
   \<exists>q. QuotePricing ufold p u now = Inr q"
  by (simp add: QuotePricing_def)

lemma cacheMiss_exact:
  assumes "0 \<le> us_CacheHitInputTokens u" and "us_CacheHitInputTokens u \<le> us_InputTokens u" and "i64_ok (us_InputTokens u)"
  shows "cacheMissTokens u = us_InputTokens u - us_CacheHitInputTokens u"
  unfolding cacheMissTokens_def by (rule wrap64_id) (use assms in \<open>simp add: i64_ok_def\<close>)

lemma effective_window:
  "effective_at p now \<longleftrightarrow> pol_EffectiveFrom p \<le> now \<and> (\<forall>t. pol_EffectiveTo p = Some t \<longrightarrow> now < t)"
  by (auto simp: effective_at_def time_Before_def split: option.splits)

text \<open>C31: What a quote guarantees. A quote is only given by a valid policy inside its effective
  period and carries the policy's identity, version and deployment. The cached and uncached input
  tokens it charges add up to the input tokens exactly, without overflow. Every component's
  amount is its quantity times its price times its factor, and the total is their sum. With prices
  and usage that are not negative, no amount and no total is negative.\<close>

theorem quote_guarantees:
  assumes "QuotePricing ufold p u now = Inr q" and "i64_ok (us_InputTokens u)"
  shows "PricingPolicy_Validate p = None \<and> pol_EffectiveFrom p \<le> now \<and>
      (\<forall>t. pol_EffectiveTo p = Some t \<longrightarrow> now < t) \<and>
      pq_PolicyID q = pol_ID p \<and> pq_PolicyVersion q = pol_Version p \<and> pq_DeploymentID q = pol_DeploymentID p \<and>
      cacheMissTokens u + us_CacheHitInputTokens u = us_InputTokens u \<and> 0 \<le> cacheMissTokens u \<and>
      list_all amount_exact (pq_Components q) \<and>
      pq_Total q = sum_amounts (pq_Components q) \<and>
      (prices_unsigned p \<and> usage_unsigned u \<longrightarrow>
         list_all (\<lambda>c. \<not> f64_lt (qc_Amount c) (Fin 0)) (pq_Components q) \<and> \<not> f64_lt (pq_Total q) (Fin 0))"
proof -
  note q = QuotePricing_Inr [OF assms(1)]
  have miss: "cacheMissTokens u = us_InputTokens u - us_CacheHitInputTokens u"
    by (rule cacheMiss_exact [OF q(3,4) assms(2)])
  then have a: "list_all (\<lambda>c. unsigned (qc_Amount c)) (quote_components p u)" if "prices_unsigned p" "usage_unsigned u"
    using quote_components_unsigned [OF that q(3)] q(4) by simp
  have t: "unsigned (sum_amounts (quote_components p u))" if "prices_unsigned p" "usage_unsigned u"
    by (rule sum_amounts_unsigned [OF a [OF that]])
  show ?thesis
    using q(1,2,4) miss quote_components_amount [of p u] a [unfolded unsigned_def] t [unfolded unsigned_def]
    unfolding q(5,6,7,9,10) effective_window by auto
qed

definition demo_policy :: PricingPolicy where
  "demo_policy =
     \<lparr>pol_ID = ''p'', pol_Version = ''1'', pol_DeploymentID = ''d'', pol_Currency = ''USD'', pol_Region = ''EU'',
      pol_InputPerMillion = Fin 3, pol_OutputPerMillion = Fin 15, pol_CacheHitPerMillion = Fin 1, pol_CacheMissPerMillion = Fin 0,
      pol_ContextBands = [\<lparr>pb_MinTokens = 200001, pb_MaxTokens = 0, pb_InputPerMillion = Some (Fin 6),
        pb_OutputPerMillion = None, pb_CacheHitPerMillion = None, pb_CacheMissPerMillion = None\<rparr>],
      pol_BatchFactor = Fin 2, pol_AsyncFactor = Fin 0, pol_ServiceTierFactors = [], pol_InferenceEffortFactors = [],
      pol_Capacity = \<lparr>cp_Mode = [], cp_Unit = [], cp_UnitPrice = Fin 0, cp_FixedPrice = Fin 0\<rparr>,
      pol_SelfHosted = \<lparr>sh_GPUHourPrice = Fin 0, sh_CPUCoreHourPrice = Fin 0, sh_MemoryGBHourPrice = Fin 0,
        sh_StorageGBHourPrice = Fin 0\<rparr>,
      pol_EffectiveFrom = 5, pol_EffectiveTo = Some 50, pol_EvidenceRef = [], pol_Digest = [], pol_CreatedAt = 5\<rparr>"

definition demo_usage :: PricingUsageEstimate where
  "demo_usage =
     \<lparr>us_InputTokens = 2000000, us_OutputTokens = 1000000, us_CacheHitInputTokens = 1000000, us_ContextTokens = 300000,
      us_Region = ''eu'', us_Batch = True, us_Async = False, us_ServiceTier = TierBatch, us_InferenceEffort = EffortLow,
      us_CapacityUnits = Fin 0, us_GPUHours = Fin 0, us_CPUCoreHours = Fin 0, us_MemoryGBHours = Fin 0,
      us_StorageGBHours = Fin 0\<rparr>"

text \<open>A batch quote in the long-context band: twice 6 + 1 + 15.\<close>

theorem quote_guarantees_witness:
  "\<exists>q. QuotePricing (\<lambda>_ _. False) demo_policy demo_usage 7 = Inr q \<and> pq_Total q = Fin 44 \<and>
     cacheMissTokens demo_usage + 1000000 = 2000000 \<and> \<not> f64_lt (pq_Total q) (Fin 0)"
proof -
  have "PricingPolicy_Validate demo_policy = None" "effective_at demo_policy 7"
    "EqualFold (\<lambda>_ _. False) (pol_Region demo_policy) (us_Region demo_usage)"
    "0 \<le> us_CacheHitInputTokens demo_usage" "us_CacheHitInputTokens demo_usage \<le> us_InputTokens demo_usage"
    by code_simp+
  then obtain q where q: "QuotePricing (\<lambda>_ _. False) demo_policy demo_usage 7 = Inr q"
    using QuotePricing_ok by blast
  have "sum_amounts (quote_components demo_policy demo_usage) = Fin 44" by code_simp
  then have "pq_Total q = Fin 44" using QuotePricing_Inr(10) [OF q] by simp
  moreover have u: "i64_ok (us_InputTokens demo_usage)" "prices_unsigned demo_policy" "usage_unsigned demo_usage"
    "us_CacheHitInputTokens demo_usage = 1000000" "us_InputTokens demo_usage = 2000000"
    by code_simp+
  moreover have "cacheMissTokens demo_usage + us_CacheHitInputTokens demo_usage = us_InputTokens demo_usage"
    "\<not> f64_lt (pq_Total q) (Fin 0)"
    using quote_guarantees [OF q u(1)] u(2,3) by blast+
  ultimately show ?thesis using q by (intro exI [of _ q]) simp
qed

end
