(* ===== verification/Router.thy ===== *)
theory Router
  imports Admission Pricing
begin

text \<open>
  Package router (src/internal/router): the evaluation of models and deployments as route
  candidates, the selection among them, planning with versioned pricing, and the package
  level bindings of repositories to a router. A repository is the function its interface
  offers; the bindings are maps from the address of a router, so a copy of a router, which has
  an address of its own, has none. Floating point follows the evaluation order of the source
  without fused operations.
\<close>

section \<open>Requests\<close>

record RouteRequest =
  rq_TaskID :: string
  rq_RouteClass :: RouteClass
  rq_RequiredCapabilities :: "string list"
  rq_InferenceEffort :: InferenceEffort
  rq_ServiceTier :: ServiceTier
  rq_EstimatedInputTokens :: int
  rq_EstimatedOutputTokens :: int
  rq_Budget :: f64
  rq_Currency :: string
  rq_DataResidency :: string
  rq_EvidenceVersion :: string
  rq_PolicyVersion :: string
  rq_AllowDegraded :: bool
  rq_RequireFreshSignals :: bool
  rq_SignalMaxAge :: duration

definition default_route :: "RouteRequest \<Rightarrow> RouteRequest" where
  "default_route req = (if rq_RouteClass req = RouteClassOther [] then req\<lparr>rq_RouteClass := RouteEfficient\<rparr> else req)"

definition default_currency :: "RouteRequest \<Rightarrow> RouteRequest" where
  "default_currency req = (if rq_Currency req = [] then req\<lparr>rq_Currency := ''USD''\<rparr> else req)"

definition default_age :: "RouteRequest \<Rightarrow> RouteRequest" where
  "default_age req = (if rq_SignalMaxAge req \<le> 0 then req\<lparr>rq_SignalMaxAge := 5 * Minute\<rparr> else req)"

section \<open>Evaluation of a model\<close>

definition reject_if :: "bool \<Rightarrow> string \<Rightarrow> string list" where
  "reject_if c reason = (if c then [reason] else [])"

definition containsEffort :: "InferenceEffort list \<Rightarrow> InferenceEffort \<Rightarrow> bool" where
  "containsEffort items target = list_ex (\<lambda>item. item = target) items"

definition containsTier :: "ServiceTier list \<Rightarrow> ServiceTier \<Rightarrow> bool" where
  "containsTier items target = list_ex (\<lambda>item. item = target) items"

definition hasSpecialistCapability :: "unicode_fold \<Rightarrow> string list \<Rightarrow> string list \<Rightarrow> bool" where
  "hasSpecialistCapability ufold available required = list_ex (containsFold ufold available) required"

definition estimateCost :: "PricingProfile \<Rightarrow> int \<Rightarrow> int \<Rightarrow> f64" where
  "estimateCost pricing inputTokens outputTokens =
     (let cost = f64_add (f64_mul (millions inputTokens) (pp_InputPerMillion pricing))
                         (f64_mul (millions outputTokens) (pp_OutputPerMillion pricing));
          factor = pp_ServiceTierFactor pricing;
          factor = (if f64_le factor (Fin 0) then Fin 1 else factor)
      in f64_mul cost factor)"

definition score :: "unicode_fold \<Rightarrow> Model \<Rightarrow> RouteRequest \<Rightarrow> f64 \<Rightarrow> f64" where
  "score ufold model req estimatedCost =
     (let s = Fin 50;
          s = (if md_Health model = HealthHealthy then f64_add s (Fin 20)
               else if md_Health model = HealthDegraded then f64_add s (Fin 5) else s);
          s = (if md_CapacityAvailable model > 0 then f64_add s (Fin 10) else s);
          s = (if md_P95LatencyMS model > 0
               then f64_sub s (f64_div (f64_of_int (md_P95LatencyMS model)) (Fin 1000)) else s);
          s = f64_sub s estimatedCost
      in if rq_RouteClass req = RouteSpecialist
            \<and> hasSpecialistCapability ufold (md_Capabilities model) (rq_RequiredCapabilities req)
         then f64_add s (Fin 15) else s)"

definition missing_capabilities :: "unicode_fold \<Rightarrow> Model \<Rightarrow> RouteRequest \<Rightarrow> string list" where
  "missing_capabilities ufold model req =
     map (\<lambda>c. ''missing capability: '' @ c)
       (filter (\<lambda>c. \<not> containsFold ufold (md_Capabilities model) c) (rq_RequiredCapabilities req))"

definition lifecycle_rejected :: "Model \<Rightarrow> RouteRequest \<Rightarrow> bool" where
  "lifecycle_rejected model req \<longleftrightarrow>
     md_Lifecycle model \<noteq> ModelActive \<and> \<not> (rq_AllowDegraded req \<and> md_Lifecycle model = ModelDegraded)"

definition over_budget :: "RouteRequest \<Rightarrow> f64 \<Rightarrow> bool" where
  "over_budget req cost \<longleftrightarrow> f64_lt (Fin 0) (rq_Budget req) \<and> f64_lt (rq_Budget req) cost"

definition model_reasons :: "unicode_fold \<Rightarrow> Model \<Rightarrow> RouteRequest \<Rightarrow> gotime \<Rightarrow> f64 \<Rightarrow> string list" where
  "model_reasons ufold model req now cost =
     reject_if (lifecycle_rejected model req) ''model lifecycle is not routable'' @
     reject_if (md_ApprovalStatus model \<noteq> ApprovalApproved) ''model version is not approved'' @
     reject_if (md_Health model = HealthUnhealthy) ''model endpoint is unhealthy'' @
     reject_if (rq_RequireFreshSignals req \<and>
                (case md_HealthCheckedAt model of None \<Rightarrow> True | Some t \<Rightarrow> time_Sub now t > rq_SignalMaxAge req))
       ''runtime health and capacity signals are stale'' @
     reject_if (md_HealthCheckedAt model \<noteq> None \<and> md_CapacityAvailable model = 0)
       ''model has no reported available capacity'' @
     reject_if (md_HealthCheckedAt model \<noteq> None \<and> md_QuotaRemaining model = 0) ''provider quota is exhausted'' @
     reject_if (rq_DataResidency req \<noteq> [] \<and> md_DataResidency model \<noteq> []
                \<and> \<not> EqualFold ufold (rq_DataResidency req) (md_DataResidency model))
       ''data-residency requirement is not satisfied'' @
     missing_capabilities ufold model req @
     reject_if (rq_InferenceEffort req \<noteq> InferenceEffortOther [] \<and> md_InferenceEfforts model \<noteq> []
                \<and> \<not> containsEffort (md_InferenceEfforts model) (rq_InferenceEffort req))
       ''requested inference effort is unsupported'' @
     reject_if (rq_ServiceTier req \<noteq> ServiceTierOther [] \<and> md_ServiceTiers model \<noteq> []
                \<and> \<not> containsTier (md_ServiceTiers model) (rq_ServiceTier req))
       ''requested service tier is unsupported'' @
     reject_if (over_budget req cost) ''estimated model cost exceeds task budget''"

definition evaluate :: "unicode_fold \<Rightarrow> Model \<Rightarrow> RouteRequest \<Rightarrow> gotime \<Rightarrow> RouteCandidate" where
  "evaluate ufold model req now =
     (let cost = estimateCost (md_Pricing model) (rq_EstimatedInputTokens req) (rq_EstimatedOutputTokens req)
      in \<lparr>rc_ModelID = md_ID model, rc_ModelVersion = md_Version model, rc_DeploymentID = [],
          rc_RouteClass = rq_RouteClass req, rc_InferenceEffort = rq_InferenceEffort req,
          rc_ServiceTier = rq_ServiceTier req, rc_EstimatedCost = cost, rc_Score = score ufold model req cost,
          rc_RejectionReasons = model_reasons ufold model req now cost\<rparr>)"

section \<open>Selection\<close>

definition candidate_less :: "RouteCandidate \<Rightarrow> RouteCandidate \<Rightarrow> bool" where
  "candidate_less a b =
     (if f64_eq (rc_Score a) (rc_Score b) then f64_lt (rc_EstimatedCost a) (rc_EstimatedCost b)
      else f64_lt (rc_Score b) (rc_Score a))"

definition compliant :: "RouteCandidate \<Rightarrow> bool" where
  "compliant c \<longleftrightarrow> rc_RejectionReasons c = []"

definition SelectDeploymentCandidate :: "RouteCandidate list \<Rightarrow> goerr + RouteCandidate \<times> RouteCandidate list" where
  "SelectDeploymentCandidate items =
     (case SliceStable candidate_less (filter (\<lambda>c. rc_DeploymentID c \<noteq> [] \<and> compliant c) items) of
        [] \<Rightarrow> Inl (Errorf ''no eligible deployment candidate'' [])
      | c # cs \<Rightarrow> Inr (c, cs))"

section \<open>Deciding over models\<close>

record Router =
  ro_models :: "goerr + Model list"
  ro_decisions :: "(RouteDecision \<Rightarrow> goerr + RouteDecision) option"
  ro_admission :: "(Model \<Rightarrow> goerr + AdmissionDecision) option"

text \<open>\<open>time.Time.UnixNano\<close>: nanoseconds since 1970, as an int64.\<close>

definition UnixNano :: "gotime \<Rightarrow> int" where
  "UnixNano t = wrap64 (t - 62135596800 * Second)"

definition route_id :: "gotime \<Rightarrow> string" where
  "route_id now = ''route-'' @ int_str (UnixNano now)"

definition persist :: "Router \<Rightarrow> RouteDecision \<Rightarrow> goerr + RouteDecision" where
  "persist r d = (case ro_decisions r of None \<Rightarrow> Inr d | Some create \<Rightarrow> create d)"

definition RouteCandidate_zero :: RouteCandidate where
  "RouteCandidate_zero =
     \<lparr>rc_ModelID = [], rc_ModelVersion = [], rc_DeploymentID = [], rc_RouteClass = RouteClassOther [],
      rc_InferenceEffort = InferenceEffortOther [], rc_ServiceTier = ServiceTierOther [], rc_EstimatedCost = Fin 0,
      rc_Score = Fin 0, rc_RejectionReasons = []\<rparr>"

definition apply_admission :: "AdmissionDecision \<Rightarrow> RouteCandidate \<Rightarrow> RouteCandidate" where
  "apply_admission d c =
     (if \<not> ad_Allowed d then c\<lparr>rc_RejectionReasons := rc_RejectionReasons c @ ad_Reasons d\<rparr> else c)"

definition model_candidate ::
  "unicode_fold \<Rightarrow> (Model \<Rightarrow> goerr + AdmissionDecision) option \<Rightarrow> RouteRequest \<Rightarrow> gotime \<Rightarrow> Model
     \<Rightarrow> goerr + RouteCandidate" where
  "model_candidate ufold adm req now model =
     (case adm of
        None \<Rightarrow> Inr (evaluate ufold model req now)
      | Some check \<Rightarrow>
          (case check model of
             Inl e \<Rightarrow> Inl (Errorf (''check model admission for '' @ md_ID model @ '': %w'') [e])
           | Inr d \<Rightarrow> Inr (apply_admission d (evaluate ufold model req now))))"

fun map_err :: "('a \<Rightarrow> 'e + 'b) \<Rightarrow> 'a list \<Rightarrow> 'e + 'b list" where
  "map_err f [] = Inr []"
| "map_err f (x # xs) = sum_bind (f x) (\<lambda>y. sum_bind (map_err f xs) (\<lambda>ys. Inr (y # ys)))"

definition Decide :: "unicode_fold \<Rightarrow> Router \<Rightarrow> RouteRequest \<Rightarrow> gotime \<Rightarrow> goerr + RouteDecision" where
  "Decide ufold r req0 now =
     (if rq_TaskID req0 = [] then Inl (Errorf ''task ID is required'' [])
      else let req = default_age (default_currency (default_route req0)) in
      if rq_RouteClass req = RouteDeterministic then
        persist r
          \<lparr>rd_ID = route_id now, rd_TaskID = rq_TaskID req,
           rd_Selected = RouteCandidate_zero\<lparr>rc_RouteClass := RouteDeterministic, rc_Score := Fin 100\<rparr>,
           rd_Candidates = [], rd_Reason = ''task classified for deterministic execution without a model call'',
           rd_FallbackChain = [], rd_EvidenceVersion = rq_EvidenceVersion req,
           rd_PolicyVersion = rq_PolicyVersion req, rd_CreatedAt = now\<rparr>
      else case ro_models r of
        Inl e \<Rightarrow> Inl (Errorf ''list route models: %w'' [e])
      | Inr models \<Rightarrow>
          sum_bind (map_err (model_candidate ufold (ro_admission r) req now) models) (\<lambda>candidates.
          case SliceStable candidate_less (filter compliant candidates) of
            [] \<Rightarrow> Inl (Errorf ''no policy-compliant model capacity is available'' [])
          | selected # fallback \<Rightarrow>
              persist r
                \<lparr>rd_ID = route_id now, rd_TaskID = rq_TaskID req, rd_Selected = selected, rd_Candidates = candidates,
                 rd_Reason = ''selected '' @ rc_ModelID selected @ ''@'' @ rc_ModelVersion selected @
                   '' by capability, admission evidence, health, capacity and estimated task cost'',
                 rd_FallbackChain = fallback, rd_EvidenceVersion = rq_EvidenceVersion req,
                 rd_PolicyVersion = rq_PolicyVersion req, rd_CreatedAt = now\<rparr>))"

section \<open>Deployments as candidates\<close>

definition effective_pricing :: "Model \<Rightarrow> Deployment \<Rightarrow> PricingProfile" where
  "effective_pricing model d =
     (let p = dp_Pricing d in
      if pp_Currency p = [] \<and> f64_eq (pp_InputPerMillion p) (Fin 0) \<and> f64_eq (pp_OutputPerMillion p) (Fin 0)
         \<and> f64_eq (pp_CachedPerMillion p) (Fin 0) \<and> f64_eq (pp_ServiceTierFactor p) (Fin 0)
      then md_Pricing model else p)"

definition deployment_reasons ::
  "unicode_fold \<Rightarrow> Model \<Rightarrow> Deployment \<Rightarrow> RouteRequest \<Rightarrow> gotime \<Rightarrow> f64 \<Rightarrow> string list" where
  "deployment_reasons ufold model d req now cost =
     reject_if (lifecycle_rejected model req) ''model lifecycle is not routable'' @
     reject_if (md_ApprovalStatus model \<noteq> ApprovalApproved) ''model version is not approved'' @
     missing_capabilities ufold model req @
     reject_if (\<not> IsRoutingEligible d now (if rq_RequireFreshSignals req then rq_SignalMaxAge req else 0))
       ''deployment is not eligible'' @
     reject_if (dp_Lifecycle d = DeploymentDegraded \<and> \<not> rq_AllowDegraded req) ''degraded deployment is not allowed'' @
     reject_if (dp_HealthCheckedAt d \<noteq> None \<and> dp_CapacityAvailable d = 0) ''deployment has no available capacity'' @
     reject_if (dp_HealthCheckedAt d \<noteq> None \<and> dp_QuotaRemaining d = 0) ''deployment quota is unavailable'' @
     reject_if (rq_DataResidency req \<noteq> [] \<and> dp_DataResidency d \<noteq> []
                \<and> \<not> EqualFold ufold (rq_DataResidency req) (dp_DataResidency d)) ''data residency does not match'' @
     reject_if (rq_InferenceEffort req \<noteq> InferenceEffortOther [] \<and> dp_InferenceEfforts d \<noteq> []
                \<and> \<not> containsEffort (dp_InferenceEfforts d) (rq_InferenceEffort req)) ''inference effort is unsupported'' @
     reject_if (rq_ServiceTier req \<noteq> ServiceTierOther [] \<and> dp_ServiceTiers d \<noteq> []
                \<and> \<not> containsTier (dp_ServiceTiers d) (rq_ServiceTier req)) ''service tier is unsupported'' @
     reject_if (over_budget req cost) ''estimated cost exceeds budget''"

definition deployment_score :: "Deployment \<Rightarrow> f64 \<Rightarrow> f64" where
  "deployment_score d cost =
     (let s = f64_sub (Fin 50) cost;
          s = (if dp_Health d = HealthHealthy then f64_add s (Fin 20) else s);
          s = (if dp_CapacityAvailable d > 0 then f64_add s (Fin 10) else s)
      in if dp_P95LatencyMS d > 0 then f64_sub s (f64_div (f64_of_int (dp_P95LatencyMS d)) (Fin 1000)) else s)"

definition DeploymentCandidate ::
  "unicode_fold \<Rightarrow> Model \<Rightarrow> Deployment \<Rightarrow> RouteRequest \<Rightarrow> gotime \<Rightarrow> RouteCandidate" where
  "DeploymentCandidate ufold model d req now =
     (let cost = estimateCost (effective_pricing model d) (rq_EstimatedInputTokens req) (rq_EstimatedOutputTokens req)
      in \<lparr>rc_ModelID = md_ID model, rc_ModelVersion = md_Version model, rc_DeploymentID = dp_ID d,
          rc_RouteClass = rq_RouteClass req, rc_InferenceEffort = rq_InferenceEffort req,
          rc_ServiceTier = rq_ServiceTier req, rc_EstimatedCost = cost, rc_Score = deployment_score d cost,
          rc_RejectionReasons = deployment_reasons ufold model d req now cost\<rparr>)"

text \<open>A pricing repository, as the router uses it, resolves a deployment at a time to a policy.\<close>

type_synonym pricing_resolve = "string \<Rightarrow> gotime \<Rightarrow> goerr + PricingPolicy"

definition usage_estimate :: "Deployment \<Rightarrow> RouteRequest \<Rightarrow> PricingUsageEstimate" where
  "usage_estimate d req =
     \<lparr>us_InputTokens = rq_EstimatedInputTokens req, us_OutputTokens = rq_EstimatedOutputTokens req,
      us_CacheHitInputTokens = 0,
      us_ContextTokens = wrap64 (rq_EstimatedInputTokens req + rq_EstimatedOutputTokens req),
      us_Region = dp_Region d, us_Batch = (rq_ServiceTier req = TierBatch), us_Async = False,
      us_ServiceTier = rq_ServiceTier req, us_InferenceEffort = rq_InferenceEffort req,
      us_CapacityUnits = Fin 0, us_GPUHours = Fin 0, us_CPUCoreHours = Fin 0, us_MemoryGBHours = Fin 0,
      us_StorageGBHours = Fin 0\<rparr>"

definition add_reason :: "string \<Rightarrow> RouteCandidate \<Rightarrow> RouteCandidate" where
  "add_reason s c = c\<lparr>rc_RejectionReasons := rc_RejectionReasons c @ [s]\<rparr>"

definition quoteCandidate ::
  "unicode_fold \<Rightarrow> pricing_resolve option \<Rightarrow> RouteCandidate \<Rightarrow> Deployment \<Rightarrow> RouteRequest \<Rightarrow> gotime
     \<Rightarrow> RouteCandidate \<times> string" where
  "quoteCandidate ufold repo c d req now =
     (case repo of
        None \<Rightarrow> (c, [])
      | Some resolve \<Rightarrow>
          if rc_DeploymentID c = [] then (c, [])
          else case resolve (rc_DeploymentID c) now of
            Inl _ \<Rightarrow> (add_reason ''effective pricing policy is unavailable'' c, [])
          | Inr policy \<Rightarrow>
              (case QuotePricing ufold policy (usage_estimate d req) now of
                 Inl _ \<Rightarrow> (add_reason ''pricing policy cannot quote requested workload'' c, [])
               | Inr q \<Rightarrow>
                   let c1 = c\<lparr>rc_EstimatedCost := pq_Total q,
                              rc_Score := f64_add (rc_Score c) (f64_sub (rc_EstimatedCost c) (pq_Total q))\<rparr>
                   in (if over_budget req (pq_Total q) then add_reason ''estimated cost exceeds budget'' c1 else c1,
                       policyRef (pq_PolicyID q) (pq_PolicyVersion q))))"

definition applyPricingPolicy ::
  "unicode_fold \<Rightarrow> pricing_resolve option \<Rightarrow> RouteCandidate \<Rightarrow> Deployment \<Rightarrow> RouteRequest \<Rightarrow> gotime
     \<Rightarrow> RouteCandidate \<times> string" where
  "applyPricingPolicy ufold repo c d req now =
     (case repo of
        None \<Rightarrow> (c, [])
      | Some resolve \<Rightarrow>
          if rc_DeploymentID c = [] then (c, [])
          else case resolve (rc_DeploymentID c) now of
            Inl _ \<Rightarrow> (add_reason ''effective pricing policy is unavailable'' c, [])
          | Inr policy \<Rightarrow>
              (case QuotePricing ufold policy (usage_estimate d req) now of
                 Inl _ \<Rightarrow> (add_reason ''pricing policy cannot quote requested workload'' c, [])
               | Inr q \<Rightarrow>
                   let c1 = c\<lparr>rc_EstimatedCost := pq_Total q\<rparr>;
                       c2 = (if over_budget req (pq_Total q) then add_reason ''estimated cost exceeds budget'' c1 else c1)
                   in (c2\<lparr>rc_Score := f64_sub (rc_Score c2) (rc_EstimatedCost c2)\<rparr>,
                       policyRef (pq_PolicyID q) (pq_PolicyVersion q))))"

definition pricingEvidenceRef :: "pricing_resolve option \<Rightarrow> string \<Rightarrow> gotime \<Rightarrow> string" where
  "pricingEvidenceRef repo i now =
     (case repo of
        None \<Rightarrow> []
      | Some resolve \<Rightarrow>
          if i = [] then []
          else (case resolve i now of
                  Inl _ \<Rightarrow> []
                | Inr policy \<Rightarrow>
                    policyRef (pol_ID policy) (pol_Version policy) @
                    (if pol_Digest policy \<noteq> [] then ''#'' @ pol_Digest policy else [])))"

section \<open>What is selected\<close>

lemma map_err_Inr: "map_err f xs = Inr ys \<longleftrightarrow> list_all2 (\<lambda>x y. f x = Inr y) xs ys"
  by (induction xs arbitrary: ys) (auto simp: sum_bind_Inr list_all2_Cons1)

lemma map_err_in:
  assumes "map_err f xs = Inr ys" and "y \<in> set ys"
  obtains x where "x \<in> set xs" "f x = Inr y"
  using assms unfolding map_err_Inr list_all2_conv_all_nth in_set_conv_nth by metis

definition comparable :: "RouteCandidate \<Rightarrow> bool" where
  "comparable c \<longleftrightarrow> rc_Score c \<noteq> NaN \<and> rc_EstimatedCost c \<noteq> NaN"

lemma f64_lt_asym: "f64_lt a b \<Longrightarrow> \<not> f64_lt b a"
  by (cases a; cases b) auto

lemma f64_eq_iff: "f64_eq a b \<longleftrightarrow> a = b \<and> a \<noteq> NaN"
  by (cases a; cases b) auto

lemma f64_negtrans: "b \<noteq> NaN \<Longrightarrow> f64_lt a c \<Longrightarrow> f64_lt a b \<or> f64_lt b c"
  by (cases a; cases b; cases c) auto

lemma f64_total: "a \<noteq> NaN \<Longrightarrow> b \<noteq> NaN \<Longrightarrow> f64_lt a b \<or> a = b \<or> f64_lt b a"
  by (cases a; cases b) auto

lemma f64_lt_irrefl [simp]: "\<not> f64_lt a a"
  by (cases a) auto

text \<open>On candidates whose score and cost are numbers the comparison is a strict weak order.\<close>

interpretation cand: weak_order comparable candidate_less
proof
  fix x y z
  assume ok: "comparable x" "comparable y"
  show "\<not> candidate_less y x" if "candidate_less x y"
    using that ok by (auto simp: candidate_less_def f64_eq_iff dest: f64_lt_asym split: if_splits)
  assume okz: "comparable z" and less: "candidate_less x z"
  show "candidate_less x y \<or> candidate_less y z"
  proof (cases "rc_Score x = rc_Score z")
    case True
    with less ok have "f64_lt (rc_EstimatedCost x) (rc_EstimatedCost z)"
      by (simp add: candidate_less_def f64_eq_iff comparable_def)
    with True ok okz show ?thesis
      using f64_negtrans [of "rc_EstimatedCost y"] f64_total [of "rc_Score x" "rc_Score y"]
      by (auto simp: candidate_less_def f64_eq_iff comparable_def)
  next
    case False
    with less have "f64_lt (rc_Score z) (rc_Score x)" by (simp add: candidate_less_def f64_eq_iff split: if_splits)
    with False ok okz show ?thesis
      using f64_negtrans [of "rc_Score y" "rc_Score z" "rc_Score x"]
      by (auto simp: candidate_less_def f64_eq_iff comparable_def)
  qed
qed

text \<open>No candidate has a better score, or the same score at a lower cost.\<close>

definition best_among :: "RouteCandidate \<Rightarrow> RouteCandidate list \<Rightarrow> bool" where
  "best_among c cs \<longleftrightarrow>
     list_all (\<lambda>x. \<not> f64_lt (rc_Score c) (rc_Score x) \<and>
       \<not> (rc_Score x = rc_Score c \<and> f64_lt (rc_EstimatedCost x) (rc_EstimatedCost c))) cs"

lemma best_among_less:
  assumes "comparable c" "\<forall>x\<in>set cs. comparable x \<and> \<not> candidate_less x c"
  shows "best_among c cs"
proof -
  have "\<not> f64_lt (rc_Score c) (rc_Score x) \<and>
      \<not> (rc_Score x = rc_Score c \<and> f64_lt (rc_EstimatedCost x) (rc_EstimatedCost c))"
    if "comparable x" "\<not> candidate_less x c" for x
    using that assms(1) by (cases "rc_Score x = rc_Score c") (simp_all add: candidate_less_def f64_eq_iff comparable_def)
  then show ?thesis using assms(2) unfolding best_among_def list_all_iff by blast
qed

lemma sorted_head_best:
  assumes "SliceStable candidate_less xs = c # cs" and "\<forall>x\<in>set xs. comparable x"
  shows "best_among c xs"
proof (rule best_among_less)
  have "c \<in> set xs" using assms(1) by (metis SliceStable_set list.set_intros(1))
  then show "comparable c" using assms(2) by blast
  have "xs \<noteq> []" using assms(1) by auto
  then show "\<forall>x\<in>set xs. comparable x \<and> \<not> candidate_less x c"
    using cand.SliceStable_hd [OF assms(2)] assms by auto
qed

lemma sorted_head_mset:
  "SliceStable candidate_less xs = c # cs \<Longrightarrow> mset (c # cs) = mset xs"
  by (metis SliceStable_mset)

text \<open>A refusal by the admission service always gives a reason.\<close>

lemma Admission_Check_reason:
  assumes "Admission_Check ls model = Inr d" and "\<not> ad_Allowed d"
  shows "ad_Reasons d \<noteq> []"
proof -
  have "ad_Reasons (check_records model es) \<noteq> []" if "\<not> ad_Allowed (check_records model es)" for es
    using that by (induction es) (auto simp: Let_def split: if_splits)
  with assms show ?thesis by (auto simp: Admission_Check_def sum_bind_Inr split: if_splits)
qed

definition routable :: "unicode_fold \<Rightarrow> RouteRequest \<Rightarrow> gotime \<Rightarrow> Model \<Rightarrow> bool" where
  "routable ufold req now m \<longleftrightarrow>
     (md_Lifecycle m = ModelActive \<or> rq_AllowDegraded req \<and> md_Lifecycle m = ModelDegraded) \<and>
     md_ApprovalStatus m = ApprovalApproved \<and> md_Health m \<noteq> HealthUnhealthy \<and>
     (\<forall>c\<in>set (rq_RequiredCapabilities req). containsFold ufold (md_Capabilities m) c) \<and>
     (rq_RequireFreshSignals req \<longrightarrow>
        (\<exists>t. md_HealthCheckedAt m = Some t \<and> time_Sub now t \<le> rq_SignalMaxAge req))"

lemma model_reasons_none:
  "model_reasons ufold m req now cost = [] \<Longrightarrow> routable ufold req now m \<and> \<not> over_budget req cost"
  by (auto simp: model_reasons_def reject_if_def routable_def lifecycle_rejected_def missing_capabilities_def
      filter_empty_conv split: if_splits option.splits)

lemma model_candidate_compliant:
  assumes "model_candidate ufold adm req now m = Inr c" and "compliant c"
  shows "rc_ModelID c = md_ID m" "rc_ModelVersion c = md_Version m" "routable ufold req now m"
    "\<not> over_budget req (rc_EstimatedCost c)"
    "adm = Some check \<Longrightarrow> \<exists>d. check m = Inr d \<and> (ad_Allowed d \<or> ad_Reasons d = [])"
  using assms model_reasons_none [of ufold m req now]
  by (auto simp: model_candidate_def compliant_def apply_admission_def evaluate_def Let_def
      split: option.splits sum.splits if_splits)

text \<open>A decision repository that answers with the decision it was given, or none at all.\<close>

definition keeps_decisions :: "Router \<Rightarrow> bool" where
  "keeps_decisions r \<longleftrightarrow> (\<forall>create x y. ro_decisions r = Some create \<longrightarrow> create x = Inr y \<longrightarrow> y = x)"

lemma persist_Inr: "keeps_decisions r \<Longrightarrow> persist r x = Inr y \<Longrightarrow> y = x"
  by (auto simp: persist_def keeps_decisions_def split: option.splits)

lemma Decide_Inr:
  assumes "Decide ufold r req now = Inr d" and "keeps_decisions r"
    and "rq_RouteClass req \<noteq> RouteDeterministic"
  obtains models where "ro_models r = Inr models"
    "map_err (model_candidate ufold (ro_admission r) (default_age (default_currency (default_route req))) now) models = Inr (rd_Candidates d)"
    "SliceStable candidate_less (filter compliant (rd_Candidates d)) = rd_Selected d # rd_FallbackChain d"
    "rd_TaskID d = rq_TaskID req"
proof -
  let ?q = "default_age (default_currency (default_route req))"
  have "rq_RouteClass ?q \<noteq> RouteDeterministic" "rq_TaskID ?q = rq_TaskID req"
    using assms(3) by (auto simp: default_age_def default_currency_def default_route_def)
  with assms(1) obtain models cands where m: "ro_models r = Inr models"
    and c: "map_err (model_candidate ufold (ro_admission r) ?q now) models = Inr cands"
    by (auto simp: Decide_def Let_def sum_bind_Inr split: if_splits sum.splits)
  note D = assms(1) [unfolded Decide_def Let_def m c sum.case sum_bind_simps]
  have "rq_TaskID req \<noteq> []" using assms(1) by (auto simp: Decide_def)
  then obtain x xs where x: "SliceStable candidate_less (filter compliant cands) = x # xs"
    using D \<open>rq_RouteClass ?q \<noteq> RouteDeterministic\<close>
    by (cases "SliceStable candidate_less (filter compliant cands)") simp_all
  have "rd_Candidates d = cands \<and> rd_Selected d = x \<and> rd_FallbackChain d = xs \<and> rd_TaskID d = rq_TaskID req"
    using D \<open>rq_RouteClass ?q \<noteq> RouteDeterministic\<close> \<open>rq_TaskID req \<noteq> []\<close> \<open>rq_TaskID ?q = rq_TaskID req\<close>
    unfolding x list.case by (auto dest!: persist_Inr [OF assms(2)])
  with that [OF m] c x show ?thesis by simp
qed

text \<open>C34: A route decision is compliant, complete and best. Let the request not be for the
  deterministic class, let the admission service on an evidence store be bound to the router, and let the
  decision repository, if one is bound, answer with the decision it is given. Whatever models and
  evidence there are, a decision then selects a candidate of a listed model that is active (or
  degraded where the request allows it), approved, not unhealthy, has every required capability and
  fresh signals if the request requires them, costs no more than the budget of the request if it sets
  one, and is admitted by the evidence in the store. The selected candidate and the fallback chain are
  together exactly the compliant candidates, and when all scores and costs are numbers no compliant
  candidate scores higher, or the same at a lower cost.\<close>

theorem decision_compliant_and_best:
  assumes D: "Decide ufold r req now = Inr d" and keep: "keeps_decisions r"
    and cls: "rq_RouteClass req \<noteq> RouteDeterministic"
    and adm: "ro_admission r = Some (Admission_Check (AdmissionStore_ListByModel store))"
  shows "(\<exists>models m e. ro_models r = Inr models \<and> m \<in> set models \<and>
      rc_ModelID (rd_Selected d) = md_ID m \<and> rc_ModelVersion (rd_Selected d) = md_Version m \<and>
      routable ufold (default_age (default_currency (default_route req))) now m \<and>
      Admission_Check (AdmissionStore_ListByModel store) m = Inr e \<and> ad_Allowed e) \<and>
    \<not> over_budget req (rc_EstimatedCost (rd_Selected d)) \<and>
    mset (rd_Selected d # rd_FallbackChain d) = mset (filter compliant (rd_Candidates d)) \<and>
    (list_all comparable (rd_Candidates d) \<longrightarrow> best_among (rd_Selected d) (filter compliant (rd_Candidates d)))"
proof -
  let ?q = "default_age (default_currency (default_route req))"
  obtain models where m: "ro_models r = Inr models"
    and c: "map_err (model_candidate ufold (ro_admission r) ?q now) models = Inr (rd_Candidates d)"
    and s: "SliceStable candidate_less (filter compliant (rd_Candidates d)) = rd_Selected d # rd_FallbackChain d"
    using Decide_Inr [OF D keep cls] by metis
  have "rd_Selected d \<in> set (filter compliant (rd_Candidates d))"
    using s by (metis SliceStable_set list.set_intros(1))
  then have sel: "rd_Selected d \<in> set (rd_Candidates d)" "compliant (rd_Selected d)" by auto
  from c sel(1) obtain x where x: "x \<in> set models" "model_candidate ufold (ro_admission r) ?q now x = Inr (rd_Selected d)"
    by (rule map_err_in)
  note mc = model_candidate_compliant [OF x(2) sel(2)]
  obtain e where e: "Admission_Check (AdmissionStore_ListByModel store) x = Inr e" "ad_Allowed e \<or> ad_Reasons e = []"
    using mc(5) [OF adm] by blast
  with Admission_Check_reason [OF e(1)] have "ad_Allowed e" by blast
  moreover have "\<not> over_budget req (rc_EstimatedCost (rd_Selected d))"
    using mc(4) by (simp add: over_budget_def default_age_def default_currency_def default_route_def split: if_splits)
  moreover have "best_among (rd_Selected d) (filter compliant (rd_Candidates d))" if "list_all comparable (rd_Candidates d)"
    by (rule sorted_head_best [OF s]) (use that in \<open>simp add: list_all_iff\<close>)
  ultimately show ?thesis
    using m x(1) mc(1-3) e(1) sorted_head_mset [OF s]
    by (intro conjI exI [of _ models] exI [of _ x] exI [of _ e]) simp_all
qed

end
