(* ===== verification/Router_Plan.thy ===== *)
theory Router_Plan
  imports Router
begin

text \<open>
  Planning over deployments (deployment_plan.go, plan.go), the bindings of repositories to
  routers (deployment_binding.go, model_version_binding.go, pricing_binding.go), the adapter of
  model versions (model_version_adapter.go) and the replay of pricing evidence
  (route_pricing_evidence.go).
\<close>

section \<open>Bindings\<close>

record deployment_repo =
  dr_ListByModelVersion :: "string \<Rightarrow> goerr + Deployment list"
  dr_ListByModel :: "string \<Rightarrow> string \<Rightarrow> goerr + Deployment list"
  dr_Get :: "string \<Rightarrow> goerr + Deployment"

record version_repo =
  vr_List :: "goerr + ModelVersion list"
  vr_Get :: "string \<Rightarrow> goerr + ModelVersion"

text \<open>The three package level maps, keyed by the address of a router.\<close>

record router_bindings =
  rb_deployments :: "(nat, deployment_repo) gomap"
  rb_versions :: "(nat, version_repo) gomap"
  rb_pricing :: "(nat, pricing_resolve) gomap"

definition bind_repo :: "nat option \<Rightarrow> 'r option \<Rightarrow> (nat, 'r) gomap \<Rightarrow> (nat, 'r) gomap" where
  "bind_repo ptr repo m =
     (case ptr of
        None \<Rightarrow> m
      | Some p \<Rightarrow> (case repo of None \<Rightarrow> AList.delete p m | Some x \<Rightarrow> gomap_put p x m))"

definition bound_repo :: "nat option \<Rightarrow> (nat, 'r) gomap \<Rightarrow> 'r option" where
  "bound_repo ptr m = (case ptr of None \<Rightarrow> None | Some p \<Rightarrow> gomap_get m p)"

definition WithDeployments :: "nat option \<Rightarrow> deployment_repo option \<Rightarrow> router_bindings \<Rightarrow> router_bindings" where
  "WithDeployments ptr repo b = b\<lparr>rb_deployments := bind_repo ptr repo (rb_deployments b)\<rparr>"

definition WithModelVersions :: "nat option \<Rightarrow> version_repo option \<Rightarrow> router_bindings \<Rightarrow> router_bindings" where
  "WithModelVersions ptr repo b = b\<lparr>rb_versions := bind_repo ptr repo (rb_versions b)\<rparr>"

definition WithPricingPolicies :: "nat option \<Rightarrow> pricing_resolve option \<Rightarrow> router_bindings \<Rightarrow> router_bindings" where
  "WithPricingPolicies ptr repo b = b\<lparr>rb_pricing := bind_repo ptr repo (rb_pricing b)\<rparr>"

definition deploymentRepository :: "router_bindings \<Rightarrow> nat option \<Rightarrow> deployment_repo option" where
  "deploymentRepository b ptr = bound_repo ptr (rb_deployments b)"

definition modelVersionRepository :: "router_bindings \<Rightarrow> nat option \<Rightarrow> version_repo option" where
  "modelVersionRepository b ptr = bound_repo ptr (rb_versions b)"

definition pricingPolicyRepository :: "router_bindings \<Rightarrow> nat option \<Rightarrow> pricing_resolve option" where
  "pricingPolicyRepository b ptr = bound_repo ptr (rb_pricing b)"

text \<open>The address of a local copy of a router: one that is in use nowhere.\<close>

definition fresh_ptr :: "router_bindings \<Rightarrow> nat" where
  "fresh_ptr b = Suc (fold max (map fst (rb_deployments b) @ map fst (rb_versions b) @ map fst (rb_pricing b)) 0)"

section \<open>The adapter of model versions\<close>

definition adapter_List :: "version_repo \<Rightarrow> goerr + Model list" where
  "adapter_List repo = sum_bind (vr_List repo) (\<lambda>items. Inr (map (LegacyModel (DeploymentModeOther [])) items))"

definition adapter_Get :: "version_repo \<Rightarrow> string \<Rightarrow> goerr + Model" where
  "adapter_Get repo i = sum_bind (vr_Get repo i) (\<lambda>item. Inr (LegacyModel (DeploymentModeOther []) item))"

definition adapter_Create :: "version_repo \<Rightarrow> Model \<Rightarrow> goerr + Model" where
  "adapter_Create repo m = Inl (Errorf ''model version routing adapter is read-only'' [])"

definition adapter_Update :: "version_repo \<Rightarrow> Model \<Rightarrow> goerr + Model" where
  "adapter_Update repo m = Inl (Errorf ''model version routing adapter is read-only'' [])"

section \<open>Planning\<close>

text \<open>\<open>%.6f\<close>: the nearest multiple of a millionth, ties to even, with six digits.\<close>

definition pad6 :: "string \<Rightarrow> string" where
  "pad6 s = replicate (6 - length s) (CHR ''0'') @ s"

fun format_f6 :: "f64 \<Rightarrow> string" where
  "format_f6 (Fin x) =
     (let n = \<bar>rne (x * 1000000)\<bar>
      in (if x < 0 then ''-'' else []) @ int_str (n div 1000000) @ ''.'' @ pad6 (int_str (n mod 1000000)))"
| "format_f6 PInf = ''+Inf''"
| "format_f6 NInf = ''-Inf''"
| "format_f6 NaN = ''NaN''"

definition deployment_candidate ::
  "unicode_fold \<Rightarrow> pricing_resolve option \<Rightarrow> (Model \<Rightarrow> goerr + AdmissionDecision) option \<Rightarrow> RouteRequest \<Rightarrow> gotime
     \<Rightarrow> Model \<Rightarrow> Deployment \<Rightarrow> goerr + RouteCandidate" where
  "deployment_candidate ufold pricing adm req now model item =
     (let c = fst (quoteCandidate ufold pricing (DeploymentCandidate ufold model item req now) item req now) in
      case adm of
        None \<Rightarrow> Inr c
      | Some check \<Rightarrow>
          sum_bind (check (model\<lparr>md_DeploymentMode := dp_Mode item\<rparr>)) (\<lambda>d. Inr (apply_admission d c)))"

definition model_deployments :: "deployment_repo \<Rightarrow> Model \<Rightarrow> goerr + Deployment list" where
  "model_deployments repo model =
     sum_bind (dr_ListByModelVersion repo (md_ID model)) (\<lambda>items.
     if items = [] then dr_ListByModel repo (md_ID model) (md_Version model) else Inr items)"

definition model_candidates ::
  "unicode_fold \<Rightarrow> pricing_resolve option \<Rightarrow> (Model \<Rightarrow> goerr + AdmissionDecision) option \<Rightarrow> RouteRequest \<Rightarrow> gotime
     \<Rightarrow> deployment_repo \<Rightarrow> Model \<Rightarrow> goerr + RouteCandidate list" where
  "model_candidates ufold pricing adm req now repo model =
     sum_bind (model_deployments repo model) (\<lambda>items. map_err (deployment_candidate ufold pricing adm req now model) items)"

definition plan_reason :: "pricing_resolve option \<Rightarrow> RouteCandidate \<Rightarrow> gotime \<Rightarrow> string" where
  "plan_reason pricing selected now =
     (let reason = ''selected deployment '' @ rc_DeploymentID selected @ '' for '' @ rc_ModelID selected @ ''@'' @
                     rc_ModelVersion selected;
          pricingRef = pricingEvidenceRef pricing (rc_DeploymentID selected) now
      in if pricingRef \<noteq> []
         then reason @ '' using pricing policy '' @ pricingRef @ '' with estimated task cost '' @
                format_f6 (rc_EstimatedCost selected)
         else reason)"

definition PlanWithDeployments ::
  "unicode_fold \<Rightarrow> router_bindings \<Rightarrow> nat option \<Rightarrow> Router \<Rightarrow> RouteRequest \<Rightarrow> gotime \<Rightarrow> deployment_repo option
     \<Rightarrow> goerr + RouteDecision" where
  "PlanWithDeployments ufold b ptr r req0 now deployments =
     (case deployments of
        None \<Rightarrow> Decide ufold (r\<lparr>ro_decisions := None\<rparr>) req0 now
      | Some repo \<Rightarrow>
          if rq_RouteClass req0 = RouteDeterministic then Decide ufold (r\<lparr>ro_decisions := None\<rparr>) req0 now
          else if rq_TaskID req0 = [] then Inl (Errorf ''task ID is required'' [])
          else let req = default_age (default_route req0); pricing = pricingPolicyRepository b ptr in
          sum_bind (ro_models r) (\<lambda>models.
          sum_bind (map_err (model_candidates ufold pricing (ro_admission r) req now repo) models) (\<lambda>css.
          sum_bind (SelectDeploymentCandidate (concat css)) (\<lambda>(selected, fallback).
          Inr \<lparr>rd_ID = route_id now, rd_TaskID = rq_TaskID req, rd_Selected = selected, rd_Candidates = concat css,
               rd_Reason = plan_reason pricing selected now, rd_FallbackChain = fallback,
               rd_EvidenceVersion = rq_EvidenceVersion req, rd_PolicyVersion = rq_PolicyVersion req,
               rd_CreatedAt = now\<rparr>))))"

definition Plan ::
  "unicode_fold \<Rightarrow> router_bindings \<Rightarrow> nat option \<Rightarrow> Router \<Rightarrow> RouteRequest \<Rightarrow> gotime \<Rightarrow> goerr + RouteDecision" where
  "Plan ufold b ptr r req now =
     (if ptr = None then Inl (Errorf ''router is required'' [])
      else case deploymentRepository b ptr of
        Some deployments \<Rightarrow>
          (case modelVersionRepository b ptr of
             Some versions \<Rightarrow>
               PlanWithDeployments ufold b (Some (fresh_ptr b))
                 (r\<lparr>ro_models := adapter_List versions, ro_decisions := None\<rparr>) req now (Some deployments)
           | None \<Rightarrow> PlanWithDeployments ufold b ptr r req now (Some deployments))
      | None \<Rightarrow> Decide ufold (r\<lparr>ro_decisions := None\<rparr>) req now)"

section \<open>Pricing evidence\<close>

text \<open>An error on a candidate stops the replay when that candidate's deployment is the selected
  one and skips the candidate otherwise.\<close>

definition evidence_error :: "RouteDecision \<Rightarrow> RouteCandidate \<Rightarrow> string \<Rightarrow> goerr \<Rightarrow> goerr + RoutePricingEvidence option" where
  "evidence_error decision c msg e =
     (if rc_DeploymentID c = rc_DeploymentID (rd_Selected decision) then Inl (Errorf msg [e]) else Inr None)"

definition candidate_evidence ::
  "unicode_fold \<Rightarrow> deployment_repo \<Rightarrow> pricing_resolve \<Rightarrow> RouteDecision \<Rightarrow> RouteRequest \<Rightarrow> RouteCandidate
     \<Rightarrow> goerr + RoutePricingEvidence option" where
  "candidate_evidence ufold repo resolve decision req c =
     (let now = rd_CreatedAt decision in
      if rc_DeploymentID c = [] \<or> rc_RejectionReasons c \<noteq> [] then Inr None
      else case dr_Get repo (rc_DeploymentID c) of
        Inl e \<Rightarrow> evidence_error decision c ''load selected deployment pricing evidence: %w'' e
      | Inr d \<Rightarrow>
          (case resolve (rc_DeploymentID c) now of
             Inl e \<Rightarrow> evidence_error decision c ''resolve selected deployment pricing evidence: %w'' e
           | Inr policy \<Rightarrow>
               (case QuotePricing ufold policy (usage_estimate d req) now of
                  Inl e \<Rightarrow> evidence_error decision c ''quote selected deployment pricing evidence: %w'' e
                | Inr q \<Rightarrow>
                    let item = \<lparr>pe_RouteDecisionID = rd_ID decision, pe_DeploymentID = rc_DeploymentID c,
                                pe_PolicyID = pol_ID policy, pe_PolicyVersion = pol_Version policy,
                                pe_PolicyDigest = pol_Digest policy, pe_Quote = q,
                                pe_Selected = (rc_DeploymentID c = rc_DeploymentID (rd_Selected decision)),
                                pe_CreatedAt = now\<rparr>
                    in (case RoutePricingEvidence_Validate item of Some e \<Rightarrow> Inl e | None \<Rightarrow> Inr (Some item)))))"

definition PricingEvidence ::
  "unicode_fold \<Rightarrow> router_bindings \<Rightarrow> nat option \<Rightarrow> RouteDecision \<Rightarrow> RouteRequest \<Rightarrow> goerr + RoutePricingEvidence list" where
  "PricingEvidence ufold b ptr decision req =
     (case (deploymentRepository b ptr, pricingPolicyRepository b ptr) of
        (Some repo, Some resolve) \<Rightarrow>
          if time_IsZero (rd_CreatedAt decision) then
            Inl (Errorf ''route decision creation time is required for pricing replay evidence'' [])
          else sum_bind (map_err (candidate_evidence ufold repo resolve decision req) (rd_Candidates decision))
                 (\<lambda>items. Inr (List.map_filter id items))
      | _ \<Rightarrow> Inr [])"

section \<open>What is planned\<close>

lemma apply_admission_compliant:
  "compliant (apply_admission d c) \<Longrightarrow> ad_Allowed d \<or> ad_Reasons d = []"
  by (simp add: compliant_def apply_admission_def split: if_splits)

lemma quoteCandidate_ids:
  "rc_DeploymentID (fst (quoteCandidate ufold repo c d req now)) = rc_DeploymentID c"
  "rc_ModelID (fst (quoteCandidate ufold repo c d req now)) = rc_ModelID c"
  "rc_ModelVersion (fst (quoteCandidate ufold repo c d req now)) = rc_ModelVersion c"
  by (simp_all add: quoteCandidate_def add_reason_def Let_def split: option.splits sum.splits)

lemma quoteCandidate_compliant:
  assumes "compliant (fst (quoteCandidate ufold repo c d req now))"
  shows "compliant c" and "\<not> over_budget req (rc_EstimatedCost c) \<Longrightarrow>
      \<not> over_budget req (rc_EstimatedCost (fst (quoteCandidate ufold repo c d req now)))"
    and "repo = Some resolve \<Longrightarrow> rc_DeploymentID c \<noteq> [] \<Longrightarrow>
      \<exists>policy q. resolve (rc_DeploymentID c) now = Inr policy \<and>
        QuotePricing ufold policy (usage_estimate d req) now = Inr q \<and>
        rc_EstimatedCost (fst (quoteCandidate ufold repo c d req now)) = pq_Total q"
  using assms
  by (auto simp: quoteCandidate_def compliant_def add_reason_def Let_def split: option.splits sum.splits if_splits)

definition deployable :: "unicode_fold \<Rightarrow> RouteRequest \<Rightarrow> gotime \<Rightarrow> Model \<Rightarrow> Deployment \<Rightarrow> bool" where
  "deployable ufold req now m d \<longleftrightarrow>
     (md_Lifecycle m = ModelActive \<or> rq_AllowDegraded req \<and> md_Lifecycle m = ModelDegraded) \<and>
     md_ApprovalStatus m = ApprovalApproved \<and>
     (\<forall>c\<in>set (rq_RequiredCapabilities req). containsFold ufold (md_Capabilities m) c) \<and>
     dp_RoutingEligible d \<and> (dp_Lifecycle d = DeploymentReady \<or> rq_AllowDegraded req \<and> dp_Lifecycle d = DeploymentDegraded) \<and>
     dp_Health d \<noteq> HealthUnhealthy \<and>
     (rq_RequireFreshSignals req \<and> 0 < rq_SignalMaxAge req \<longrightarrow>
        (\<exists>t. dp_HealthCheckedAt d = Some t \<and> time_Sub now t \<le> rq_SignalMaxAge req))"

lemma deployment_reasons_none:
  "deployment_reasons ufold m d req now cost = [] \<Longrightarrow> deployable ufold req now m d \<and> \<not> over_budget req cost"
  by (auto simp: deployment_reasons_def reject_if_def deployable_def lifecycle_rejected_def missing_capabilities_def
      filter_empty_conv IsRoutingEligible_def split: if_splits option.splits)

lemma deployment_candidate_compliant:
  assumes "deployment_candidate ufold pricing adm req now m item = Inr c" and "compliant c"
  shows "rc_ModelID c = md_ID m" "rc_DeploymentID c = dp_ID item" "deployable ufold req now m item"
    "\<not> over_budget req (rc_EstimatedCost c)"
    "pricing = Some resolve \<Longrightarrow> dp_ID item \<noteq> [] \<Longrightarrow>
      \<exists>policy q. resolve (dp_ID item) now = Inr policy \<and>
        QuotePricing ufold policy (usage_estimate item req) now = Inr q \<and> rc_EstimatedCost c = pq_Total q"
    "adm = Some check \<Longrightarrow> \<exists>d. check (m\<lparr>md_DeploymentMode := dp_Mode item\<rparr>) = Inr d \<and> (ad_Allowed d \<or> ad_Reasons d = [])"
proof -
  let ?c = "DeploymentCandidate ufold m item req now"
  let ?q = "fst (quoteCandidate ufold pricing ?c item req now)"
  have q: "compliant ?q" "rc_EstimatedCost c = rc_EstimatedCost ?q" "rc_DeploymentID c = rc_DeploymentID ?q" "rc_ModelID c = rc_ModelID ?q"
    using assms
    by (auto simp: deployment_candidate_def Let_def compliant_def apply_admission_def sum_bind_Inr split: option.splits if_splits)
  have ids: "rc_DeploymentID ?c = dp_ID item" "rc_ModelID ?c = md_ID m"
    by (simp_all add: DeploymentCandidate_def Let_def)
  have "deployable ufold req now m item \<and> \<not> over_budget req (rc_EstimatedCost ?c)"
    using quoteCandidate_compliant(1) [OF q(1)] deployment_reasons_none
    by (simp add: compliant_def DeploymentCandidate_def Let_def)
  then show "rc_ModelID c = md_ID m" "rc_DeploymentID c = dp_ID item" "deployable ufold req now m item"
    "\<not> over_budget req (rc_EstimatedCost c)"
    using q ids quoteCandidate_ids quoteCandidate_compliant(2) [OF q(1)] by simp_all
  show "\<exists>policy q. resolve (dp_ID item) now = Inr policy \<and>
        QuotePricing ufold policy (usage_estimate item req) now = Inr q \<and> rc_EstimatedCost c = pq_Total q"
    if "pricing = Some resolve" "dp_ID item \<noteq> []"
    using quoteCandidate_compliant(3) [OF q(1) that(1)] that(2) q(2) ids by metis
  show "\<exists>d. check (m\<lparr>md_DeploymentMode := dp_Mode item\<rparr>) = Inr d \<and> (ad_Allowed d \<or> ad_Reasons d = [])"
    if "adm = Some check"
    using assms that apply_admission_compliant
    by (auto simp: deployment_candidate_def Let_def sum_bind_Inr simp del: split_paired_Ex)
qed

lemma SelectDeploymentCandidate_Inr:
  assumes "SelectDeploymentCandidate items = Inr (c, cs)"
  shows "SliceStable candidate_less (filter (\<lambda>c. rc_DeploymentID c \<noteq> [] \<and> compliant c) items) = c # cs"
    and "c \<in> set items" "rc_DeploymentID c \<noteq> []" "compliant c"
proof -
  show s: "SliceStable candidate_less (filter (\<lambda>c. rc_DeploymentID c \<noteq> [] \<and> compliant c) items) = c # cs"
    using assms by (auto simp: SelectDeploymentCandidate_def split: list.splits)
  then have "c \<in> set (filter (\<lambda>c. rc_DeploymentID c \<noteq> [] \<and> compliant c) items)"
    by (metis SliceStable_set list.set_intros(1))
  then show "c \<in> set items" "rc_DeploymentID c \<noteq> []" "compliant c" by auto
qed

lemma PlanWithDeployments_Inr:
  assumes "PlanWithDeployments ufold b ptr r req now (Some repo) = Inr d" and "rq_RouteClass req \<noteq> RouteDeterministic"
  obtains models css where "ro_models r = Inr models"
    "map_err (model_candidates ufold (pricingPolicyRepository b ptr) (ro_admission r) (default_age (default_route req)) now repo) models = Inr css"
    "rd_Candidates d = concat css" "SelectDeploymentCandidate (concat css) = Inr (rd_Selected d, rd_FallbackChain d)"
proof -
  have "rq_TaskID req \<noteq> []" using assms by (auto simp: PlanWithDeployments_def)
  then show ?thesis
    using assms that unfolding PlanWithDeployments_def Let_def option.case sum_bind_Inr if_not_P [OF assms(2)]
    by (auto simp: sum_bind_Inr split: prod.splits)
qed

text \<open>C35: A plan over deployments is eligible and admitted, and priced where policies are found. Let
  the request not be for the deterministic class and let the admission service on an evidence store be
  bound to the router. The selected candidate is a deployment of a listed model; the model is active
  (or degraded where the request allows it), approved and has every required capability, and the deployment is
  routing eligible, ready (or degraded where allowed), not unhealthy, with fresh signals if the
  request requires them. When pricing policies are bound to the address of the router that plans, and only then, the
  cost of the candidate is shown to be the total of a quote by the policy effective then. The cost is
  within the budget if the request sets one, the evidence store admits the model in the mode of the deployment, and
  when all scores and costs are numbers no eligible candidate scores higher, or the same at a lower cost.\<close>

theorem plan_eligible_and_best:
  assumes P: "PlanWithDeployments ufold b ptr r req now (Some repo) = Inr d"
    and cls: "rq_RouteClass req \<noteq> RouteDeterministic"
    and adm: "ro_admission r = Some (Admission_Check (AdmissionStore_ListByModel store))"
  shows "\<exists>models m items item e. ro_models r = Inr models \<and> m \<in> set models \<and>
      model_deployments repo m = Inr items \<and> item \<in> set items \<and>
      rc_ModelID (rd_Selected d) = md_ID m \<and> rc_DeploymentID (rd_Selected d) = dp_ID item \<and>
      deployable ufold (default_age (default_route req)) now m item \<and>
      Admission_Check (AdmissionStore_ListByModel store) (m\<lparr>md_DeploymentMode := dp_Mode item\<rparr>) = Inr e \<and> ad_Allowed e \<and>
      \<not> over_budget req (rc_EstimatedCost (rd_Selected d)) \<and>
      (\<forall>resolve. pricingPolicyRepository b ptr = Some resolve \<longrightarrow>
         (\<exists>policy q. resolve (dp_ID item) now = Inr policy \<and>
            QuotePricing ufold policy (usage_estimate item (default_age (default_route req))) now = Inr q \<and>
            rc_EstimatedCost (rd_Selected d) = pq_Total q)) \<and>
      (list_all comparable (rd_Candidates d) \<longrightarrow>
         best_among (rd_Selected d) (filter (\<lambda>c. rc_DeploymentID c \<noteq> [] \<and> compliant c) (rd_Candidates d)))"
proof -
  let ?q = "default_age (default_route req)" and ?pr = "pricingPolicyRepository b ptr"
  obtain models css where m: "ro_models r = Inr models"
    and c: "map_err (model_candidates ufold ?pr (ro_admission r) ?q now repo) models = Inr css"
    and cs: "rd_Candidates d = concat css" and S: "SelectDeploymentCandidate (concat css) = Inr (rd_Selected d, rd_FallbackChain d)"
    by (rule PlanWithDeployments_Inr [OF P cls])
  note sel = SelectDeploymentCandidate_Inr [OF S]
  from sel(2) obtain ks where ks: "ks \<in> set css" "rd_Selected d \<in> set ks" by auto
  from c ks(1) obtain x where x: "x \<in> set models" "model_candidates ufold ?pr (ro_admission r) ?q now repo x = Inr ks"
    by (rule map_err_in)
  then obtain items where items: "model_deployments repo x = Inr items"
    and ks': "map_err (deployment_candidate ufold ?pr (ro_admission r) ?q now x) items = Inr ks"
    by (auto simp: model_candidates_def sum_bind_Inr)
  from ks' ks(2) obtain item where item: "item \<in> set items"
    "deployment_candidate ufold ?pr (ro_admission r) ?q now x item = Inr (rd_Selected d)"
    by (rule map_err_in)
  note dc = deployment_candidate_compliant [OF item(2) sel(4)]
  obtain e where e: "Admission_Check (AdmissionStore_ListByModel store) (x\<lparr>md_DeploymentMode := dp_Mode item\<rparr>) = Inr e"
    "ad_Allowed e \<or> ad_Reasons e = []"
    using dc(6) [OF adm] by blast
  with Admission_Check_reason [OF e(1)] have al: "ad_Allowed e" by blast
  have ob: "\<not> over_budget req (rc_EstimatedCost (rd_Selected d))"
    using dc(4) by (simp add: over_budget_def default_age_def default_route_def split: if_splits)
  have best: "best_among (rd_Selected d) (filter (\<lambda>c. rc_DeploymentID c \<noteq> [] \<and> compliant c) (rd_Candidates d))"
    if "list_all comparable (rd_Candidates d)"
    unfolding cs by (rule sorted_head_best [OF sel(1)]) (use that cs in \<open>auto simp: list_all_iff\<close>)
  have quoted: "\<exists>policy q. resolve (dp_ID item) now = Inr policy \<and>
      QuotePricing ufold policy (usage_estimate item ?q) now = Inr q \<and> rc_EstimatedCost (rd_Selected d) = pq_Total q"
    if "?pr = Some resolve" for resolve
    using dc(5) [OF that] dc(2) sel(3) by simp
  show ?thesis
    using m x(1) items item(1) dc(1-3) e(1) al ob quoted best by blast
qed

section \<open>Pricing is lost on a copy\<close>

lemma fold_max_ge: "(n :: nat) \<le> fold max xs n"
  by (induction xs arbitrary: n) (auto intro: le_trans [OF max.cobounded2])

lemma fold_max_mem: "x \<in> set xs \<Longrightarrow> x \<le> fold max xs (n :: nat)"
  by (induction xs arbitrary: n) (auto intro: le_trans [OF max.cobounded1 fold_max_ge])

lemma fresh_ptr_unbound: "bound_repo (Some (fresh_ptr b)) (rb_pricing b) = None"
proof -
  have "fresh_ptr b \<notin> fst ` set (rb_pricing b)"
  proof
    assume "fresh_ptr b \<in> fst ` set (rb_pricing b)"
    then have "fresh_ptr b \<in> set (map fst (rb_deployments b) @ map fst (rb_versions b) @ map fst (rb_pricing b))" by simp
    from fold_max_mem [OF this, of 0] show False by (simp add: fresh_ptr_def)
  qed
  then show ?thesis by (simp add: bound_repo_def gomap_get_None_iff)
qed

lemma Plan_versions:
  assumes "deploymentRepository b (Some p) = Some repo" and "modelVersionRepository b (Some p) = Some versions"
  shows "Plan ufold b (Some p) r req now =
    PlanWithDeployments ufold \<lparr>rb_deployments = [], rb_versions = [], rb_pricing = []\<rparr> None
      (r\<lparr>ro_models := adapter_List versions, ro_decisions := None\<rparr>) req now (Some repo)"
proof -
  have "pricingPolicyRepository b (Some (fresh_ptr b)) = None"
    by (simp add: pricingPolicyRepository_def fresh_ptr_unbound)
  then show ?thesis
    using assms by (simp add: Plan_def PlanWithDeployments_def pricingPolicyRepository_def [of _ None] bound_repo_def)
qed

text \<open>C36: Pricing policies bound to a router have no effect once model versions are bound too. A
  router with deployments and model versions plans on a local copy of itself, and the pricing
  policies are looked up by address, so the plan is the same whatever pricing policies are
  bound: no candidate is quoted and no budget is compared with a quoted price.\<close>

theorem plan_ignores_pricing:
  assumes "deploymentRepository b (Some p) = Some repo" and "modelVersionRepository b (Some p) = Some versions"
  shows "Plan ufold (WithPricingPolicies (Some p) pricing b) (Some p) r req now =
    Plan ufold (WithPricingPolicies (Some p) None b) (Some p) r req now"
proof -
  have "deploymentRepository (WithPricingPolicies (Some p) x b) (Some p) = Some repo"
    "modelVersionRepository (WithPricingPolicies (Some p) x b) (Some p) = Some versions" for x
    using assms by (simp_all add: WithPricingPolicies_def deploymentRepository_def modelVersionRepository_def)
  from Plan_versions [OF this] show ?thesis by metis
qed

section \<open>Instances\<close>

definition demo_deployment :: Deployment where
  "demo_deployment =
     \<lparr>dp_ID = ''d'', dp_ModelVersionID = ''m'', dp_ModelID = ''m'', dp_ModelVersion = ''1'', dp_Provider = ''v'',
      dp_Endpoint = [], dp_Mode = DeploymentPublicAPI, dp_Region = [], dp_DataResidency = [], dp_Runtime = [],
      dp_Quantization = [], dp_PricingPolicyRef = [], dp_Pricing = PricingProfile_zero, dp_Health = HealthHealthy,
      dp_HealthCheckedAt = Some 7, dp_P95LatencyMS = 0, dp_ErrorRate = Fin 0, dp_QuotaRemaining = 5,
      dp_CapacityAvailable = 5, dp_QueueDepth = 0, dp_ServiceTiers = [], dp_InferenceEfforts = [],
      dp_Lifecycle = DeploymentReady, dp_RoutingEligible = True, dp_Owner = [], dp_PolicyRef = [],
      dp_ReplacementIDs = [], dp_CreatedAt = 1, dp_UpdatedAt = 1\<rparr>"

definition demo_repo :: deployment_repo where
  "demo_repo =
     \<lparr>dr_ListByModelVersion = (\<lambda>i. Inr (if i = ''m'' then [demo_deployment] else [])),
      dr_ListByModel = (\<lambda>_ _. Inr []),
      dr_Get = (\<lambda>i. if i = ''d'' then Inr demo_deployment else Inl (ErrNew ''resource not found''))\<rparr>"

definition demo_versions :: version_repo where
  "demo_versions = \<lparr>vr_List = Inr [demo_version], vr_Get = (\<lambda>_. Inr demo_version)\<rparr>"

definition demo_request :: "f64 \<Rightarrow> RouteRequest" where
  "demo_request budget =
     \<lparr>rq_TaskID = ''t1'', rq_RouteClass = RouteEfficient, rq_RequiredCapabilities = [''CHAT''],
      rq_InferenceEffort = InferenceEffortOther [], rq_ServiceTier = ServiceTierOther [],
      rq_EstimatedInputTokens = 2000000, rq_EstimatedOutputTokens = 1000000, rq_Budget = budget, rq_Currency = [],
      rq_DataResidency = [], rq_EvidenceVersion = [], rq_PolicyVersion = [], rq_AllowDegraded = False,
      rq_RequireFreshSignals = True, rq_SignalMaxAge = 0\<rparr>"

definition demo_router :: Router where
  "demo_router =
     \<lparr>ro_models = Inr [LegacyModel DeploymentPublicAPI demo_version], ro_decisions = None,
      ro_admission = Some (Admission_Check (AdmissionStore_ListByModel demo_admissions))\<rparr>"

definition demo_resolve :: pricing_resolve where
  "demo_resolve i now = (if i = ''d'' then Inr demo_policy else Inl (ErrNew ''resource not found''))"

definition demo_bindings :: router_bindings where
  "demo_bindings =
     WithModelVersions (Some 1) (Some demo_versions)
       (WithDeployments (Some 1) (Some demo_repo) \<lparr>rb_deployments = [], rb_versions = [], rb_pricing = []\<rparr>)"

definition no_fold :: unicode_fold where
  "no_fold _ _ = False"

definition demo_priced :: router_bindings where
  "demo_priced = WithPricingPolicies (Some 1) (Some demo_resolve) demo_bindings"

lemma demo_bound:
  "deploymentRepository demo_bindings (Some 1) = Some demo_repo" "modelVersionRepository demo_bindings (Some 1) = Some demo_versions"
  by (simp_all add: demo_bindings_def deploymentRepository_def modelVersionRepository_def WithModelVersions_def
      WithDeployments_def bind_repo_def bound_repo_def gm.get_put)

text \<open>With a budget of 1 the policy's price of 27 rules the only deployment out; the plan selects
  it all the same.\<close>

theorem plan_ignores_pricing_witness:
  "\<not> isl (Plan no_fold demo_priced (Some 1) demo_router (demo_request (Fin 1)) 7) \<and>
   isl (PlanWithDeployments no_fold demo_priced (Some 1) demo_router (demo_request (Fin 1)) 7 (Some demo_repo))"
proof -
  have "\<not> isl (Plan no_fold (WithPricingPolicies (Some 1) None demo_bindings) (Some 1) demo_router (demo_request (Fin 1)) 7)"
    by code_simp
  moreover have "isl (PlanWithDeployments no_fold demo_priced (Some 1) demo_router (demo_request (Fin 1)) 7 (Some demo_repo))"
    by code_simp
  ultimately show ?thesis
    using plan_ignores_pricing [OF demo_bound, of no_fold "Some demo_resolve" demo_router "demo_request (Fin 1)" 7]
    by (simp add: demo_priced_def)
qed

definition demo_unpriced :: "goerr + RouteDecision" where
  "demo_unpriced = PlanWithDeployments no_fold demo_bindings (Some 1) demo_router (demo_request (Fin 50)) 7 (Some demo_repo)"

definition demo_priced_plan :: "goerr + RouteDecision" where
  "demo_priced_plan = PlanWithDeployments no_fold demo_priced (Some 1) demo_router (demo_request (Fin 50)) 7 (Some demo_repo)"

text \<open>With a budget of 50 the priced plan selects the deployment at the quoted cost of 27.\<close>

theorem plan_eligible_and_best_witness:
  "\<exists>d policy q. demo_priced_plan = Inr d \<and> rc_DeploymentID (rd_Selected d) = ''d'' \<and>
     demo_resolve ''d'' 7 = Inr policy \<and>
     QuotePricing no_fold policy (usage_estimate demo_deployment (default_age (default_route (demo_request (Fin 50))))) 7 = Inr q \<and>
     rc_EstimatedCost (rd_Selected d) = pq_Total q"
proof -
  have "\<not> isl demo_priced_plan" by code_simp
  then obtain d where d: "demo_priced_plan = Inr d" by (metis sum.collapse(2))
  have cls: "rq_RouteClass (demo_request (Fin 50)) \<noteq> RouteDeterministic" by (simp add: demo_request_def)
  have adm: "ro_admission demo_router = Some (Admission_Check (AdmissionStore_ListByModel demo_admissions))"
    by (simp add: demo_router_def)
  have pr: "pricingPolicyRepository demo_priced (Some 1) = Some demo_resolve"
    by (simp add: demo_priced_def pricingPolicyRepository_def WithPricingPolicies_def bind_repo_def bound_repo_def gm.get_put)
  have ms: "ro_models demo_router = Inr [LegacyModel DeploymentPublicAPI demo_version]" by (simp add: demo_router_def)
  have its: "model_deployments demo_repo (LegacyModel DeploymentPublicAPI demo_version) = Inr [demo_deployment]"
    by code_simp
  have "dp_ID demo_deployment = ''d''" by (simp add: demo_deployment_def)
  with plan_eligible_and_best [OF d [unfolded demo_priced_plan_def] cls adm] pr d ms its show ?thesis by auto
qed

definition demo_decision :: "goerr + RouteDecision" where
  "demo_decision = Decide no_fold (demo_router\<lparr>ro_models := Inr
     [(LegacyModel DeploymentPublicAPI demo_version)\<lparr>md_Lifecycle := ModelRetired\<rparr>,
      (LegacyModel DeploymentPublicAPI demo_version)\<lparr>md_HealthCheckedAt := Some 7, md_CapacityAvailable := 1, md_QuotaRemaining := 1\<rparr>]\<rparr>)
     (demo_request (Fin 50)) 7"

text \<open>Of a retired and an active model the active one is selected, with an empty fallback chain.\<close>

theorem decision_compliant_and_best_witness:
  "\<exists>d. demo_decision = Inr d \<and> rc_ModelID (rd_Selected d) = ''m'' \<and> rd_FallbackChain d = [] \<and>
     length (rd_Candidates d) = 2 \<and> \<not> over_budget (demo_request (Fin 50)) (rc_EstimatedCost (rd_Selected d))"
proof -
  have e: "\<not> isl demo_decision" "rc_ModelID (rd_Selected (projr demo_decision)) = ''m''"
    "length (rd_Candidates (projr demo_decision)) = 2" "length (filter compliant (rd_Candidates (projr demo_decision))) = 1"
    by code_simp+
  then obtain d where d: "demo_decision = Inr d" by (metis sum.collapse(2))
  have f: "mset (rd_Selected d # rd_FallbackChain d) = mset (filter compliant (rd_Candidates d))"
    and o: "\<not> over_budget (demo_request (Fin 50)) (rc_EstimatedCost (rd_Selected d))"
    using decision_compliant_and_best [OF d [unfolded demo_decision_def], of demo_admissions]
    by (simp_all add: demo_router_def demo_request_def keeps_decisions_def)
  have p: "projr demo_decision = d" by (simp add: d)
  from mset_eq_length [OF f] e(4) have "rd_FallbackChain d = []" unfolding p by simp
  with d e(2,3) o show ?thesis unfolding p by blast
qed

section \<open>Evidence\<close>

lemma candidate_evidence_valid:
  "candidate_evidence ufold repo resolve decision req c = Inr (Some item) \<Longrightarrow>
   RoutePricingEvidence_Validate item = None \<and> pe_DeploymentID item = rc_DeploymentID c \<and> pe_RouteDecisionID item = rd_ID decision \<and>
   rc_RejectionReasons c = [] \<and> pe_Selected item = (rc_DeploymentID c = rc_DeploymentID (rd_Selected decision)) \<and>
   pq_QuotedAt (pe_Quote item) = rd_CreatedAt decision"
  by (auto simp: candidate_evidence_def evidence_error_def Let_def QuotePricing_Inr(8)
      split: if_splits sum.splits option.splits)

lemma candidate_evidence_selected:
  "candidate_evidence ufold repo resolve decision req c = Inr x \<Longrightarrow> rc_DeploymentID c \<noteq> [] \<Longrightarrow> rc_RejectionReasons c = [] \<Longrightarrow>
   rc_DeploymentID c = rc_DeploymentID (rd_Selected decision) \<Longrightarrow> x \<noteq> None"
  by (auto simp: candidate_evidence_def evidence_error_def Let_def split: if_splits sum.splits option.splits)

text \<open>C37: Replayed pricing evidence is well formed and covers the selected deployment. Every record
  PricingEvidence returns passes its validator, names the decision and a compliant candidate of it, and carries a quote
  made at the decision's creation time; and when the selected candidate is a compliant
  deployment among the candidates, there is a record marked as selected for it.\<close>

theorem evidence_well_formed:
  assumes "PricingEvidence ufold b ptr decision req = Inr es"
    and "deploymentRepository b ptr = Some repo" and "pricingPolicyRepository b ptr = Some resolve"
  shows "(\<forall>e\<in>set es. RoutePricingEvidence_Validate e = None \<and> pe_RouteDecisionID e = rd_ID decision \<and>
      pq_QuotedAt (pe_Quote e) = rd_CreatedAt decision \<and>
      (\<exists>c\<in>set (rd_Candidates decision). compliant c \<and> pe_DeploymentID e = rc_DeploymentID c)) \<and>
    (rd_Selected decision \<in> set (rd_Candidates decision) \<and> compliant (rd_Selected decision) \<and>
       rc_DeploymentID (rd_Selected decision) \<noteq> [] \<longrightarrow>
     (\<exists>e\<in>set es. pe_Selected e \<and> pe_DeploymentID e = rc_DeploymentID (rd_Selected decision)))"
proof -
  let ?f = "candidate_evidence ufold repo resolve decision req"
  obtain xs where xs: "map_err ?f (rd_Candidates decision) = Inr xs" and es: "es = List.map_filter id xs"
    using assms by (auto simp: PricingEvidence_def sum_bind_Inr split: if_splits)
  have mem: "e \<in> set es \<longleftrightarrow> Some e \<in> set xs" for e unfolding es by (simp add: set_map_filter)
  have "RoutePricingEvidence_Validate e = None \<and> pe_RouteDecisionID e = rd_ID decision \<and>
      pq_QuotedAt (pe_Quote e) = rd_CreatedAt decision \<and>
      (\<exists>c\<in>set (rd_Candidates decision). compliant c \<and> pe_DeploymentID e = rc_DeploymentID c)" if e: "e \<in> set es" for e
  proof -
    have "Some e \<in> set xs" using e mem by blast
    with xs obtain c where c: "c \<in> set (rd_Candidates decision)" "?f c = Inr (Some e)"
      by (rule map_err_in)
    from candidate_evidence_valid [OF c(2)] c(1) show ?thesis by (auto simp: compliant_def)
  qed
  moreover have "\<exists>e\<in>set es. pe_Selected e \<and> pe_DeploymentID e = rc_DeploymentID (rd_Selected decision)"
    if s: "rd_Selected decision \<in> set (rd_Candidates decision)" "compliant (rd_Selected decision)" "rc_DeploymentID (rd_Selected decision) \<noteq> []"
  proof -
    obtain x where x: "x \<in> set xs" "?f (rd_Selected decision) = Inr x"
      using xs s(1) unfolding map_err_Inr list_all2_conv_all_nth in_set_conv_nth by metis
    then obtain e where "x = Some e" using candidate_evidence_selected [OF x(2) s(3)] s(2) by (auto simp: compliant_def)
    with x mem candidate_evidence_valid [of ufold repo resolve decision req "rd_Selected decision" e] show ?thesis by auto
  qed
  ultimately show ?thesis by blast
qed

theorem evidence_well_formed_witness:
  "\<exists>es e. PricingEvidence no_fold demo_priced (Some 1) (projr demo_unpriced) (demo_request (Fin 50)) = Inr es \<and>
     e \<in> set es \<and> pe_Selected e \<and> RoutePricingEvidence_Validate e = None"
proof -
  let ?d = "projr demo_unpriced"
  have e: "\<not> isl (PricingEvidence no_fold demo_priced (Some 1) ?d (demo_request (Fin 50)))"
    "rd_Selected ?d \<in> set (rd_Candidates ?d)" "compliant (rd_Selected ?d)" "rc_DeploymentID (rd_Selected ?d) \<noteq> []"
    by code_simp+
  then obtain es where es: "PricingEvidence no_fold demo_priced (Some 1) ?d (demo_request (Fin 50)) = Inr es" by (metis sum.collapse(2))
  have b: "deploymentRepository demo_priced (Some 1) = Some demo_repo" "pricingPolicyRepository demo_priced (Some 1) = Some demo_resolve"
    using demo_bound(1)
    by (simp_all add: demo_priced_def deploymentRepository_def pricingPolicyRepository_def WithPricingPolicies_def bind_repo_def bound_repo_def gm.get_put)
  from evidence_well_formed [OF es b] e es show ?thesis by blast
qed

end
