(* ===== verification/Spec2Isabelle.thy ===== *)
theory Spec2Isabelle
  imports Exec_State Exec_Supervisor Exec_Approval Exec_Runner Lease_Isolation Worker_Lease
    Circuit_Breaker Outbox_Safety Router_Plan
begin

text \<open>
  Verification of the aicloud control plane, a Go program. A task is planned as a graph of nodes,
  each node is routed to a model or another target, workers execute the nodes under leases kept
  in PostgreSQL and under a budget, and events leave the system through an outbox. The development
  models the parts that decide something and the repositories whose transactions carry the
  guarantees; paths below are relative to src.

  \<^bold>\<open>Go and SQL.\<close> Go\_Prelude has 64-bit integers (\<^typ>\<open>int\<close> values with \<open>wrap64\<close> written out at every
  operation that can overflow), times and durations in nanoseconds, strings as lists of bytes, and
  maps as association lists; Go\_Float has float64 with IEEE rounding and NaN; Go\_Errors has error
  values with wrapping, \<open>errors.Is\<close>, \<open>errors.As\<close> and \<open>errors.Join\<close>; Go\_Json has the scanner of encoding/json;
  Go\_Strings has \<open>EqualFold\<close> and \<open>sort.SliceStable\<close>; Sql\_Table has the selections and updates on tables
  as lists of rows. An operation that can fail returns a sum with the error on the left; one that
  returns only an error returns an option; state is passed in and out; an interface of the source
  is a record of functions on an arbitrary state, or a function argument.

  \<^bold>\<open>The execution domain (execution/).\<close> Exec\_Types has the data of types.go, lease.go and
  attempt\_persistence.go. Exec\_State has the transition tables of state.go: an execution succeeds
  only through verification (C16). Exec\_Plan has plan.go: the depth-first search finds a cycle
  exactly when there is one (C14), and \<open>ValidatePlan\<close> accepts exactly the bounded acyclic plans (C17).
  Exec\_Budget has the ledger of budget.go: conservation and limits of the integer counters (C12, C11), and
  what a cost that is not a number does to the cost limit (C18). Exec\_Supervisor has supervisor.go: which
  nodes are prepared (C19), that a plan does not get stuck by itself (C20), which reservations a
  selection opens (C21), and that a node can be selected only once (C22). Exec\_Approval has approval.go
  (C27, C28). Exec\_Runner has runner.go: one run and its settlement (C25), and running a whole
  selection (C26). Exec\_Worker has persistent\_worker.go: the order of its calls, for all
  collaborators (C5).

  \<^bold>\<open>Leases and attempts (internal/repository).\<close> Identity has the principals of internal/identity (C29)
  and the scoped transaction every repository call goes through. Node\_Leases has each operation of
  postgres\_execution\_node\_leases.go, postgres\_execution\_attempts.go and
  postgres\_execution\_node\_retry.go as a transaction on the two tables of migrations 017 and 018, with their
  constraints. Lease\_Invariant proves the invariant of the tables. Lease\_Safety is about all histories
  of calls: an effect that may not be retried is started at most once (C2), a lease that was
  superseded can do nothing (C3), a running node has one live attempt (C7), and nodes follow
  the lifecycle table up to release (C24). Lease\_Scenarios applies these to a concrete history.
  Lease\_Isolation shows that tenants do not interfere (C4), Lease\_Liveness that a ready or abandoned
  node can be claimed (C23). Worker\_Lease puts the worker on this repository and the ledger, with
  an environment that may call the repository between any two calls of the worker: a target that may not
  be called twice is not (C1), reservations are closed (C6), and success is recorded (C8).

  \<^bold>\<open>Tasks, models and routes (internal/).\<close> Domain\_Types and Task\_Domain have internal/domain with the task
  aggregate and its histories (C10); Pricing has deployment rules, pricing policies and quotes (C31);
  Admission has the evidence on models (C13); Circuit\_Breaker has the breaker, refined to an automaton per key
  (C15, C30); Router and Router\_Plan have internal/router: decisions (C34), plans over
  deployments (C35), the pricing that \<open>Plan\<close> does not see (C36), and pricing evidence (C37).
  Outbox and Outbox\_Safety have postgres\_outbox.go on migrations 007 and 008 and the dispatcher: leases are exclusive
  (C9), finished messages are final (C32), the backoff ends (C33), and a round accounts for what
  it leased (C38).

  \<^bold>\<open>Interfaces as locales.\<close> \<open>kv_store\<close> (maps), \<open>keyed_table\<close> (tables with a key), \<open>weak_order\<close> (stable sorting),
  \<open>lifecycle\<close> (transition tables), \<open>budget_coordinator\<close>, \<open>approval_store\<close>, and \<open>coordinator_rely\<close> with its
  extension \<open>worker_rely\<close>, by which what each call of a collaborator keeps is kept by an execution of
  the worker. Each is interpreted on the definitions of the model.

  \<^bold>\<open>Recursion and bounds.\<close> Nothing runs on fuel. The cycle search terminates because every call marks a
  node; the doubling loop of the backoff is a partial function, and C33 shows that it returns.
  Counters of the ledger wrap as in Go, and C11 asks for limits and estimates below two to the 62; the
  breaker theorems ask for fewer than two to the 63 calls, so that the failure count does not wrap.

  \<^bold>\<open>Parameters.\<close> Target invokers, policy evaluators, resolvers, estimators, delivery adapters and stores
  behind interfaces; clock readings and random bytes; how the database stores a time
  or a numeric; the rows that other transactions have locked; and the Unicode case tables beyond ASCII.

  \<^bold>\<open>Concurrency.\<close> A mutex held for a whole method, or a transaction under row locks, makes an
  operation one step, and concurrency is an arbitrary sequence of steps. In Worker\_Lease the
  jobs of the modelled workers run one after another while the environment calls the repository in
  between; calls of targets by the environment are not counted. The breaker takes no lock across a call, so its
  theorems are about calls for a key that do not overlap.

  \<^bold>\<open>Not modelled.\<close> Failures of the database connection, cancellation of contexts except as an error value, and
  nil receivers or nil databases of the repositories, which only fail early. The HTTP API,
  authentication, Temporal workflows, the control plane service and the remaining SQL and in-memory stores, which
  connect the modelled parts to the network and the database; the model gateway with its providers, the agent
  pipeline, the infrastructure mappings, the GitOps integration and the secret resolvers, on which no
  modelled part depends; configuration, logging and the main programs; and execution/provider.go
  with the computecloud client, an HTTP client of another service.
\<close>

end
